(* ===== verification/Prelude.thy ===== *)
theory Prelude
  imports Main "HOL-Library.Word" "HOL-Library.Char_ord" "HOL-Library.List_Lexorder"
begin

text \<open>
  Shared vocabulary of the development: Rust's unsigned machine integers as words with
  the checked, saturating and rounding-up operations of the standard library, results as
  sums, the list operations of slices the code uses, and the account and token names.

  The deployed binary is built with \<^verbatim>\<open>cargo build --release\<close> (Dockerfile) and the
  workspace sets no \<^verbatim>\<open>overflow-checks\<close>, so the plain operators \<open>+\<close>, \<open>-\<close>, \<open>*\<close>
  on machine integers wrap around; the word operations do the same.
\<close>

type_synonym u32 = "32 word"
type_synonym u64 = "64 word"
type_synonym u128 = "128 word"
type_synonym account_id = string

text \<open>\<open>u128_simps\<close> collects how each integer operation reads on natural numbers;
  \<open>slice_simps\<close> collects the facts on slices and vectors.\<close>

named_theorems u128_simps
named_theorems slice_simps

section \<open>Machine integers\<close>

definition checked_sub :: "'a::len word \<Rightarrow> 'a word \<Rightarrow> 'a word option" where
  "checked_sub a b = (if b \<le> a then Some (a - b) else None)"

definition checked_mul :: "'a::len word \<Rightarrow> 'a word \<Rightarrow> 'a word option" where
  "checked_mul a b = (if unat a * unat b < 2 ^ LENGTH('a) then Some (a * b) else None)"

definition saturating_sub :: "'a::len word \<Rightarrow> 'a word \<Rightarrow> 'a word" where
  "saturating_sub a b = (if b \<le> a then a - b else 0)"

definition saturating_add :: "'a::len word \<Rightarrow> 'a word \<Rightarrow> 'a word" where
  "saturating_add a b = (if unat a + unat b < 2 ^ LENGTH('a) then a + b else - 1)"

definition saturating_mul :: "'a::len word \<Rightarrow> 'a word \<Rightarrow> 'a word" where
  "saturating_mul a b = (if unat a * unat b < 2 ^ LENGTH('a) then a * b else - 1)"

text \<open>\<open>div_ceil\<close> of the standard library: the quotient, plus one when there is a
  remainder. It panics on a zero divisor, so its callers are modelled with the divisor
  known to be positive.\<close>

definition div_ceil :: "'a::len word \<Rightarrow> 'a word \<Rightarrow> 'a word" where
  "div_ceil a b = (if a mod b = 0 then a div b else a div b + 1)"

definition nat_ceil_div :: "nat \<Rightarrow> nat \<Rightarrow> nat" where
  "nat_ceil_div a b = (a + b - 1) div b"

lemma unat_below: "unat (w :: 'a::len word) < 2 ^ LENGTH('a)"
  by (rule unsigned_less)

lemma unat_max_word: "unat (- 1 :: 'a::len word) = 2 ^ LENGTH('a) - 1"
  by (simp add: unat_word_ariths unsigned_minus_1_eq_mask mask_eq_exp_minus_1)

lemma unat_saturating_sub [u128_simps]: "unat (saturating_sub a b) = unat a - unat b"
  by (auto simp: saturating_sub_def word_le_nat_alt unat_sub)

lemma unat_saturating_add [u128_simps]:
  fixes a b :: "'a::len word"
  shows "unat (saturating_add a b) = min (unat a + unat b) (2 ^ LENGTH('a) - 1)"
  by (auto simp: saturating_add_def unat_max_word unat_word_ariths)

lemma unat_saturating_mul [u128_simps]:
  fixes a b :: "'a::len word"
  shows "unat (saturating_mul a b) = min (unat a * unat b) (2 ^ LENGTH('a) - 1)"
  by (auto simp: saturating_mul_def unat_max_word unat_word_ariths)

lemma checked_sub_Some_iff [u128_simps]:
  "checked_sub a b = Some c \<longleftrightarrow> unat b \<le> unat a \<and> unat c = unat a - unat b"
  by (auto simp: checked_sub_def word_le_nat_alt unat_sub word_unat_eq_iff)

lemma checked_sub_None_iff [u128_simps]: "checked_sub a b = None \<longleftrightarrow> unat a < unat b"
  by (auto simp: checked_sub_def word_le_nat_alt)

lemma checked_mul_Some_iff [u128_simps]:
  fixes a b c :: "'a::len word"
  shows "checked_mul a b = Some c \<longleftrightarrow> unat c = unat a * unat b"
  using unat_below [of c]
  by (auto simp: checked_mul_def unat_word_ariths word_unat_eq_iff simp del: unsigned_less)

lemma checked_mul_None_iff [u128_simps]:
  fixes a b :: "'a::len word"
  shows "checked_mul a b = None \<longleftrightarrow> 2 ^ LENGTH('a) \<le> unat a * unat b"
  by (auto simp: checked_mul_def)

lemma nat_ceil_div_alt: "0 < b \<Longrightarrow>
  nat_ceil_div a b = (if a mod b = 0 then a div b else Suc (a div b))"
proof -
  assume b: "0 < b"
  define q r where "q = a div b" and "r = a mod b"
  have a: "a = b * q + r" and r: "r < b"
    using b by (simp_all add: q_def r_def)
  show ?thesis
  proof (cases "r = 0")
    case True
    have "a + b - 1 = b * q + (b - 1)" using a b True by simp
    then have "(a + b - 1) div b = q"
      using b by (simp only: div_mult_self4) simp
    with True show ?thesis
      by (simp add: nat_ceil_div_def flip: q_def r_def)
  next
    case False
    have "a + b - 1 = b * Suc q + (r - 1)" using a b False by simp
    then have "(a + b - 1) div b = Suc q + (r - 1) div b"
      using b by (simp only: div_mult_self4)
    moreover have "(r - 1) div b = 0" using r by simp
    ultimately show ?thesis
      using False by (simp add: nat_ceil_div_def flip: q_def r_def)
  qed
qed

lemma nat_ceil_div_bounds:
  assumes "0 < b"
  shows "a \<le> b * nat_ceil_div a b" and "b * nat_ceil_div a b < a + b"
proof -
  have a: "b * (a div b) + a mod b = a" and r: "a mod b < b"
    using assms by simp_all
  show "a \<le> b * nat_ceil_div a b"
  proof (cases "a mod b = 0")
    case True
    with a assms show ?thesis by (simp add: nat_ceil_div_alt)
  next
    case False
    then have "b * nat_ceil_div a b = b * (a div b) + b"
      using assms by (simp add: nat_ceil_div_alt)
    with a r show ?thesis by linarith
  qed
  show "b * nat_ceil_div a b < a + b"
  proof (cases "a mod b = 0")
    case True
    with a assms show ?thesis by (simp add: nat_ceil_div_alt)
  next
    case False
    then have "b * nat_ceil_div a b = b * (a div b) + b"
      using assms by (simp add: nat_ceil_div_alt)
    with a False show ?thesis by linarith
  qed
qed

lemma nat_ceil_div_zero [simp]: "nat_ceil_div 0 b = 0"
  by (cases b) (simp_all add: nat_ceil_div_def)

lemma nat_ceil_div_mono: "a \<le> a' \<Longrightarrow> nat_ceil_div a b \<le> nat_ceil_div a' b"
  by (simp add: nat_ceil_div_def div_le_mono)

lemma unat_div_ceil [u128_simps]:
  fixes a b :: "'a::len word"
  assumes "0 < unat b"
  shows "unat (div_ceil a b) = nat_ceil_div (unat a) (unat b)"
proof (cases "a mod b = 0")
  case True
  then have "unat a mod unat b = 0"
    by (simp flip: unat_mod_distrib)
  with True assms show ?thesis
    by (simp add: div_ceil_def nat_ceil_div_alt unat_div_distrib)
next
  case False
  then have m: "unat a mod unat b \<noteq> 0"
    by (simp add: unat_eq_zero flip: unat_mod_distrib)
  then have "unat b \<noteq> 1" by (metis mod_by_1)
  with assms have "2 \<le> unat b" by simp
  then have "unat a div unat b \<le> unat a div 2"
    by (simp add: div_le_mono2)
  also have "\<dots> < 2 ^ LENGTH('a) - 1"
    using unat_below [of a] m by (cases "unat a") auto
  finally have "unat a div unat b + 1 < 2 ^ LENGTH('a)" by simp
  with False m assms show ?thesis
    by (simp add: div_ceil_def nat_ceil_div_alt unat_word_ariths unat_div_distrib)
qed

section \<open>Slices\<close>

text \<open>\<open>slice::chunks\<close>: consecutive pieces of length \<open>n\<close>, the last one shorter. It
  panics for a zero chunk size; the code only uses a positive constant.\<close>

function chunks :: "nat \<Rightarrow> 'a list \<Rightarrow> 'a list list" where
  "chunks n xs = (if xs = [] \<or> n = 0 then [] else take n xs # chunks n (drop n xs))"
  by pat_completeness auto
termination
  by (relation "measure (\<lambda>(n, xs). length xs)") auto

declare chunks.simps [simp del]

lemma chunks_Nil [simp]: "chunks n [] = []"
  by (simp add: chunks.simps)

lemma chunks_concat [slice_simps]: "0 < n \<Longrightarrow> concat (chunks n xs) = xs"
proof (induction n xs rule: chunks.induct)
  case (1 n xs)
  then show ?case by (cases "xs = []") (simp_all add: chunks.simps [of n xs])
qed

lemma chunks_length: "c \<in> set (chunks n xs) \<Longrightarrow> length c \<le> n \<and> c \<noteq> []"
proof (induction n xs rule: chunks.induct)
  case (1 n xs)
  then show ?case
    by (cases "xs = [] \<or> n = 0") (auto simp: chunks.simps [of n xs])
qed

lemma chunks_set [slice_simps]: "0 < n \<Longrightarrow> (\<Union>c\<in>set (chunks n xs). set c) = set xs"
  by (metis chunks_concat set_concat)

text \<open>\<open>slice::get\<close>: the element, or none when the index is out of range.\<close>

definition get_opt :: "'a list \<Rightarrow> nat \<Rightarrow> 'a option" where
  "get_opt xs i = (if i < length xs then Some (xs ! i) else None)"

lemma get_opt_Some_iff [slice_simps]: "get_opt xs i = Some x \<longleftrightarrow> i < length xs \<and> xs ! i = x"
  by (auto simp: get_opt_def)

lemma get_opt_None_iff [slice_simps]: "get_opt xs i = None \<longleftrightarrow> length xs \<le> i"
  by (auto simp: get_opt_def)

section \<open>Results\<close>

text \<open>\<^verbatim>\<open>Result<A, E>\<close> is \<open>'e + 'a\<close>; the question-mark operator is \<open>rbind\<close>, and
  \<^verbatim>\<open>ok_or\<close> turns a missing value into an error.\<close>

definition rbind :: "'e + 'a \<Rightarrow> ('a \<Rightarrow> 'e + 'b) \<Rightarrow> 'e + 'b" where
  "rbind r f = (case r of Inl e \<Rightarrow> Inl e | Inr x \<Rightarrow> f x)"

definition ok_or :: "'a option \<Rightarrow> 'e \<Rightarrow> 'e + 'a" where
  "ok_or v e = (case v of None \<Rightarrow> Inl e | Some x \<Rightarrow> Inr x)"

lemma rbind_simps [simp]: "rbind (Inl e) f = Inl e" "rbind (Inr x) f = f x"
  by (simp_all add: rbind_def)

lemma rbind_Inr_iff: "rbind r f = Inr y \<longleftrightarrow> (\<exists>x. r = Inr x \<and> f x = Inr y)"
  by (cases r) auto

lemma rbind_Inl_iff: "rbind r f = Inl e \<longleftrightarrow> r = Inl e \<or> (\<exists>x. r = Inr x \<and> f x = Inl e)"
  by (cases r) auto

lemma ok_or_simps [simp]:
  "ok_or None e = Inl e" "ok_or (Some x) e = Inr x"
  "ok_or v e = Inr x \<longleftrightarrow> v = Some x" "ok_or v e = Inl e' \<longleftrightarrow> v = None \<and> e' = e"
  by (auto simp: ok_or_def split: option.splits)

section \<open>Accounts and tokens\<close>

text \<open>\<^verbatim>\<open>TokenAccount\<close> is a newtype over an account name; its derived order is the
  lexicographic order of the name's bytes, which orders the keys of every
  \<^verbatim>\<open>BTreeMap<TokenAccount, _>\<close>.\<close>

datatype token_account = TokenAccount (as_account_id: account_id)
datatype token_in_account = TokenInAccount (in_inner: token_account)
datatype token_out_account = TokenOutAccount (out_inner: token_account)

instantiation token_account :: linorder
begin
definition less_eq_token_account :: "token_account \<Rightarrow> token_account \<Rightarrow> bool" where
  "less_eq_token_account a b \<longleftrightarrow> as_account_id a \<le> as_account_id b"
definition less_token_account :: "token_account \<Rightarrow> token_account \<Rightarrow> bool" where
  "less_token_account a b \<longleftrightarrow> as_account_id a < as_account_id b"
instance
  by standard (auto simp: less_eq_token_account_def less_token_account_def token_account.expand)
end

definition to_in :: "token_account \<Rightarrow> token_in_account" where
  "to_in t = TokenInAccount t"

definition to_out :: "token_account \<Rightarrow> token_out_account" where
  "to_out t = TokenOutAccount t"

definition as_out :: "token_in_account \<Rightarrow> token_out_account" where
  "as_out t = TokenOutAccount (in_inner t)"

definition as_in :: "token_out_account \<Rightarrow> token_in_account" where
  "as_in t = TokenInAccount (out_inner t)"

lemma token_conversions [simp]:
  "as_in (as_out t) = t" "as_out (as_in u) = u" "as_out (to_in a) = to_out a"
  "as_in (to_out a) = to_in a" "in_inner (to_in a) = a" "out_inner (to_out a) = a"
  by (cases t; cases u; simp add: as_in_def as_out_def to_in_def to_out_def)+

lemma unat_of_nat_u128: "n < 2 ^ 128 \<Longrightarrow> unat (of_nat n :: u128) = n"
  by (simp add: unat_of_nat)

lemma unat_ucast_mod: "unat (ucast (w :: 'a::len word) :: 'b::len word) = unat w mod 2 ^ LENGTH('b)"
  by (simp add: unsigned_ucast_eq take_bit_eq_mod)

end
