(* ===== verification/Ordered_Map.thy ===== *)
theory Ordered_Map
  imports Prelude
begin

text \<open>
  \<^verbatim>\<open>std::collections::BTreeMap\<close> as the code uses it: insertion, lookup and iteration in
  key order. The interface is the locale \<open>ordered_map\<close>; the representation the model
  computes with is the association list of the entries in key order, for which the locale
  is interpreted. Entries that arrive in document order (a deserialised JSON object) are
  inserted one by one, later entries replacing earlier ones.
\<close>

section \<open>The interface\<close>

locale ordered_map =
  fixes empty :: "'m"
    and insert :: "'k::linorder \<Rightarrow> 'v \<Rightarrow> 'm \<Rightarrow> 'm"
    and get :: "'m \<Rightarrow> 'k \<Rightarrow> 'v option"
    and entries :: "'m \<Rightarrow> ('k \<times> 'v) list"
    and invar :: "'m \<Rightarrow> bool"
  assumes get_empty: "get empty k = None"
    and get_insert: "invar m \<Longrightarrow> get (insert k v m) = (get m)(k \<mapsto> v)"
    and entries_sorted: "invar m \<Longrightarrow> sorted_wrt (<) (map fst (entries m))"
    and entries_get: "invar m \<Longrightarrow> (k, v) \<in> set (entries m) \<longleftrightarrow> get m k = Some v"
    and invar_empty: "invar empty"
    and invar_insert: "invar m \<Longrightarrow> invar (insert k v m)"
begin

lemma invar_collect: "invar m \<Longrightarrow> invar (fold (\<lambda>(k, v). insert k v) kvs m)"
  by (induction kvs arbitrary: m) (auto intro: invar_insert)

text \<open>Collecting entries keeps, for every key, the last value given for it.\<close>

lemma get_collect:
  "invar m \<Longrightarrow> get (fold (\<lambda>(k, v). insert k v) kvs m) = get m ++ map_of (rev kvs)"
proof (induction kvs arbitrary: m)
  case Nil
  then show ?case by simp
next
  case (Cons kv kvs)
  obtain k v where kv: "kv = (k, v)" by fastforce
  from Cons.prems have "invar (insert k v m)" by (rule invar_insert)
  from Cons.IH [OF this] show ?case
    using Cons.prems by (simp add: kv get_insert map_add_def fun_eq_iff split: option.split)
qed

lemma entries_distinct: "invar m \<Longrightarrow> distinct (map fst (entries m))"
  using entries_sorted by (auto simp: strict_sorted_iff)

lemma get_empty_collect: "get (fold (\<lambda>(k, v). insert k v) kvs empty) = map_of (rev kvs)"
  using get_collect [OF invar_empty] get_empty by (auto simp: map_add_def fun_eq_iff split: option.splits)

lemma dom_entries: "invar m \<Longrightarrow> set (map fst (entries m)) = dom (get m)"
  using entries_get by force

end

section \<open>The representation\<close>

type_synonym ('k, 'v) btree_map = "('k \<times> 'v) list"

fun btree_insert :: "'k::linorder \<Rightarrow> 'v \<Rightarrow> ('k, 'v) btree_map \<Rightarrow> ('k, 'v) btree_map" where
  "btree_insert k v [] = [(k, v)]"
| "btree_insert k v ((k', v') # m) =
     (if k < k' then (k, v) # (k', v') # m
      else if k = k' then (k, v) # m
      else (k', v') # btree_insert k v m)"

definition btree_invar :: "('k::linorder, 'v) btree_map \<Rightarrow> bool" where
  "btree_invar m \<longleftrightarrow> sorted_wrt (<) (map fst m)"

definition btree_collect :: "('k::linorder \<times> 'v) list \<Rightarrow> ('k, 'v) btree_map" where
  "btree_collect kvs = fold (\<lambda>(k, v). btree_insert k v) kvs []"

lemma btree_insert_keys: "set (map fst (btree_insert k v m)) = Set.insert k (set (map fst m))"
  by (induction k v m rule: btree_insert.induct) (simp_all add: insert_commute)

lemma btree_insert_invar: "btree_invar m \<Longrightarrow> btree_invar (btree_insert k v m)"
  unfolding btree_invar_def
proof (induction m)
  case Nil
  then show ?case by simp
next
  case (Cons kv m)
  obtain k' v' where kv: "kv = (k', v')" by fastforce
  have sorted: "sorted_wrt (<) (map fst m)" and lt: "\<forall>x\<in>set (map fst m). k' < x"
    using Cons.prems by (auto simp: kv)
  show ?case
  proof (cases "k' < k")
    case True
    then have "\<forall>x\<in>set (map fst (btree_insert k v m)). k' < x"
      using lt btree_insert_keys [of k v m] by auto
    with True Cons.IH [OF sorted] show ?thesis by (auto simp: kv)
  next
    case False
    with Cons.prems lt show ?thesis by (auto simp: kv)
  qed
qed

lemma map_of_btree_insert: "map_of (btree_insert k v m) = (map_of m)(k \<mapsto> v)"
  if "btree_invar m"
  using that unfolding btree_invar_def
proof (induction m)
  case Nil
  then show ?case by simp
next
  case (Cons kv m)
  obtain k' v' where kv: "kv = (k', v')" by fastforce
  from Cons show ?case by (auto simp: kv fun_eq_iff)
qed

interpretation btree: ordered_map "[]" btree_insert map_of "\<lambda>m. m" btree_invar
proof unfold_locales
  show "map_of [] k = None" for k :: 'a by simp
  show "map_of (btree_insert k v m) = (map_of m)(k \<mapsto> v)" if "btree_invar m"
    for k :: 'a and v :: 'b and m using that by (rule map_of_btree_insert)
  show "sorted_wrt (<) (map fst m)" if "btree_invar m" for m :: "('a, 'b) btree_map"
    using that by (simp add: btree_invar_def)
  show "((k, v) \<in> set m) = (map_of m k = Some v)" if "btree_invar m"
    for m :: "('a, 'b) btree_map" and k v
    using that by (auto simp: btree_invar_def strict_sorted_iff intro: map_of_SomeD)
  show "btree_invar []" by (simp add: btree_invar_def)
  show "btree_invar (btree_insert k v m)" if "btree_invar m" for k :: 'a and v :: 'b and m
    using that by (rule btree_insert_invar)
qed

lemma btree_collect_invar [simp]: "btree_invar (btree_collect kvs)"
  by (simp add: btree_collect_def btree.invar_collect btree.invar_empty)

lemma map_of_btree_collect: "map_of (btree_collect kvs) = map_of (rev kvs)"
  by (simp add: btree_collect_def btree.get_empty_collect)

lemma btree_collect_distinct: "distinct (map fst (btree_collect kvs))"
  by (rule btree.entries_distinct) simp

lemma btree_insert_length: "length (btree_insert k v m) \<le> Suc (length m)"
  by (induction k v m rule: btree_insert.induct) auto

lemma btree_collect_length: "length (btree_collect kvs) \<le> length kvs"
proof -
  have "length (fold (\<lambda>(k, v). btree_insert k v) kvs m) \<le> length m + length kvs" for m
  proof (induction kvs arbitrary: m)
    case (Cons kv kvs)
    obtain k v where kv: "kv = (k, v)" by fastforce
    from Cons [of "btree_insert k v m"] btree_insert_length [of k v m] show ?case
      by (simp add: kv)
  qed simp
  from this [of "[]"] show ?thesis by (simp add: btree_collect_def)
qed

end
