(* ===== verification/Decimal.thy ===== *)
theory Decimal
  imports Prelude Complex_Main
begin

text \<open>
  The interface of the \<^verbatim>\<open>bigdecimal\<close> crate, which the sources only call. A
  \<^verbatim>\<open>BigDecimal\<close> is the rational number it denotes; its addition, subtraction,
  multiplication, comparison, sign and absolute value are exact. The two inexact
  operations are fields of the record \<open>bigdecimal\<close>, an argument of every definition that
  uses them, and \<open>bigdecimal_spec\<close> states their documented behaviour: division keeps
  (at least) 100 significant digits and is exact whenever that many digits suffice, and
  \<^verbatim>\<open>to_u128\<close> drops the fraction, refusing negative and too large values.
\<close>

record bigdecimal =
  bd_div :: "rat \<Rightarrow> rat \<Rightarrow> rat"
  bd_to_u128 :: "rat \<Rightarrow> u128 option"

definition decimal_digits :: "nat \<Rightarrow> rat \<Rightarrow> bool" where
  "decimal_digits n x \<longleftrightarrow> (\<exists>(m::int) (k::int). \<bar>m\<bar> < 10 ^ n \<and>
     x = (if 0 \<le> k then of_int m * 10 ^ nat k else of_int m / 10 ^ nat (- k)))"

definition truncates :: "(rat \<Rightarrow> u128 option) \<Rightarrow> bool" where
  "truncates f \<longleftrightarrow> (\<forall>x. f x =
     (if x < 0 \<or> 2 ^ 128 \<le> \<lfloor>x\<rfloor> then None else Some (word_of_int \<lfloor>x\<rfloor>)))"

definition bigdecimal_spec :: "bigdecimal \<Rightarrow> bool" where
  "bigdecimal_spec B \<longleftrightarrow>
     (\<forall>a b. b \<noteq> 0 \<longrightarrow> \<bar>bd_div B a b - a / b\<bar> \<le> \<bar>a / b\<bar> / 10 ^ 99) \<and>
     (\<forall>a b. b \<noteq> 0 \<longrightarrow> decimal_digits 100 (a / b) \<longrightarrow> bd_div B a b = a / b) \<and>
     truncates (bd_to_u128 B)"

text \<open>\<^verbatim>\<open>BigDecimal::from(u128)\<close> and \<^verbatim>\<open>BigDecimal::from(u32)\<close>.\<close>

definition bd_of :: "'a::len word \<Rightarrow> rat" where
  "bd_of w = of_nat (unat w)"

text \<open>The exact instance shows that the interface can be met.\<close>

definition exact_decimal :: bigdecimal where
  "exact_decimal = \<lparr>bd_div = (/), bd_to_u128 = (\<lambda>x.
     if x < 0 \<or> 2 ^ 128 \<le> \<lfloor>x\<rfloor> then None else Some (word_of_int \<lfloor>x\<rfloor>))\<rparr>"

lemma exact_decimal_spec: "bigdecimal_spec exact_decimal"
  by (simp add: bigdecimal_spec_def exact_decimal_def truncates_def)

section \<open>Consequences of the interface\<close>

lemma bd_of_le_0_iff [simp]: "bd_of w \<le> 0 \<longleftrightarrow> w = 0"
  by (metis bd_of_def of_nat_le_0_iff unat_eq_zero)

lemma bd_div_error:
  "bigdecimal_spec B \<Longrightarrow> b \<noteq> 0 \<Longrightarrow> \<bar>bd_div B a b - a / b\<bar> \<le> \<bar>a / b\<bar> / 10 ^ 99"
  by (simp add: bigdecimal_spec_def)

lemma bd_div_exact:
  "bigdecimal_spec B \<Longrightarrow> b \<noteq> 0 \<Longrightarrow> decimal_digits 100 (a / b) \<Longrightarrow> bd_div B a b = a / b"
  by (simp add: bigdecimal_spec_def)

lemma bd_to_u128_eq:
  "bigdecimal_spec B \<Longrightarrow> bd_to_u128 B x =
     (if x < 0 \<or> 2 ^ 128 \<le> \<lfloor>x\<rfloor> then None else Some (word_of_int \<lfloor>x\<rfloor>))"
  by (simp add: bigdecimal_spec_def truncates_def)

lemma decimal_digits_of_int: "\<bar>m\<bar> < 10 ^ n \<Longrightarrow> decimal_digits n (of_int m)"
  unfolding decimal_digits_def by (intro exI [of _ m] exI [of _ 0]) simp

text \<open>
  Truncating a quotient of naturals is integer division, although the decimal quotient is
  rounded: the rounding error is smaller than the distance of a non-integral quotient from
  the next integer, and an integral quotient is exact.
\<close>

lemma bd_div_floor:
  fixes n d :: nat
  assumes B: "bigdecimal_spec B" and d: "0 < d" "d < 10 ^ 45" and q: "n div d < 10 ^ 50"
  shows "\<lfloor>bd_div B (of_nat n) (of_nat d)\<rfloor> = int (n div d)"
proof -
  define x where "x = bd_div B (of_nat n) (of_nat d)"
  let ?q = "of_nat n / of_nat d :: rat"
  have nd: "n = d * (n div d) + n mod d" by simp
  have qeq: "?q = of_nat (n div d) + of_nat (n mod d) / of_nat d"
    using d by (subst nd) (simp add: field_simps flip: of_nat_mult of_nat_add)
  show ?thesis
  proof (cases "n mod d = 0")
    case True
    then have "?q = of_int (int (n div d))" using qeq by simp
    moreover have "decimal_digits 100 (of_int (int (n div d)))"
    proof (rule decimal_digits_of_int)
      have "n div d < 10 ^ 100" using q by simp
      then have "int (n div d) < int (10 ^ 100)" by (simp only: of_nat_less_iff)
      then show "\<bar>int (n div d)\<bar> < 10 ^ 100" by simp
    qed
    ultimately have "x = of_int (int (n div d))"
      using bd_div_exact [OF B, of "of_nat d" "of_nat n"] d by (simp add: x_def)
    then show ?thesis by (simp add: x_def)
  next
    case False
    have dq: "(0::rat) < of_nat d" using d by simp
    have lo: "1 / of_nat d \<le> (of_nat (n mod d) / of_nat d :: rat)"
      using False dq by (intro divide_right_mono) auto
    have "n mod d + 1 \<le> d" using mod_less_divisor [OF d(1), of n] by simp
    then have "(of_nat (n mod d + 1) :: rat) \<le> of_nat d" by (simp only: of_nat_le_iff)
    then have hi: "(of_nat (n mod d) / of_nat d :: rat) \<le> 1 - 1 / of_nat d"
      using dq by (simp add: field_simps)
    have "1 + n div d \<le> 10 ^ 50" using q by simp
    then have "(of_nat (1 + n div d) :: rat) \<le> of_nat (10 ^ 50)" by (simp only: of_nat_le_iff)
    then have "(of_nat (n div d) :: rat) + 1 \<le> 10 ^ 50" by simp
    moreover have "(0::rat) < 1 / of_nat d" using dq by simp
    ultimately have "?q \<le> 10 ^ 50" using hi unfolding qeq by linarith
    moreover have "0 \<le> ?q" by simp
    ultimately have bound: "\<bar>?q\<bar> / 10 ^ 99 \<le> 10 ^ 50 / 10 ^ 99"
      by (intro divide_right_mono) simp_all
    have "\<bar>x - ?q\<bar> \<le> \<bar>?q\<bar> / 10 ^ 99"
      unfolding x_def by (rule bd_div_error [OF B]) (use dq in simp)
    also note bound
    also have "(10 ^ 50 / 10 ^ 99 :: rat) = 1 / 10 ^ 49" by simp
    finally have err: "\<bar>x - ?q\<bar> \<le> 1 / 10 ^ 49" .
    have "(of_nat d :: rat) < of_nat (10 ^ 45)" using d by (simp only: of_nat_less_iff)
    then have "(of_nat d :: rat) < 10 ^ 49" by simp
    then have "(1 :: rat) / 10 ^ 49 < 1 / of_nat d"
      using dq by (simp add: divide_strict_left_mono)
    then have "of_nat (n div d) < x \<and> x < of_nat (n div d) + 1"
      using err lo hi unfolding qeq by linarith
    then show ?thesis
      by (simp add: x_def [symmetric] floor_eq_iff less_imp_le)
  qed
qed

text \<open>So a truncated quotient, seen as a natural number, is the integer quotient.\<close>

lemma bd_div_to_u128:
  fixes n d :: nat
  assumes B: "bigdecimal_spec B" and d: "0 < d" "d < 10 ^ 45" and q: "n div d < 2 ^ 128"
  shows "bd_to_u128 B (bd_div B (of_nat n) (of_nat d)) = Some (of_nat (n div d))"
proof -
  have "n div d < 10 ^ 50" using q by simp
  from bd_div_floor [OF B d this]
  have fl: "\<lfloor>bd_div B (of_nat n) (of_nat d)\<rfloor> = int (n div d)" .
  then have "0 \<le> bd_div B (of_nat n) (of_nat d)"
    by (metis of_nat_0_le_iff zero_le_floor)
  moreover have "int (n div d) < 2 ^ 128"
    using q by (metis of_nat_less_iff of_nat_numeral of_nat_power)
  ultimately show ?thesis
    by (simp add: bd_to_u128_eq [OF B] fl)
qed

end
