(* ===== verification/Dex.thy ===== *)
theory Dex
  imports Prelude Decimal "HOL-Library.Multiset"
begin

text \<open>
  The \<^verbatim>\<open>dex\<close> crate: token positions inside a pool, pool snapshots, the constant-product
  estimate, the list of pools with its index by pool number, and paths of token pairs.
  The pool snapshot's timestamp is a number of seconds.
\<close>

section \<open>Data\<close>

datatype token_index = TokenIndex (as_usize: nat)
datatype token_in = TokenIn (in_index: token_index)
datatype token_out = TokenOut (out_index: token_index)

definition as_u8 :: "token_index \<Rightarrow> 8 word" where
  "as_u8 i = of_nat (as_usize i)"

definition token_index_max :: "token_index \<Rightarrow> token_index \<Rightarrow> token_index" where
  "token_index_max a b = (if as_usize a > as_usize b then a else b)"

datatype dex_error =
    TokenNotFound string
  | SwapSameToken
  | ZeroAmount
  | Overflow
  | OutOfIndexOfPools u32
  | OutOfIndexOfTokens token_index
  | DifferentLengthOfTokens nat nat
  | UnmatchedTokenPath "token_in_account \<times> token_out_account" "token_in_account \<times> token_out_account"
  | PathTooLong (hops: nat) (max_hops: nat)

record pool_info_bared =
  pool_kind :: string
  token_account_ids :: "token_account list"
  amounts :: "u128 list"
  total_fee :: u32
  shares_total_supply :: u128
  amp :: u64

record pool_info =
  pool_number :: u32
  bare :: pool_info_bared
  timestamp :: int

record pool_info_list =
  pool_list :: "pool_info list"
  by_id :: "u32 \<rightharpoonup> pool_info"

record token_pair_id =
  pid_pool :: u32
  pid_in :: token_in
  pid_out :: token_out

record token_pair =
  pair_pool :: pool_info
  pair_in :: token_in
  pair_out :: token_out

definition POOL_KIND_SIMPLE :: string where
  "POOL_KIND_SIMPLE = ''SIMPLE_POOL''"

definition FEE_DIVISOR :: u32 where
  "FEE_DIVISOR = 10000"

definition MAX_HOPS :: nat where
  "MAX_HOPS = 10"

section \<open>One pool\<close>

definition is_simple :: "pool_info \<Rightarrow> bool" where
  "is_simple p \<longleftrightarrow> pool_kind (bare p) = POOL_KIND_SIMPLE"

definition pool_len :: "pool_info \<Rightarrow> nat" where
  "pool_len p = length (token_account_ids (bare p))"

definition pool_get_pair :: "pool_info \<Rightarrow> token_in \<Rightarrow> token_out \<Rightarrow> dex_error + token_pair" where
  "pool_get_pair p i j =
     (let ii = as_usize (in_index i); jj = as_usize (out_index j); n = length (amounts (bare p))
      in if in_index i = out_index j then Inl SwapSameToken
         else if ii \<ge> pool_len p \<or> jj \<ge> pool_len p
         then Inl (OutOfIndexOfTokens (token_index_max (in_index i) (out_index j)))
         else if ii \<ge> n \<or> jj \<ge> n
         then Inl (DifferentLengthOfTokens (length (token_account_ids (bare p))) n)
         else Inr \<lparr>pair_pool = p, pair_in = i, pair_out = j\<rparr>)"

definition pool_token :: "pool_info \<Rightarrow> token_index \<Rightarrow> dex_error + token_account" where
  "pool_token p i = ok_or (get_opt (token_account_ids (bare p)) (as_usize i)) (OutOfIndexOfTokens i)"

definition pool_amount :: "pool_info \<Rightarrow> token_index \<Rightarrow> dex_error + u128" where
  "pool_amount p i = ok_or (get_opt (amounts (bare p)) (as_usize i)) (OutOfIndexOfTokens i)"

definition pool_estimate_return ::
  "bigdecimal \<Rightarrow> pool_info \<Rightarrow> token_in \<Rightarrow> u128 \<Rightarrow> token_out \<Rightarrow> dex_error + u128" where
  "pool_estimate_return B p i amount_in j =
     (if in_index i = out_index j then Inl SwapSameToken
      else rbind (pool_amount p (in_index i)) (\<lambda>a_in.
           rbind (pool_amount p (out_index j)) (\<lambda>a_out.
           let in_balance = bd_of a_in; out_balance = bd_of a_out; amount = bd_of amount_in
           in if in_balance \<le> 0 \<or> out_balance \<le> 0 \<or> amount \<le> 0 then Inl ZeroAmount
              else let amount_with_fee = amount * bd_of (FEE_DIVISOR - total_fee (bare p));
                       result = bd_div B (amount_with_fee * out_balance)
                                  (bd_of FEE_DIVISOR * in_balance + amount_with_fee)
                   in ok_or (bd_to_u128 B result) Overflow)))"

section \<open>The list of pools\<close>

definition pool_info_list_new :: "pool_info list \<Rightarrow> pool_info_list" where
  "pool_info_list_new src = \<lparr>pool_list = sort_key pool_number src,
     by_id = fold (\<lambda>p m. m(pool_number p \<mapsto> p)) src Map.empty\<rparr>"

definition pools_get :: "pool_info_list \<Rightarrow> u32 \<Rightarrow> dex_error + pool_info" where
  "pools_get l n = ok_or (by_id l n) (OutOfIndexOfPools n)"

definition pools_get_pair :: "pool_info_list \<Rightarrow> token_pair_id \<Rightarrow> dex_error + token_pair" where
  "pools_get_pair l q = rbind (pools_get l (pid_pool q)) (\<lambda>p. pool_get_pair p (pid_in q) (pid_out q))"

section \<open>Pairs and paths\<close>

text \<open>\<open>pair_token_in_id\<close> and \<open>pair_token_out_id\<close> panic on an index that is out of range;
  the panic is the value \<open>None\<close>.\<close>

definition pair_pool_id :: "token_pair \<Rightarrow> u32" where
  "pair_pool_id t = pool_number (pair_pool t)"

definition pair_token_in_id :: "token_pair \<Rightarrow> token_in_account option" where
  "pair_token_in_id t = (case pool_token (pair_pool t) (in_index (pair_in t)) of
     Inl _ \<Rightarrow> None | Inr a \<Rightarrow> Some (TokenInAccount a))"

definition pair_token_out_id :: "token_pair \<Rightarrow> token_out_account option" where
  "pair_token_out_id t = (case pool_token (pair_pool t) (out_index (pair_out t)) of
     Inl _ \<Rightarrow> None | Inr a \<Rightarrow> Some (TokenOutAccount a))"

definition pair_estimate_return :: "bigdecimal \<Rightarrow> token_pair \<Rightarrow> u128 \<Rightarrow> dex_error + u128" where
  "pair_estimate_return B t amount_in =
     pool_estimate_return B (pair_pool t) (pair_in t) amount_in (pair_out t)"

definition pair_id :: "token_pair \<Rightarrow> token_pair_id" where
  "pair_id t = \<lparr>pid_pool = pool_number (pair_pool t), pid_in = pair_in t, pid_out = pair_out t\<rparr>"

definition estimate_normal_return :: "bigdecimal \<Rightarrow> token_pair \<Rightarrow> dex_error + (u128 \<times> u128)" where
  "estimate_normal_return B t =
     rbind (pool_amount (pair_pool t) (in_index (pair_in t))) (\<lambda>balance_in.
       if balance_in = 0 then Inl ZeroAmount
       else let in_value = balance_in div 2
            in rbind (pool_estimate_return B (pair_pool t) (pair_in t) in_value (pair_out t))
                 (\<lambda>out_value. Inr (in_value, out_value)))"

definition validate_length :: "token_pair list \<Rightarrow> dex_error + unit" where
  "validate_length path =
     (if length path > MAX_HOPS then Inl (PathTooLong (length path) MAX_HOPS) else Inr ())"

definition push_unseen :: "'a list \<Rightarrow> 'a \<Rightarrow> 'a list" where
  "push_unseen seen x = (if x \<in> set seen then seen else seen @ [x])"

fun all_tokens_loop :: "token_account list \<Rightarrow> token_pair list \<Rightarrow> token_account list option" where
  "all_tokens_loop seen [] = Some seen"
| "all_tokens_loop seen (t # ts) =
     (case (pair_token_in_id t, pair_token_out_id t) of
        (Some a, Some b) \<Rightarrow>
          all_tokens_loop (push_unseen (push_unseen seen (in_inner a)) (out_inner b)) ts
      | _ \<Rightarrow> None)"

definition all_tokens :: "token_pair list \<Rightarrow> token_account list option" where
  "all_tokens path = all_tokens_loop [] path"

fun calc_value_loop :: "('p \<Rightarrow> u128 \<Rightarrow> 'e + u128) \<Rightarrow> 'p list \<Rightarrow> u128 \<Rightarrow> 'e + u128" where
  "calc_value_loop er [] v = Inr v"
| "calc_value_loop er (t # ts) v =
     rbind (er t v) (\<lambda>v'. if v' = 0 then Inr 0 else calc_value_loop er ts v')"

definition calc_value :: "bigdecimal \<Rightarrow> token_pair list \<Rightarrow> u128 \<Rightarrow> dex_error + u128" where
  "calc_value B path initial =
     (if initial = 0 then Inr 0 else calc_value_loop (pair_estimate_return B) path initial)"

section \<open>The constant-product formula\<close>

text \<open>
  The reference: the integer constant-product formula with the fee taken from the input,
  \<open>f\<close> the part of 10000 that is traded, \<open>x\<close> and \<open>y\<close> the reserves and \<open>a\<close> the input.
\<close>

definition amm_out :: "nat \<Rightarrow> nat \<Rightarrow> nat \<Rightarrow> nat \<Rightarrow> nat" where
  "amm_out f x y a = (a * f * y) div (10000 * x + a * f)"

lemma amm_out_mult: "amm_out f x y a * (10000 * x + a * f) \<le> a * f * y"
  by (simp add: amm_out_def)

lemma amm_out_less: "0 < x \<Longrightarrow> 0 < y \<Longrightarrow> amm_out f x y a < y"
  by (auto simp: amm_out_def less_mult_imp_div_less algebra_simps)

lemma amm_out_mono:
  assumes "0 < x" and "a \<le> b"
  shows "amm_out f x y a \<le> amm_out f x y b"
proof -
  let ?q = "amm_out f x y a"
  have "?q * (10000 * x + a * f) \<le> y * (10000 * x + a * f)"
    using amm_out_mult [of f x y a] by (simp add: algebra_simps)
  then have "?q \<le> y" using assms(1) by simp
  obtain d where b: "b = a + d" using assms(2) le_Suc_ex by blast
  have "?q * (10000 * x + b * f) = ?q * (10000 * x + a * f) + ?q * (d * f)"
    by (simp add: b algebra_simps)
  also have "\<dots> \<le> a * f * y + y * (d * f)"
    using amm_out_mult [of f x y a] \<open>?q \<le> y\<close> by (intro add_mono mult_right_mono) simp_all
  also have "\<dots> = b * f * y" by (simp add: b algebra_simps)
  finally show ?thesis
    using assms(1) unfolding amm_out_def [of f x y b] by (simp add: less_eq_div_iff_mult_less_eq)
qed

text \<open>Without the fee the output is at most proportional to the input.\<close>

lemma amm_out_proportional:
  assumes "f \<le> 10000"
  shows "amm_out f x y a * (x + a) \<le> a * y"
proof (cases "f = 0")
  case True
  then show ?thesis by (simp add: amm_out_def)
next
  case False
  let ?q = "amm_out f x y a"
  have "f * (?q * (x + a)) = ?q * (f * x) + ?q * (a * f)" by (simp add: algebra_simps)
  also have "\<dots> \<le> ?q * (10000 * x) + ?q * (a * f)"
    using assms by (intro add_right_mono mult_left_mono mult_right_mono) simp_all
  also have "\<dots> \<le> f * (a * y)"
    using amm_out_mult [of f x y a] by (simp add: algebra_simps)
  finally show ?thesis using False by simp
qed

lemma amm_out_product:
  assumes "f \<le> 10000" and "0 < x" and "0 < y"
  shows "x * y \<le> (x + a) * (y - amm_out f x y a)"
proof -
  have "x * y + amm_out f x y a * (x + a) \<le> x * y + a * y"
    using amm_out_proportional [OF assms(1)] by simp
  also have "\<dots> = (x + a) * y" by (simp add: algebra_simps)
  finally show ?thesis by (simp add: diff_mult_distrib2 algebra_simps)
qed

lemma amm_out_round_trip:
  assumes "f \<le> 10000" and "g \<le> 10000" and "0 < y"
  shows "amm_out g y x (amm_out f x y a) \<le> a"
proof -
  let ?q = "amm_out f x y a"
  let ?z = "amm_out g y x ?q"
  have "?z * y \<le> ?z * (y + ?q)" by simp
  also have "\<dots> \<le> ?q * x" by (rule amm_out_proportional [OF assms(2)])
  also have "\<dots> \<le> ?q * (x + a)" by simp
  also have "\<dots> \<le> a * y" by (rule amm_out_proportional [OF assms(1)])
  finally show ?thesis using assms(3) by simp
qed

section \<open>The estimate computes the formula\<close>

definition fee_part :: "pool_info \<Rightarrow> nat" where
  "fee_part p = 10000 - unat (total_fee (bare p))"

definition fee_ok :: "pool_info \<Rightarrow> bool" where
  "fee_ok p \<longleftrightarrow> unat (total_fee (bare p)) \<le> 10000"

lemma fee_part_le [simp]: "fee_part p \<le> 10000"
  by (simp add: fee_part_def)

lemma bd_of_fee:
  assumes "fee_ok p"
  shows "bd_of (FEE_DIVISOR - total_fee (bare p)) = of_nat (fee_part p)"
proof -
  have "total_fee (bare p) \<le> FEE_DIVISOR"
    using assms by (simp add: fee_ok_def FEE_DIVISOR_def word_le_nat_alt)
  then show ?thesis
    by (simp add: bd_of_def fee_part_def unat_sub FEE_DIVISOR_def)
qed

lemma amm_denominator_bound:
  fixes x a :: u128
  assumes "f \<le> 10000"
  shows "10000 * unat x + unat a * f < 10 ^ 45"
proof -
  have "unat a * f \<le> unat a * 10000" using assms by simp
  then have "10000 * unat x + unat a * f \<le> 10000 * unat x + 10000 * unat a" by simp
  also have "\<dots> < 10 ^ 45"
    using unat_below [of x] unat_below [of a] by simp
  finally show ?thesis .
qed

lemma pool_estimate_return_formula:
  assumes B: "bigdecimal_spec B" and fee: "fee_ok p" and ne: "in_index i \<noteq> out_index j"
    and x: "pool_amount p (in_index i) = Inr x" "x \<noteq> 0"
    and y: "pool_amount p (out_index j) = Inr y" "y \<noteq> 0" and a: "a \<noteq> 0"
  shows "pool_estimate_return B p i a j = Inr (of_nat (amm_out (fee_part p) (unat x) (unat y) (unat a)))"
proof -
  let ?f = "fee_part p"
  let ?n = "unat a * ?f * unat y" and ?d = "10000 * unat x + unat a * ?f"
  have pos: "0 < unat x" "0 < unat y" "0 < unat a"
    using x y a by (simp_all add: unat_gt_0)
  have "?n div ?d < unat y"
    using amm_out_less [OF pos(1,2)] by (simp add: amm_out_def)
  also have "\<dots> < 2 ^ 128" using unat_below [of y] by simp
  finally have q: "?n div ?d < 2 ^ 128" .
  have "bd_to_u128 B (bd_div B (of_nat ?n) (of_nat ?d)) = Some (of_nat (?n div ?d))"
    by (rule bd_div_to_u128 [OF B _ amm_denominator_bound q]) (use pos in simp_all)
  then have "bd_to_u128 B (bd_div B (bd_of a * of_nat ?f * bd_of y)
      (bd_of FEE_DIVISOR * bd_of x + bd_of a * of_nat ?f)) = Some (of_nat (?n div ?d))"
    by (simp add: bd_of_def FEE_DIVISOR_def)
  moreover have "\<not> (bd_of x \<le> 0 \<or> bd_of y \<le> 0 \<or> bd_of a \<le> 0)"
    using x y a by (simp add: bd_of_le_0_iff)
  ultimately show ?thesis
    using ne x y by (simp add: pool_estimate_return_def bd_of_fee [OF fee] amm_out_def Let_def)
qed

text \<open>A usable pair: it comes from \<^verbatim>\<open>get_pair\<close>, its pool charges at most the whole input,
  and both reserves are positive.\<close>

definition reserve_in :: "token_pair \<Rightarrow> u128" where
  "reserve_in t = amounts (bare (pair_pool t)) ! as_usize (in_index (pair_in t))"

definition reserve_out :: "token_pair \<Rightarrow> u128" where
  "reserve_out t = amounts (bare (pair_pool t)) ! as_usize (out_index (pair_out t))"

definition pair_ok :: "token_pair \<Rightarrow> bool" where
  "pair_ok t \<longleftrightarrow> pool_get_pair (pair_pool t) (pair_in t) (pair_out t) = Inr t \<and>
     fee_ok (pair_pool t) \<and> reserve_in t \<noteq> 0 \<and> reserve_out t \<noteq> 0"

definition pair_amm :: "token_pair \<Rightarrow> nat \<Rightarrow> nat" where
  "pair_amm t a = amm_out (fee_part (pair_pool t)) (unat (reserve_in t)) (unat (reserve_out t)) a"

lemma pool_get_pair_Inr_iff:
  "pool_get_pair p i j = Inr t \<longleftrightarrow>
     t = \<lparr>pair_pool = p, pair_in = i, pair_out = j\<rparr> \<and> in_index i \<noteq> out_index j \<and>
     as_usize (in_index i) < length (token_account_ids (bare p)) \<and>
     as_usize (out_index j) < length (token_account_ids (bare p)) \<and>
     as_usize (in_index i) < length (amounts (bare p)) \<and>
     as_usize (out_index j) < length (amounts (bare p))"
  by (auto simp: pool_get_pair_def pool_len_def Let_def split: if_splits)

lemma pair_ok_amounts:
  assumes "pair_ok t"
  shows "in_index (pair_in t) \<noteq> out_index (pair_out t)"
    and "pool_amount (pair_pool t) (in_index (pair_in t)) = Inr (reserve_in t)"
    and "pool_amount (pair_pool t) (out_index (pair_out t)) = Inr (reserve_out t)"
  using assms
  by (auto simp: pair_ok_def pool_get_pair_Inr_iff pool_amount_def reserve_in_def reserve_out_def
      slice_simps)

lemma pair_estimate_return_ok:
  assumes "bigdecimal_spec B" and "pair_ok t" and "a \<noteq> 0"
  shows "pair_estimate_return B t a = Inr (of_nat (pair_amm t (unat a)))"
  using assms pair_ok_amounts [OF assms(2)] unfolding pair_estimate_return_def pair_amm_def
  by (intro pool_estimate_return_formula) (simp_all add: pair_ok_def)

lemma pair_estimate_return_zero: "pair_ok t \<Longrightarrow> pair_estimate_return B t 0 = Inl ZeroAmount"
  by (simp add: pair_estimate_return_def pool_estimate_return_def pair_ok_amounts bd_of_le_0_iff)

lemma pair_amm_less:
  assumes "pair_ok t"
  shows "pair_amm t a < unat (reserve_out t)"
  using assms unfolding pair_amm_def pair_ok_def
  by (intro amm_out_less) (simp_all add: unat_gt_0)

lemma unat_pair_amm: "pair_ok t \<Longrightarrow> unat (of_nat (pair_amm t a) :: u128) = pair_amm t a"
  using pair_amm_less [of t a] unat_below [of "reserve_out t"] by (simp add: unat_of_nat)

section \<open>The interface of a token pair\<close>

text \<open>
  \<^verbatim>\<open>TokenPairLike\<close>: what the path and swap code relies on. A sound pair names both its
  tokens, refuses a zero amount, estimates every other amount, and never estimates less
  for more input.
\<close>

locale token_pair_like =
  fixes pool_id :: "'p \<Rightarrow> u32"
    and token_in_id :: "'p \<Rightarrow> token_in_account option"
    and token_out_id :: "'p \<Rightarrow> token_out_account option"
    and estimate_return :: "'p \<Rightarrow> u128 \<Rightarrow> dex_error + u128"
    and sound :: "'p \<Rightarrow> bool"
  assumes in_named: "sound p \<Longrightarrow> token_in_id p \<noteq> None"
    and out_named: "sound p \<Longrightarrow> token_out_id p \<noteq> None"
    and zero_refused: "sound p \<Longrightarrow> estimate_return p 0 = Inl ZeroAmount"
    and estimates: "sound p \<Longrightarrow> a \<noteq> 0 \<Longrightarrow> \<exists>v. estimate_return p a = Inr v"
    and mono: "sound p \<Longrightarrow> a \<le> b \<Longrightarrow> estimate_return p a = Inr v \<Longrightarrow>
      estimate_return p b = Inr w \<Longrightarrow> v \<le> w"
begin

lemma calc_value_loop_total:
  "\<forall>p\<in>set ps. sound p \<Longrightarrow> a \<noteq> 0 \<Longrightarrow> \<exists>v. calc_value_loop estimate_return ps a = Inr v"
proof (induction ps arbitrary: a)
  case Nil
  then show ?case by simp
next
  case (Cons p ps)
  then obtain v where "estimate_return p a = Inr v" using estimates by fastforce
  with Cons show ?case by (cases "v = 0") auto
qed

lemma calc_value_loop_mono:
  assumes "\<forall>p\<in>set ps. sound p" and "a \<le> b"
    and "calc_value_loop estimate_return ps a = Inr v"
    and "calc_value_loop estimate_return ps b = Inr w"
  shows "v \<le> w"
  using assms
proof (induction ps arbitrary: a b)
  case Nil
  then show ?case by simp
next
  case (Cons p ps)
  from Cons.prems obtain a' b' where a': "estimate_return p a = Inr a'"
    and b': "estimate_return p b = Inr b'" by (auto simp: rbind_Inr_iff)
  have le: "a' \<le> b'" using mono [of p a b a' b'] a' b' Cons.prems by simp
  show ?case
  proof (cases "a' = 0")
    case True
    with Cons.prems a' show ?thesis by simp
  next
    case False
    with le have "b' \<noteq> 0" by auto
    with False a' b' Cons.prems show ?thesis
      by (intro Cons.IH [of a' b']) (simp_all add: le)
  qed
qed

end

lemma pair_names_ok:
  assumes "pair_ok t"
  shows "pair_token_in_id t \<noteq> None" and "pair_token_out_id t \<noteq> None"
  using assms
  by (auto simp: pair_ok_def pool_get_pair_Inr_iff pair_token_in_id_def pair_token_out_id_def
      pool_token_def get_opt_def)

lemma pair_estimate_return_mono:
  assumes "bigdecimal_spec B" and "pair_ok t" and "a \<le> b"
    and "pair_estimate_return B t a = Inr v" and "pair_estimate_return B t b = Inr w"
  shows "v \<le> w"
proof -
  have "a \<noteq> 0" using assms pair_estimate_return_zero [OF assms(2)] by auto
  moreover then have "b \<noteq> 0" using assms(3) by auto
  ultimately have v: "v = of_nat (pair_amm t (unat a))" and w: "w = of_nat (pair_amm t (unat b))"
    using assms pair_estimate_return_ok by simp_all
  have "pair_amm t (unat a) \<le> pair_amm t (unat b)"
    unfolding pair_amm_def using assms(2,3)
    by (intro amm_out_mono) (simp_all add: pair_ok_def unat_gt_0 word_le_nat_alt)
  then show ?thesis
    by (simp add: v w word_le_nat_alt unat_pair_amm [OF assms(2)])
qed

interpretation token_pair: token_pair_like pair_pool_id pair_token_in_id pair_token_out_id
  "pair_estimate_return B" "\<lambda>t. bigdecimal_spec B \<and> pair_ok t" for B
  by unfold_locales
    (use pair_names_ok pair_estimate_return_zero pair_estimate_return_ok
      pair_estimate_return_mono in blast)+

section \<open>Properties\<close>

text \<open>A pool and its pairs used by the witnesses (the numbers of the crate's own test).\<close>

definition sample_pool :: pool_info where
  "sample_pool = \<lparr>pool_number = 7, bare = \<lparr>pool_kind = ''SIMPLE_POOL'',
     token_account_ids = [TokenAccount ''token_a'', TokenAccount ''wrap.near''],
     amounts = [49821249287591105626851, 5375219608484426244903787070],
     total_fee = 30, shares_total_supply = 0, amp = 0\<rparr>, timestamp = 0\<rparr>"

definition sample_pair :: token_pair where
  "sample_pair = \<lparr>pair_pool = sample_pool, pair_in = TokenIn (TokenIndex 0),
     pair_out = TokenOut (TokenIndex 1)\<rparr>"

definition flip_pair :: "token_pair \<Rightarrow> token_pair" where
  "flip_pair t = \<lparr>pair_pool = pair_pool t, pair_in = TokenIn (out_index (pair_out t)),
     pair_out = TokenOut (in_index (pair_in t))\<rparr>"

lemma flip_pair_ok:
  "pair_ok t \<Longrightarrow> pair_ok (flip_pair t)"
  "reserve_in (flip_pair t) = reserve_out t" "reserve_out (flip_pair t) = reserve_in t"
  "pair_pool (flip_pair t) = pair_pool t"
  by (auto simp: pair_ok_def pool_get_pair_Inr_iff flip_pair_def reserve_in_def reserve_out_def)

lemma sample_pair_ok: "pair_ok sample_pair"
  by (simp add: pair_ok_def pool_get_pair_Inr_iff sample_pair_def sample_pool_def fee_ok_def
      reserve_in_def reserve_out_def)

lemmas sample_simps = sample_pair_def sample_pool_def reserve_in_def reserve_out_def pair_amm_def
  fee_part_def amm_out_def pool_get_pair_Inr_iff fee_ok_def

text \<open>C3. The estimate of every pair that \<^verbatim>\<open>get_pair\<close> hands out, for a pool whose fee is at
  most the whole input: a zero input or an empty reserve is refused, and otherwise the
  result is exactly the integer constant-product formula, although the code computes it
  with rounded decimal division and a truncation.\<close>

theorem estimate_return_exact:
  assumes "bigdecimal_spec B" and "pool_get_pair p i j = Inr t" and "fee_ok p"
  shows "pair_estimate_return B t a =
    (if a = 0 \<or> reserve_in t = 0 \<or> reserve_out t = 0 then Inl ZeroAmount
     else Inr (of_nat ((unat a * fee_part p * unat (reserve_out t)) div
                (10000 * unat (reserve_in t) + unat a * fee_part p))))"
proof -
  have t: "pair_pool t = p" "pool_get_pair (pair_pool t) (pair_in t) (pair_out t) = Inr t"
    using assms(2) by (auto simp: pool_get_pair_Inr_iff)
  have am: "in_index (pair_in t) \<noteq> out_index (pair_out t)"
    "pool_amount (pair_pool t) (in_index (pair_in t)) = Inr (reserve_in t)"
    "pool_amount (pair_pool t) (out_index (pair_out t)) = Inr (reserve_out t)"
    using t(2) by (auto simp: pool_get_pair_Inr_iff pool_amount_def reserve_in_def
        reserve_out_def slice_simps)
  show ?thesis
  proof (cases "a = 0 \<or> reserve_in t = 0 \<or> reserve_out t = 0")
    case True
    then show ?thesis
      using am by (auto simp: pair_estimate_return_def pool_estimate_return_def)
  next
    case False
    then have "pair_ok t" using t assms(3) by (simp add: pair_ok_def)
    from pair_estimate_return_ok [OF assms(1) this, of a] False show ?thesis
      by (simp add: pair_amm_def amm_out_def t(1))
  qed
qed

theorem estimate_return_exact_witness:
  "pool_get_pair sample_pool (TokenIn (TokenIndex 0)) (TokenOut (TokenIndex 1)) = Inr sample_pair \<and>
   pair_estimate_return exact_decimal sample_pair 100 = Inr 10756643"
proof -
  have p: "pool_get_pair sample_pool (TokenIn (TokenIndex 0)) (TokenOut (TokenIndex 1)) = Inr sample_pair"
    by (simp add: sample_simps)
  have f: "fee_ok sample_pool" by (simp add: sample_simps)
  show ?thesis
    using estimate_return_exact [OF exact_decimal_spec p f, of 100] p by (simp add: sample_simps)
qed

text \<open>C16. A swap estimated by the code never empties the pool and never lowers the product
  of its reserves: the estimate is below the outgoing reserve, and after the trade the
  product is at least what it was.\<close>

theorem estimate_return_keeps_product:
  assumes "bigdecimal_spec B" and "pair_ok t" and "pair_estimate_return B t a = Inr v"
  shows "v < reserve_out t \<and>
    unat (reserve_in t) * unat (reserve_out t)
      \<le> (unat (reserve_in t) + unat a) * (unat (reserve_out t) - unat v)"
proof -
  have "a \<noteq> 0" using assms pair_estimate_return_zero by fastforce
  with assms have v: "v = of_nat (pair_amm t (unat a))"
    using pair_estimate_return_ok by simp
  then have u: "unat v = pair_amm t (unat a)" by (simp add: unat_pair_amm [OF assms(2)])
  then have "v < reserve_out t"
    using pair_amm_less [OF assms(2)] by (simp add: word_less_nat_alt)
  moreover have "unat (reserve_in t) * unat (reserve_out t)
      \<le> (unat (reserve_in t) + unat a) * (unat (reserve_out t) - pair_amm t (unat a))"
    using assms(2) unfolding pair_amm_def pair_ok_def
    by (intro amm_out_product) (simp_all add: unat_gt_0)
  ultimately show ?thesis by (simp add: u)
qed

theorem estimate_return_keeps_product_witness:
  "pair_estimate_return exact_decimal sample_pair 100 = Inr 10756643 \<and>
   (10756643 :: u128) < reserve_out sample_pair"
proof -
  have e: "pair_estimate_return exact_decimal sample_pair 100 = Inr 10756643"
    using pair_estimate_return_ok [OF exact_decimal_spec sample_pair_ok, of 100]
    by (simp add: sample_simps)
  show ?thesis
    using estimate_return_keeps_product [OF exact_decimal_spec sample_pair_ok e] e by simp
qed

text \<open>C19. Going through a pool and straight back is never estimated as a gain: the value of
  a two-hop path over the two directions of one pool snapshot is at most its input, so an
  arbitrage that the code reports needs at least two pools.\<close>

theorem no_gain_within_one_pool:
  assumes "bigdecimal_spec B" and "pair_ok t" and "calc_value B [t, flip_pair t] a = Inr v"
  shows "v \<le> a"
proof (cases "a = 0")
  case True
  with assms(3) show ?thesis by (simp add: calc_value_def)
next
  case False
  let ?b = "of_nat (pair_amm t (unat a)) :: u128"
  have b: "pair_estimate_return B t a = Inr ?b"
    by (rule pair_estimate_return_ok [OF assms(1,2) False])
  have ub: "unat ?b = pair_amm t (unat a)" by (rule unat_pair_amm [OF assms(2)])
  show ?thesis
  proof (cases "?b = 0")
    case True
    with assms(3) False b show ?thesis by (simp add: calc_value_def)
  next
    case nz: False
    have ok: "pair_ok (flip_pair t)" by (rule flip_pair_ok(1) [OF assms(2)])
    have "v = of_nat (pair_amm (flip_pair t) (unat ?b))"
      using assms(3) False b nz pair_estimate_return_ok [OF assms(1) ok nz]
      by (simp add: calc_value_def split: if_splits)
    then have "unat v = pair_amm (flip_pair t) (pair_amm t (unat a))"
      by (simp add: unat_pair_amm [OF ok] ub)
    also have "\<dots> \<le> unat a"
      using assms(2) unfolding pair_amm_def flip_pair_ok pair_ok_def
      by (intro amm_out_round_trip) (simp_all add: unat_gt_0)
    finally show ?thesis by (simp add: word_le_nat_alt)
  qed
qed

theorem no_gain_within_one_pool_witness:
  "calc_value exact_decimal [sample_pair, flip_pair sample_pair] 1000 = Inr 994 \<and>
   (994 :: u128) \<le> 1000"
proof -
  have ok: "pair_ok (flip_pair sample_pair)" by (rule flip_pair_ok(1) [OF sample_pair_ok])
  have "pair_estimate_return exact_decimal sample_pair 1000 = Inr 107566430"
    using pair_estimate_return_ok [OF exact_decimal_spec sample_pair_ok, of 1000]
    by (simp add: sample_simps)
  moreover have "pair_estimate_return exact_decimal (flip_pair sample_pair) 107566430 = Inr 994"
    using pair_estimate_return_ok [OF exact_decimal_spec ok, of 107566430]
    by (simp add: sample_simps flip_pair_def)
  ultimately have "calc_value exact_decimal [sample_pair, flip_pair sample_pair] 1000 = Inr 994"
    by (simp add: calc_value_def)
  then show ?thesis
    using no_gain_within_one_pool [OF exact_decimal_spec sample_pair_ok] by blast
qed

text \<open>On a path of usable pairs the value is defined for every input (no error branch is
  reached) and it never decreases when the input grows.\<close>

theorem calc_value_total_mono:
  assumes "bigdecimal_spec B" and "\<forall>t\<in>set path. pair_ok t" and "a \<le> b"
  shows "\<exists>v w. calc_value B path a = Inr v \<and> calc_value B path b = Inr w \<and> v \<le> w"
proof -
  have total: "\<exists>v. calc_value B path c = Inr v" for c
    using token_pair.calc_value_loop_total [of path B c] assms(1,2)
    by (cases "c = 0") (simp_all add: calc_value_def)
  then obtain v w where vw: "calc_value B path a = Inr v" "calc_value B path b = Inr w"
    by blast
  have "v \<le> w"
  proof (cases "a = 0")
    case True
    with vw show ?thesis by (simp add: calc_value_def)
  next
    case False
    with assms(3) have "b \<noteq> 0" by auto
    with False vw assms show ?thesis
      using token_pair.calc_value_loop_mono [of path B a b v w] by (simp add: calc_value_def)
  qed
  with vw show ?thesis by blast
qed

theorem calc_value_total_mono_witness:
  "\<exists>v w. calc_value exact_decimal [sample_pair] 100 = Inr v \<and>
     calc_value exact_decimal [sample_pair] 200 = Inr w \<and> v \<le> w"
proof -
  have "\<forall>t\<in>set [sample_pair]. pair_ok t" by (simp add: sample_pair_ok)
  from calc_value_total_mono [OF exact_decimal_spec this, of 100 200] show ?thesis by simp
qed

lemma fold_by_id:
  "fold (\<lambda>p m. m(pool_number p \<mapsto> p)) src m n =
     (case filter (\<lambda>p. pool_number p = n) src of [] \<Rightarrow> m n | p # ps \<Rightarrow> Some (last (p # ps)))"
proof (induction src arbitrary: m)
  case Nil
  then show ?case by simp
next
  case (Cons q src)
  then show ?case by (auto split: list.split)
qed

text \<open>Building the pool list keeps every pool, orders them by number, and indexes them
  so that a lookup finds the last pool given with that number and fails exactly when there
  is none.\<close>

theorem pool_list_index:
  "mset (pool_list (pool_info_list_new src)) = mset src \<and>
   sorted (map pool_number (pool_list (pool_info_list_new src))) \<and>
   pools_get (pool_info_list_new src) n =
     (case filter (\<lambda>p. pool_number p = n) src of
        [] \<Rightarrow> Inl (OutOfIndexOfPools n) | p # ps \<Rightarrow> Inr (last (p # ps)))"
proof -
  have "pools_get (pool_info_list_new src) n =
     (case filter (\<lambda>p. pool_number p = n) src of
        [] \<Rightarrow> Inl (OutOfIndexOfPools n) | p # ps \<Rightarrow> Inr (last (p # ps)))"
    by (simp add: pools_get_def pool_info_list_new_def fold_by_id split: list.split)
  moreover have "mset (pool_list (pool_info_list_new src)) = mset src"
    "sorted (map pool_number (pool_list (pool_info_list_new src)))"
    by (simp_all add: pool_info_list_new_def)
  ultimately show ?thesis by blast
qed

lemma filter_unique:
  "distinct (map pool_number src) \<Longrightarrow> p \<in> set src \<Longrightarrow>
     filter (\<lambda>q. pool_number q = pool_number p) src = [p]"
proof (induction src)
  case Nil
  then show ?case by simp
next
  case (Cons q src)
  show ?case
  proof (cases "p \<in> set src")
    case True
    with Cons.prems(1) have "pool_number q \<noteq> pool_number p" by force
    with Cons True show ?thesis by simp
  next
    case False
    with Cons.prems(2) have q: "q = p" by simp
    with Cons.prems(1) have "\<forall>r\<in>set src. pool_number r \<noteq> pool_number p"
      by (auto simp: image_iff)
    with q show ?thesis by (simp add: filter_empty_conv)
  qed
qed

text \<open>The identifier of a pair leads back to it: in a list of pools with distinct numbers
  the pair that \<^verbatim>\<open>get_pair\<close> makes of a listed pool is the pair its identifier resolves to.\<close>

theorem pair_id_round_trip:
  assumes "distinct (map pool_number src)" and "p \<in> set src" and "pool_get_pair p i j = Inr t"
  shows "pools_get_pair (pool_info_list_new src) (pair_id t) = Inr t"
proof -
  have t: "pair_pool t = p" "pair_in t = i" "pair_out t = j"
    using assms(3) by (simp_all add: pool_get_pair_Inr_iff)
  have "pools_get (pool_info_list_new src) (pool_number p) = Inr p"
    by (simp add: pools_get_def pool_info_list_new_def fold_by_id filter_unique [OF assms(1,2)])
  with assms(3) t show ?thesis by (simp add: pools_get_pair_def pair_id_def)
qed

theorem pair_id_round_trip_witness:
  "pools_get_pair (pool_info_list_new [sample_pool\<lparr>pool_number := 9\<rparr>, sample_pool])
     (pair_id sample_pair) = Inr sample_pair"
  by (rule pair_id_round_trip
      [where p = sample_pool and i = "TokenIn (TokenIndex 0)" and j = "TokenOut (TokenIndex 1)"])
    (simp_all add: sample_simps)

section \<open>Tokens of a path\<close>

lemma set_push_unseen [simp]: "set (push_unseen xs x) = insert x (set xs)"
  by (auto simp: push_unseen_def)

lemma distinct_push_unseen [simp]: "distinct (push_unseen xs x) \<longleftrightarrow> distinct xs"
  by (auto simp: push_unseen_def)

lemma length_push_unseen: "length (push_unseen xs x) \<le> Suc (length xs)"
  by (simp add: push_unseen_def)

lemma push_unseen_id: "x \<in> set xs \<Longrightarrow> push_unseen xs x = xs"
  by (simp add: push_unseen_def)

definition pair_tokens :: "token_pair \<Rightarrow> token_account set" where
  "pair_tokens t = {a. pair_token_in_id t = Some (TokenInAccount a) \<or>
     pair_token_out_id t = Some (TokenOutAccount a)}"

text \<open>Each hop starts at the token where the previous one ended.\<close>

fun connected :: "token_account \<Rightarrow> token_pair list \<Rightarrow> bool" where
  "connected a [] = True"
| "connected a (t # ts) = (pair_token_in_id t = Some (TokenInAccount a) \<and>
     (\<exists>b. pair_token_out_id t = Some (TokenOutAccount b) \<and> connected b ts))"

lemma pair_ok_named:
  assumes "pair_ok t"
  obtains a b where "pair_token_in_id t = Some (TokenInAccount a)"
    "pair_token_out_id t = Some (TokenOutAccount b)" "pair_tokens t = {a, b}"
  using pair_names_ok [OF assms]
  by (cases "the (pair_token_in_id t)"; cases "the (pair_token_out_id t)")
    (force simp: pair_tokens_def)

lemma all_tokens_loop_ok:
  assumes "\<forall>t\<in>set ts. pair_ok t" and "distinct seen"
  shows "\<exists>r. all_tokens_loop seen ts = Some r \<and> distinct r \<and>
    set r = set seen \<union> (\<Union>t\<in>set ts. pair_tokens t) \<and>
    (\<forall>a\<in>set seen. connected a ts \<longrightarrow> length r \<le> length seen + length ts)"
  using assms
proof (induction ts arbitrary: seen)
  case Nil
  then show ?case by simp
next
  case (Cons t ts)
  then have "pair_ok t" by simp
  then obtain a b where t: "pair_token_in_id t = Some (TokenInAccount a)"
    "pair_token_out_id t = Some (TokenOutAccount b)" "pair_tokens t = {a, b}"
    by (rule pair_ok_named)
  let ?s = "push_unseen (push_unseen seen a) b"
  from Cons.IH [of ?s] Cons.prems obtain r where r: "all_tokens_loop ?s ts = Some r" "distinct r"
    "set r = set ?s \<union> (\<Union>t\<in>set ts. pair_tokens t)"
    "\<forall>a\<in>set ?s. connected a ts \<longrightarrow> length r \<le> length ?s + length ts"
    by auto
  have "length r \<le> length seen + length (t # ts)"
    if "c \<in> set seen" "connected c (t # ts)" for c
  proof -
    from that t have "a \<in> set seen" "connected b ts" by auto
    then show ?thesis
      using r(4) length_push_unseen [of seen b] by (force simp: push_unseen_id)
  qed
  with r t show ?case by auto
qed

text \<open>The tokens whose storage is prepared for a path: no panic, no duplicates, exactly
  the tokens the path's pairs trade, and at most one more than the number of hops when the
  hops connect (the bound its documentation states).\<close>

theorem all_tokens_of_path:
  assumes "\<forall>t\<in>set path. pair_ok t"
  shows "\<exists>ts. all_tokens path = Some ts \<and> distinct ts \<and>
    set ts = (\<Union>t\<in>set path. pair_tokens t) \<and>
    (connected a path \<longrightarrow> length ts \<le> length path + 1)"
proof (cases path)
  case Nil
  then show ?thesis by (simp add: all_tokens_def)
next
  case (Cons t ts)
  from assms Cons have "pair_ok t" by simp
  then obtain b c where t: "pair_token_in_id t = Some (TokenInAccount b)"
    "pair_token_out_id t = Some (TokenOutAccount c)" "pair_tokens t = {b, c}"
    by (rule pair_ok_named)
  let ?s = "push_unseen [b] c"
  obtain r where r: "all_tokens_loop ?s ts = Some r" "distinct r"
    "set r = set ?s \<union> (\<Union>t\<in>set ts. pair_tokens t)"
    "\<forall>a\<in>set ?s. connected a ts \<longrightarrow> length r \<le> length ?s + length ts"
    using all_tokens_loop_ok [of ts ?s] assms Cons by auto
  have "length ?s \<le> 2" using length_push_unseen [of "[b]" c] by simp
  with r t show ?thesis
    by (force simp: all_tokens_def Cons push_unseen_def split: if_splits)
qed

theorem all_tokens_of_path_witness:
  "all_tokens [sample_pair, flip_pair sample_pair]
     = Some [TokenAccount ''token_a'', TokenAccount ''wrap.near''] \<and>
   (\<exists>ts. all_tokens [sample_pair, flip_pair sample_pair] = Some ts \<and> distinct ts)"
proof -
  have "\<forall>t\<in>set [sample_pair, flip_pair sample_pair]. pair_ok t"
    by (simp add: sample_pair_ok flip_pair_ok(1))
  from all_tokens_of_path [OF this, of "TokenAccount ''token_a''"]
  show ?thesis
    by (auto simp: all_tokens_def push_unseen_def pair_token_in_id_def pair_token_out_id_def
        pool_token_def get_opt_def flip_pair_def sample_pair_def sample_pool_def)
qed

end
