(* ===== verification/Storage_Planner.thy ===== *)
theory Storage_Planner
  imports Prelude Ordered_Map
begin

text \<open>
  \<^verbatim>\<open>ref_finance/storage/planner.rs\<close>: the pure planner of the storage an account needs on
  the exchange contract. A panic of the source (\<^verbatim>\<open>expect\<close> on a missing value, division by
  zero) is the outer \<open>None\<close>.
\<close>

section \<open>Data\<close>

record storage_balance_bounds =
  bounds_min :: u128
  bounds_max :: "u128 option"

record storage_balance =
  total :: u128
  available :: u128

record storage_snapshot =
  snap_balance :: storage_balance
  snap_deposits :: "(token_account, u128) btree_map"
  snap_bounds :: storage_balance_bounds

datatype plan =
    InitialRegister (to_register: "token_account list")
  | Normal (to_unregister: "token_account list") (to_register: "token_account list")
      (pre_unregister_estimate: u128)

datatype plan_error =
    ArithmeticOverflow
  | TooManyTokens nat nat

definition SAFETY_MARGIN_NUMERATOR :: u128 where "SAFETY_MARGIN_NUMERATOR = 11"
definition SAFETY_MARGIN_DENOMINATOR :: u128 where "SAFETY_MARGIN_DENOMINATOR = 10"
definition MAX_REGISTER_PER_CYCLE :: nat where "MAX_REGISTER_PER_CYCLE = 100"

section \<open>The planner\<close>

text \<open>\<^verbatim>\<open>usize::try_from(q).unwrap_or(usize::MAX)\<close> on a 64-bit target.\<close>

definition usize_saturate :: "u128 \<Rightarrow> nat" where
  "usize_saturate q = min (unat q) (2 ^ 64 - 1)"

definition div_ceil_panic :: "u128 \<Rightarrow> u128 \<Rightarrow> u128 option" where
  "div_ceil_panic a b = (if b = 0 then None else Some (div_ceil a b))"

text \<open>\<open>plan_shortage\<close> is the end of \<^verbatim>\<open>plan\<close>, after the early return for a sufficient
  balance.\<close>

definition plan_shortage :: "storage_snapshot \<Rightarrow> token_account list \<Rightarrow> token_account list \<Rightarrow>
    token_account list \<Rightarrow> u128 \<Rightarrow> u128 \<Rightarrow> (plan_error + plan) option" where
  "plan_shortage snapshot requested keep to_reg per_token needed =
     Option.bind (checked_sub needed (available (snap_balance snapshot))) (\<lambda>shortage.
       let candidates = map fst (filter (\<lambda>(token, amount).
             amount = 0 \<and> token \<notin> set keep \<and> token \<notin> set requested) (snap_deposits snapshot))
       in Option.bind (div_ceil_panic shortage per_token) (\<lambda>q.
            Some (Inr (Normal (take (usize_saturate q) candidates) to_reg needed))))"

definition plan_per_token :: "storage_snapshot \<Rightarrow> u128 \<Rightarrow> u128 option" where
  "plan_per_token snapshot used =
     (let min_bound = bounds_min (snap_bounds snapshot);
          usable = saturating_sub used min_bound
      in map_option (\<lambda>c. max c min_bound)
           (div_ceil_panic usable (of_nat (length (snap_deposits snapshot)))))"

definition plan :: "storage_snapshot \<Rightarrow> token_account list \<Rightarrow> token_account list \<Rightarrow>
    (plan_error + plan) option" where
  "plan snapshot requested keep =
     (let deposits = snap_deposits snapshot; bal = snap_balance snapshot in
      if deposits = [] then
        Some (if length requested > MAX_REGISTER_PER_CYCLE
              then Inl (TooManyTokens (length requested) MAX_REGISTER_PER_CYCLE)
              else Inr (InitialRegister requested))
      else case checked_sub (total bal) (available bal) of
        None \<Rightarrow> Some (Inl ArithmeticOverflow)
      | Some used \<Rightarrow> Option.bind (plan_per_token snapshot used) (\<lambda>per_token.
          let to_reg = filter (\<lambda>token. map_of deposits token = None) requested in
          if length to_reg > MAX_REGISTER_PER_CYCLE
          then Some (Inl (TooManyTokens (length to_reg) MAX_REGISTER_PER_CYCLE))
          else case checked_mul per_token (of_nat (length to_reg)) of
            None \<Rightarrow> Some (Inl ArithmeticOverflow)
          | Some needed_raw \<Rightarrow> (case checked_mul needed_raw SAFETY_MARGIN_NUMERATOR of
              None \<Rightarrow> Some (Inl ArithmeticOverflow)
            | Some scaled \<Rightarrow> Option.bind (div_ceil_panic scaled SAFETY_MARGIN_DENOMINATOR) (\<lambda>needed.
                if needed \<le> available bal then Some (Inr (Normal [] to_reg needed))
                else plan_shortage snapshot requested keep to_reg per_token needed))))"

section \<open>The specification\<close>

text \<open>
  What the planner promises, on natural numbers: the cost of one registration is the
  average cost of the current ones, rounded up and never below the contract's minimum; the
  estimate adds ten percent, rounded up.
\<close>

definition unit_cost :: "storage_snapshot \<Rightarrow> nat" where
  "unit_cost s = max
     (nat_ceil_div (unat (total (snap_balance s)) - unat (available (snap_balance s)) -
        unat (bounds_min (snap_bounds s))) (length (snap_deposits s)))
     (unat (bounds_min (snap_bounds s)))"

definition missing :: "storage_snapshot \<Rightarrow> token_account list \<Rightarrow> token_account list" where
  "missing s requested = filter (\<lambda>token. token \<notin> dom (map_of (snap_deposits s))) requested"

definition estimate :: "storage_snapshot \<Rightarrow> token_account list \<Rightarrow> nat" where
  "estimate s requested = nat_ceil_div (unit_cost s * length (missing s requested) * 11) 10"

definition removable :: "storage_snapshot \<Rightarrow> token_account list \<Rightarrow> token_account list \<Rightarrow>
    token_account list" where
  "removable s requested keep = map fst (filter (\<lambda>(token, amount).
     amount = 0 \<and> token \<notin> set keep \<union> set requested) (snap_deposits s))"

text \<open>The snapshot as the code builds it: an ordered map whose size fits a \<^verbatim>\<open>usize\<close>.\<close>

definition snapshot_ok :: "storage_snapshot \<Rightarrow> bool" where
  "snapshot_ok s \<longleftrightarrow> btree_invar (snap_deposits s) \<and> length (snap_deposits s) < 2 ^ 64"

definition plan_spec :: "storage_snapshot \<Rightarrow> token_account list \<Rightarrow> token_account list \<Rightarrow>
    plan_error + plan" where
  "plan_spec s requested keep =
     (let bal = snap_balance s; reg = missing s requested; est = estimate s requested in
      if length reg > 100 \<and> (snap_deposits s = [] \<or> available bal \<le> total bal)
      then Inl (TooManyTokens (length reg) 100)
      else if snap_deposits s = [] then Inr (InitialRegister requested)
      else if total bal < available bal \<or> 2 ^ 128 \<le> unit_cost s * length reg * 11
      then Inl ArithmeticOverflow
      else Inr (Normal
        (take (min (nat_ceil_div (est - unat (available bal)) (unit_cost s)) (2 ^ 64 - 1))
           (removable s requested keep)) reg (of_nat est)))"

section \<open>The planner meets its specification\<close>

lemma unat_of_nat_small: "n < 2 ^ 64 \<Longrightarrow> unat (of_nat n :: u128) = n"
  by (simp add: unat_of_nat)

lemma unat_max [u128_simps]: "unat (max a b) = max (unat a) (unat b)"
  by (auto simp: max_def word_le_nat_alt)

lemma div_ceil_panic_Some:
  "0 < unat b \<Longrightarrow> \<exists>q. div_ceil_panic a b = Some q \<and> unat q = nat_ceil_div (unat a) (unat b)"
  by (auto simp: div_ceil_panic_def unat_div_ceil)

lemma plan_per_token_spec:
  assumes "snapshot_ok s" and "snap_deposits s \<noteq> []"
    and "unat used = unat (total (snap_balance s)) - unat (available (snap_balance s))"
  shows "\<exists>c. plan_per_token s used = Some c \<and> unat c = unit_cost s"
proof -
  let ?n = "of_nat (length (snap_deposits s)) :: u128"
  have n: "unat ?n = length (snap_deposits s)"
    using assms(1) by (intro unat_of_nat_small) (simp add: snapshot_ok_def)
  then have "0 < unat ?n" using assms(2) by simp
  from div_ceil_panic_Some [OF this, of "saturating_sub used (bounds_min (snap_bounds s))"] n
  obtain q where "div_ceil_panic (saturating_sub used (bounds_min (snap_bounds s))) ?n = Some q"
    "unat q = nat_ceil_div (unat used - unat (bounds_min (snap_bounds s))) (length (snap_deposits s))"
    by (auto simp: u128_simps)
  then show ?thesis
    by (simp add: plan_per_token_def Let_def unit_cost_def u128_simps assms(3))
qed

lemma missing_filter:
  "filter (\<lambda>token. map_of (snap_deposits s) token = None) requested = missing s requested"
  by (auto simp: missing_def domIff)

lemma removable_filter:
  "map fst (filter (\<lambda>(token, amount). amount = 0 \<and> token \<notin> set keep \<and> token \<notin> set requested)
     (snap_deposits s)) = removable s requested keep"
  by (simp add: removable_def case_prod_unfold)

lemma plan_shortage_spec:
  assumes "unat needed = n" "unat per_token = c" "0 < c"
    and "available (snap_balance s) < needed"
  shows "plan_shortage s requested keep reg per_token needed = Some (Inr (Normal
    (take (min (nat_ceil_div (n - unat (available (snap_balance s))) c) (2 ^ 64 - 1))
       (removable s requested keep)) reg needed))"
proof -
  obtain sh where sh: "checked_sub needed (available (snap_balance s)) = Some sh"
    using assms(4) by (cases "checked_sub needed (available (snap_balance s))")
      (auto simp: checked_sub_None_iff word_less_nat_alt)
  then have "unat sh = n - unat (available (snap_balance s))"
    using assms(1) by (simp add: checked_sub_Some_iff)
  moreover obtain q where "div_ceil_panic sh per_token = Some q"
    "unat q = nat_ceil_div (unat sh) (unat per_token)"
    using div_ceil_panic_Some [of per_token sh] assms(2,3) by auto
  ultimately show ?thesis
    using sh by (simp add: plan_shortage_def removable_filter usize_saturate_def assms(2))
qed

lemma plan_empty_deposits:
  assumes "snap_deposits s = []"
  shows "plan s requested keep = Some (plan_spec s requested keep)"
  using assms by (simp add: plan_def plan_spec_def missing_def MAX_REGISTER_PER_CYCLE_def)

lemma plan_refines_spec:
  assumes ok: "snapshot_ok s"
  shows "plan s requested keep = Some (plan_spec s requested keep)"
proof (cases "snap_deposits s = []")
  case True
  then show ?thesis by (rule plan_empty_deposits)
next
  case ne: False
  let ?bal = "snap_balance s" and ?reg = "missing s requested"
  let ?m = "unit_cost s * length ?reg"
  note plan = plan_def plan_spec_def Let_def missing_filter MAX_REGISTER_PER_CYCLE_def ne
  show ?thesis
  proof (cases "available ?bal \<le> total ?bal")
    case False
    then have "checked_sub (total ?bal) (available ?bal) = None"
      by (simp add: checked_sub_def)
    with False show ?thesis by (simp add: plan not_le)
  next
    case le: True
    then obtain used where used: "checked_sub (total ?bal) (available ?bal) = Some used"
      "unat used = unat (total ?bal) - unat (available ?bal)"
      by (auto simp: checked_sub_def word_le_nat_alt unat_sub)
    obtain c where c: "plan_per_token s used = Some c" "unat c = unit_cost s"
      using plan_per_token_spec [OF ok ne used(2)] by blast
    show ?thesis
    proof (cases "length ?reg > 100")
      case True
      with le used c show ?thesis by (simp add: plan)
    next
      case few: False
      then have n: "unat (of_nat (length ?reg) :: u128) = length ?reg"
        by (intro unat_of_nat_small) simp
      show ?thesis
      proof (cases "2 ^ 128 \<le> ?m * 11")
        case True
        then have "checked_mul c (of_nat (length ?reg)) = None \<or>
          (\<exists>r. checked_mul c (of_nat (length ?reg)) = Some r \<and> checked_mul r 11 = None)"
          by (cases "checked_mul c (of_nat (length ?reg))")
            (auto simp: checked_mul_None_iff checked_mul_Some_iff c n)
        with True few le used c show ?thesis
          by (auto simp: plan SAFETY_MARGIN_NUMERATOR_def)
      next
        case False
        then obtain r where r: "checked_mul c (of_nat (length ?reg)) = Some r" "unat r = ?m"
          by (cases "checked_mul c (of_nat (length ?reg))")
            (auto simp: checked_mul_None_iff checked_mul_Some_iff c n)
        from False r(2) obtain k where k: "checked_mul r 11 = Some k" "unat k = ?m * 11"
          by (cases "checked_mul r 11") (auto simp: checked_mul_None_iff checked_mul_Some_iff)
        obtain needed where nd: "div_ceil_panic k 10 = Some needed"
          "unat needed = estimate s requested"
          using div_ceil_panic_Some [of 10 k] k(2) by (auto simp: estimate_def)
        have nd': "needed = of_nat (estimate s requested)"
          by (simp flip: nd(2))
        show ?thesis
        proof (cases "needed \<le> available ?bal")
          case True
          then have "estimate s requested \<le> unat (available ?bal)"
            using nd(2) by (simp add: word_le_nat_alt)
          with True False few le used c r k nd nd' show ?thesis
            by (simp add: plan SAFETY_MARGIN_NUMERATOR_def SAFETY_MARGIN_DENOMINATOR_def)
        next
          case short: False
          then have "0 < unit_cost s"
            using nd(2) by (cases "unit_cost s") (auto simp: estimate_def word_le_nat_alt)
          from plan_shortage_spec [OF nd(2) c(2) this] short
          have "plan_shortage s requested keep ?reg c needed = Some (Inr (Normal
            (take (min (nat_ceil_div (estimate s requested - unat (available ?bal)) (unit_cost s))
              (2 ^ 64 - 1)) (removable s requested keep)) ?reg needed))" by simp
          with short False few le used c r k nd nd' show ?thesis
            by (simp add: plan SAFETY_MARGIN_NUMERATOR_def SAFETY_MARGIN_DENOMINATOR_def)
        qed
      qed
    qed
  qed
qed

lemma removable_length: "length (removable s requested keep) \<le> length (snap_deposits s)"
  by (simp add: removable_def)

lemma removable_props:
  assumes "snapshot_ok s"
  shows "distinct (removable s requested keep)"
    and "t \<in> set (removable s requested keep) \<Longrightarrow>
      map_of (snap_deposits s) t = Some 0 \<and> t \<notin> set keep \<and> t \<notin> set requested"
proof -
  have d: "distinct (map fst (snap_deposits s))"
    using assms by (simp add: snapshot_ok_def btree.entries_distinct)
  then show "distinct (removable s requested keep)"
    by (simp add: removable_def distinct_map_filter)
  from d show "t \<in> set (removable s requested keep) \<Longrightarrow>
      map_of (snap_deposits s) t = Some 0 \<and> t \<notin> set keep \<and> t \<notin> set requested"
    by (auto simp: removable_def)
qed

text \<open>The cap by \<^verbatim>\<open>usize::MAX\<close> never bites: there are fewer candidates.\<close>

lemma take_usize_max:
  "snapshot_ok s \<Longrightarrow> take (min n (2 ^ 64 - 1)) (removable s requested keep) =
     take n (removable s requested keep)"
  using removable_length [of s requested keep] by (auto simp: snapshot_ok_def min_def)

lemma plan_Normal_iff:
  assumes "snapshot_ok s"
  shows "plan s requested keep = Some (Inr (Normal U R e)) \<longleftrightarrow>
    snap_deposits s \<noteq> [] \<and> R = missing s requested \<and> length R \<le> 100 \<and>
    available (snap_balance s) \<le> total (snap_balance s) \<and>
    unit_cost s * length R * 11 < 2 ^ 128 \<and> e = of_nat (estimate s requested) \<and>
    U = take (nat_ceil_div (estimate s requested - unat (available (snap_balance s))) (unit_cost s))
          (removable s requested keep)"
  unfolding plan_refines_spec [OF assms] plan_spec_def Let_def take_usize_max [OF assms]
  by auto

lemma unat_estimate:
  "unit_cost s * length (missing s requested) * 11 < 2 ^ 128 \<Longrightarrow>
    unat (of_nat (estimate s requested) :: u128) = estimate s requested"
  using nat_ceil_div_bounds [of 10 "unit_cost s * length (missing s requested) * 11"]
  by (simp add: estimate_def unat_of_nat)

section \<open>Properties of the planner\<close>

definition sample_snapshot :: storage_snapshot where
  "sample_snapshot =
     \<lparr>snap_balance = \<lparr>total = 100, available = 10\<rparr>,
      snap_deposits = [(TokenAccount ''a'', 0), (TokenAccount ''b'', 7), (TokenAccount ''c'', 0),
        (TokenAccount ''d'', 0)],
      snap_bounds = \<lparr>bounds_min = 10, bounds_max = None\<rparr>\<rparr>"

lemma sample_snapshot_ok: "snapshot_ok sample_snapshot"
  by (simp add: snapshot_ok_def sample_snapshot_def btree_invar_def less_token_account_def
      less_list_code)

lemma sample_snapshot_plan:
  "plan sample_snapshot [TokenAccount ''e'', TokenAccount ''b''] [TokenAccount ''a''] =
     Some (Inr (Normal [TokenAccount ''c''] [TokenAccount ''e''] 22))"
  by (simp add: plan_def plan_shortage_def plan_per_token_def sample_snapshot_def Let_def
      checked_sub_def checked_mul_def div_ceil_panic_def div_ceil_def saturating_sub_def
      MAX_REGISTER_PER_CYCLE_def SAFETY_MARGIN_NUMERATOR_def SAFETY_MARGIN_DENOMINATOR_def
      usize_saturate_def max_def)

text \<open>
  C7. On a snapshot as the code builds it the planner never panics and its answer is the
  specified one: which of the two errors, an initial registration of the requested tokens,
  or a normal plan with the documented per-token cost, safety margin and unregister set.
\<close>

theorem plan_meets_spec:
  assumes "snapshot_ok s"
  shows "plan s requested keep = Some (plan_spec s requested keep)"
  using assms by (rule plan_refines_spec)

theorem plan_meets_spec_witness:
  "plan sample_snapshot [TokenAccount ''e''] [] =
     Some (plan_spec sample_snapshot [TokenAccount ''e''] [])"
  by (rule plan_meets_spec [OF sample_snapshot_ok])

text \<open>
  C14. A normal plan is safe: it registers exactly the requested tokens that are not yet
  registered, at most one hundred; what it unregisters is registered with a zero balance,
  is neither protected nor requested, and is named once.
\<close>

theorem plan_is_safe:
  assumes "snapshot_ok s" and "plan s requested keep = Some (Inr (Normal U R e))"
  shows "R = filter (\<lambda>t. map_of (snap_deposits s) t = None) requested \<and>
    length R \<le> 100 \<and> distinct U \<and>
    set U \<subseteq> {t. map_of (snap_deposits s) t = Some 0 \<and> t \<notin> set keep \<and> t \<notin> set requested}"
  using plan_Normal_iff [OF assms(1), of requested keep U R e] assms(2)
    removable_props [OF assms(1), where requested = requested and keep = keep]
  by (auto simp: missing_filter distinct_take dest: in_set_takeD)

theorem plan_is_safe_witness:
  "set [TokenAccount ''c''] \<subseteq> {t. map_of (snap_deposits sample_snapshot) t = Some 0 \<and>
     t \<notin> set [TokenAccount ''a''] \<and> t \<notin> set [TokenAccount ''e'', TokenAccount ''b'']}"
  using plan_is_safe [OF sample_snapshot_ok sample_snapshot_plan] by blast

lemma plan_shortage_facts:
  assumes "snapshot_ok s" and "plan s requested keep = Some (Inr (Normal U R e))"
  shows "11 * (unit_cost s * length R) \<le> 10 * unat e"
    and "10 * unat e < 11 * (unit_cost s * length R) + 10"
    and "U = removable s requested keep \<or>
      unat e \<le> unat (available (snap_balance s)) + unit_cost s * length U"
    and "U \<noteq> [] \<longrightarrow> unat (available (snap_balance s)) + unit_cost s * (length U - 1) < unat e"
proof -
  let ?av = "unat (available (snap_balance s))" and ?c = "unit_cost s"
  note n = iffD1 [OF plan_Normal_iff [OF assms(1)] assms(2)]
  then have e: "unat e = estimate s requested" using unat_estimate by auto
  from n have R: "R = missing s requested" by simp
  show "11 * (?c * length R) \<le> 10 * unat e" "10 * unat e < 11 * (?c * length R) + 10"
    using nat_ceil_div_bounds [of 10 "?c * length R * 11"] by (simp_all add: e R estimate_def)
  let ?k = "nat_ceil_div (unat e - ?av) ?c"
  have U: "U = take ?k (removable s requested keep)" using n e by simp
  have c0: "?c = 0 \<Longrightarrow> unat e = 0" by (simp add: e estimate_def nat_ceil_div_zero)
  have k: "unat e - ?av \<le> ?c * ?k" "?c * ?k < unat e - ?av + ?c" if "0 < ?c"
    using nat_ceil_div_bounds [OF that, of "unat e - ?av"] by simp_all
  show "U = removable s requested keep \<or> unat e \<le> ?av + ?c * length U"
  proof (cases "0 < ?c \<and> ?k \<le> length (removable s requested keep)")
    case True
    then have "length U = ?k" using U by simp
    with k(1) True have "unat e - ?av \<le> ?c * length U" by simp
    then show ?thesis by linarith
  next
    case False
    then show ?thesis using U c0 by auto
  qed
  show "U \<noteq> [] \<longrightarrow> ?av + ?c * (length U - 1) < unat e"
  proof
    assume "U \<noteq> []"
    then have len: "0 < length U" "length U \<le> ?k" and k0: "0 < ?k" using U by auto
    then have c: "0 < ?c" and gap: "?av < unat e"
      using c0 by (cases "?c"; cases "?av < unat e"; auto simp: nat_ceil_div_zero)+
    have "?c * (length U - 1) \<le> ?c * (?k - 1)" using len by (intro mult_le_mono2) simp
    also have "\<dots> = ?c * ?k - ?c" by (simp add: diff_mult_distrib2)
    also have "\<dots> < unat e - ?av" using k(2) [OF c] gap by linarith
    finally show "?av + ?c * (length U - 1) < unat e" using gap by linarith
  qed
qed

text \<open>
  The estimate of a normal plan covers the registrations at the unit cost with a ten
  percent margin and exceeds it by less than one yocto. The tokens it unregisters, valued
  at the unit cost, close the gap between the available balance and the estimate unless
  every removable token is unregistered, and no smaller number of them would.
\<close>

theorem plan_covers_shortage:
  assumes "snapshot_ok s" and "plan s requested keep = Some (Inr (Normal U R e))"
  shows "11 * (unit_cost s * length R) \<le> 10 * unat e \<and>
    10 * unat e < 11 * (unit_cost s * length R) + 10 \<and>
    (U = removable s requested keep \<or>
      unat e \<le> unat (available (snap_balance s)) + unit_cost s * length U) \<and>
    (U \<noteq> [] \<longrightarrow> unat (available (snap_balance s)) + unit_cost s * (length U - 1) < unat e)"
  using plan_shortage_facts [OF assms] by blast

theorem plan_covers_shortage_witness:
  "10 * unat (22 :: u128) < 11 * (unit_cost sample_snapshot * length [TokenAccount ''e'']) + 10"
  using plan_covers_shortage [OF sample_snapshot_ok sample_snapshot_plan] by blast

end
