(* ===== verification/Effects.thy ===== *)
theory Effects
  imports Prelude Ordered_Map Dex Storage_Planner
begin

text \<open>
  The effects of the program. The asynchronous functions of \<^verbatim>\<open>blockchain\<close>,
  \<^verbatim>\<open>arbitrage\<close> and \<^verbatim>\<open>trade\<close> are generic in a client (the traits
  \<^verbatim>\<open>ViewContract\<close>, \<^verbatim>\<open>SendTx\<close>, \<^verbatim>\<open>SentTx\<close>, \<^verbatim>\<open>AccountInfo\<close>,
  \<^verbatim>\<open>GasInfo\<close> of \<^verbatim>\<open>jsonrpc.rs\<close>) and so are the definitions here: a client is a record
  of functions on a world of any type. Every call is recorded, with what it returned, in a
  trace; a theorem about the trace holds for every client and every world.
\<close>

section \<open>Calls, outcomes and state\<close>

datatype json =
    JNull
  | JBool bool
  | JStr string
  | JU32 u32
  | JU128 u128
  | JList "json list"
  | JObj "(string \<times> json) list"

datatype error =
    Dex_Error dex_error
  | Plan_Error plan_error
  | Client_Error string
  | Db_Error string
  | Decode_Error
  | Msg string "nat list"

text \<open>The status of a finished or unfinished transaction, and how a function ends: it returns
  \<^verbatim>\<open>Ok\<close>, returns \<^verbatim>\<open>Err\<close> or panics; a panic is not an error the
  callers can match on.\<close>

datatype final_status =
    NotStarted
  | Started
  | Failure string
  | SuccessValue string

datatype 'a outcome = Ok (the_ok: 'a) | Err error | Panic string

datatype event =
    View account_id string json "string + string"
  | Exec (ev_signer: account_id) (ev_receiver: account_id) (ev_method: string) (ev_args: json)
      (ev_deposit: u128) "string + string"
  | Transfer account_id account_id u128 "string + string"
  | Wait_Success string bool
  | Wait_Executed string bool
  | Native_Amount account_id "string + u128"
  | Gas_Price "string + u128"
  | Clock u64
  | Sleep nat

text \<open>The state of a process: the world, the trace of its calls, and the static variables
  \<^verbatim>\<open>LAST_HARVEST\<close> (\<^verbatim>\<open>balances.rs\<close>), \<^verbatim>\<open>LAST_HARVEST_TIME\<close> (\<^verbatim>\<open>trade/harvest.rs\<close>),
  \<^verbatim>\<open>TOKEN_DECIMALS_CACHE\<close> and \<^verbatim>\<open>TOKEN_DECIMALS_FAILURES\<close> (\<^verbatim>\<open>trade/token_cache.rs\<close>).\<close>

record failure_record =
  failure_count :: u32
  last_failure :: int

record 'w sys =
  world :: 'w
  trace :: "event list"
  last_harvest :: u64
  last_harvest_time :: u64
  decimals_cache :: "token_account \<rightharpoonup> 8 word"
  decimals_failures :: "token_account \<rightharpoonup> failure_record"

text \<open>
  The client, with the flag of the process-wide startup configuration
  (\<^verbatim>\<open>config/startup.rs\<close>) that selects the network. Errors of the client are strings, transactions are named by strings, the bytes
  a view call returns are a string; the \<open>de_\<close> fields are the deserialisations
  \<^verbatim>\<open>serde_json::from_slice\<close> at the types the program uses. An object read into an ordered
  map is the list of its entries.
\<close>

record 'w client =
  is_mainnet :: bool
  c_view :: "account_id \<Rightarrow> string \<Rightarrow> json \<Rightarrow> 'w \<Rightarrow> (string + string) \<times> 'w"
  c_exec :: "account_id \<Rightarrow> account_id \<Rightarrow> string \<Rightarrow> json \<Rightarrow> u128 \<Rightarrow> 'w \<Rightarrow> (string + string) \<times> 'w"
  c_transfer :: "account_id \<Rightarrow> account_id \<Rightarrow> u128 \<Rightarrow> 'w \<Rightarrow> (string + string) \<times> 'w"
  c_wait_success :: "string \<Rightarrow> 'w \<Rightarrow> (string + final_status) \<times> 'w"
  c_wait_executed :: "string \<Rightarrow> 'w \<Rightarrow> (string + final_status) \<times> 'w"
  c_native_amount :: "account_id \<Rightarrow> 'w \<Rightarrow> (string + u128) \<times> 'w"
  c_gas_price :: "'w \<Rightarrow> (string + u128) \<times> 'w"
  c_now :: "'w \<Rightarrow> u64 \<times> 'w"
  de_u128 :: "string \<Rightarrow> u128 option"
  de_bounds :: "string \<Rightarrow> storage_balance_bounds option"
  de_balance :: "string \<Rightarrow> storage_balance option option"
  de_deposits :: "string \<Rightarrow> (token_account \<times> u128) list option"

text \<open>\<^verbatim>\<open>wallet.rs\<close>: the account and the signer's account.\<close>

record wallet =
  w_account :: account_id
  w_signer :: account_id

type_synonym ('w, 'a) io = "'w sys \<Rightarrow> 'a outcome \<times> 'w sys"

section \<open>Sequencing\<close>

definition io_return :: "'a \<Rightarrow> ('w, 'a) io" where
  "io_return x s = (Ok x, s)"

definition io_fail :: "error \<Rightarrow> ('w, 'a) io" where
  "io_fail e s = (Err e, s)"

definition io_panic :: "string \<Rightarrow> ('w, 'a) io" where
  "io_panic m s = (Panic m, s)"

text \<open>\<open>io_bind\<close> is \<^verbatim>\<open>.await?\<close> followed by the rest of the function.\<close>

definition io_bind :: "('w, 'a) io \<Rightarrow> ('a \<Rightarrow> ('w, 'b) io) \<Rightarrow> ('w, 'b) io" where
  "io_bind m f s = (case m s of
     (Ok x, s') \<Rightarrow> f x s'
   | (Err e, s') \<Rightarrow> (Err e, s')
   | (Panic p, s') \<Rightarrow> (Panic p, s'))"

text \<open>\<open>io_try\<close> is a \<^verbatim>\<open>match\<close> on the result of a call: the error becomes a value.\<close>

definition io_try :: "('w, 'a) io \<Rightarrow> ('w, error + 'a) io" where
  "io_try m s = (case m s of
     (Ok x, s') \<Rightarrow> (Ok (Inr x), s')
   | (Err e, s') \<Rightarrow> (Ok (Inl e), s')
   | (Panic p, s') \<Rightarrow> (Panic p, s'))"

definition io_of :: "error + 'a \<Rightarrow> ('w, 'a) io" where
  "io_of r = (case r of Inl e \<Rightarrow> io_fail e | Inr x \<Rightarrow> io_return x)"

definition io_option :: "error \<Rightarrow> 'a option \<Rightarrow> ('w, 'a) io" where
  "io_option e r = (case r of None \<Rightarrow> io_fail e | Some x \<Rightarrow> io_return x)"

definition io_expect :: "string \<Rightarrow> 'a option \<Rightarrow> ('w, 'a) io" where
  "io_expect p r = (case r of None \<Rightarrow> io_panic p | Some x \<Rightarrow> io_return x)"

definition io_when :: "bool \<Rightarrow> ('w, unit) io \<Rightarrow> ('w, unit) io" where
  "io_when b m = (if b then m else io_return ())"

fun io_mapM :: "('a \<Rightarrow> ('w, 'b) io) \<Rightarrow> 'a list \<Rightarrow> ('w, 'b list) io" where
  "io_mapM f [] = io_return []"
| "io_mapM f (x # xs) = io_bind (f x) (\<lambda>y. io_bind (io_mapM f xs) (\<lambda>ys. io_return (y # ys)))"

section \<open>The client's calls\<close>

definition io_call :: "('w \<Rightarrow> (string + 'a) \<times> 'w) \<Rightarrow> (string + 'a \<Rightarrow> event) \<Rightarrow> ('w, 'a) io" where
  "io_call f ev s = (case f (world s) of (r, w) \<Rightarrow>
     ((case r of Inl e \<Rightarrow> Err (Client_Error e) | Inr x \<Rightarrow> Ok x),
      s\<lparr>world := w, trace := trace s @ [ev r]\<rparr>))"

definition view_contract :: "'w client \<Rightarrow> account_id \<Rightarrow> string \<Rightarrow> json \<Rightarrow> ('w, string) io" where
  "view_contract c receiver m args =
     io_call (c_view c receiver m args) (View receiver m args)"

definition exec_contract :: "'w client \<Rightarrow> account_id \<Rightarrow> account_id \<Rightarrow> string \<Rightarrow> json \<Rightarrow> u128 \<Rightarrow>
    ('w, string) io" where
  "exec_contract c signer receiver m args dep =
     io_call (c_exec c signer receiver m args dep) (Exec signer receiver m args dep)"

definition transfer_native_token :: "'w client \<Rightarrow> account_id \<Rightarrow> account_id \<Rightarrow> u128 \<Rightarrow>
    ('w, string) io" where
  "transfer_native_token c signer receiver amount =
     io_call (c_transfer c signer receiver amount) (Transfer signer receiver amount)"

definition wait_for_success :: "'w client \<Rightarrow> string \<Rightarrow> ('w, final_status) io" where
  "wait_for_success c tx = io_call (c_wait_success c tx) (\<lambda>r. Wait_Success tx (\<not> isl r))"

definition wait_for_executed :: "'w client \<Rightarrow> string \<Rightarrow> ('w, final_status) io" where
  "wait_for_executed c tx = io_call (c_wait_executed c tx) (\<lambda>r. Wait_Executed tx (\<not> isl r))"

definition get_native_amount :: "'w client \<Rightarrow> account_id \<Rightarrow> ('w, u128) io" where
  "get_native_amount c account = io_call (c_native_amount c account) (Native_Amount account)"

definition get_gas_price :: "'w client \<Rightarrow> ('w, u128) io" where
  "get_gas_price c = io_call (c_gas_price c) Gas_Price"

text \<open>\<^verbatim>\<open>SystemTime::now()\<close> in seconds since the epoch.\<close>

definition io_now :: "'w client \<Rightarrow> ('w, u64) io" where
  "io_now c s = (case c_now c (world s) of (t, w) \<Rightarrow>
     (Ok t, s\<lparr>world := w, trace := trace s @ [Clock t]\<rparr>))"

text \<open>\<^verbatim>\<open>tokio::time::sleep\<close>, in nanoseconds.\<close>

definition io_sleep :: "nat \<Rightarrow> ('w, unit) io" where
  "io_sleep d s = (Ok (), s\<lparr>trace := trace s @ [Sleep d]\<rparr>)"

text \<open>The static \<^verbatim>\<open>LAST_HARVEST\<close>.\<close>

definition io_load_last_harvest :: "('w, u64) io" where
  "io_load_last_harvest s = (Ok (last_harvest s), s)"

definition io_store_last_harvest :: "u64 \<Rightarrow> ('w, unit) io" where
  "io_store_last_harvest t s = (Ok (), s\<lparr>last_harvest := t\<rparr>)"

definition io_decode :: "('w client \<Rightarrow> string \<Rightarrow> 'a option) \<Rightarrow> 'w client \<Rightarrow> string \<Rightarrow> ('w, 'a) io" where
  "io_decode d c b = io_option Decode_Error (d c b)"

text \<open>A transaction sent and waited for: \<^verbatim>\<open>(...).await?.wait_for_success().await?\<close>.\<close>

definition and_wait :: "'w client \<Rightarrow> ('w, string) io \<Rightarrow> ('w, final_status) io" where
  "and_wait c m = io_bind m (wait_for_success c)"

text \<open>\<^verbatim>\<open>ref_finance.rs\<close>, \<^verbatim>\<open>ref_finance/token_account.rs\<close>: the contract and token accounts.\<close>

definition CONTRACT_ADDRESS :: "'w client \<Rightarrow> account_id" where
  "CONTRACT_ADDRESS c =
     (if is_mainnet c then ''v2.ref-finance.near'' else ''ref-finance-101.testnet'')"

definition WNEAR_TOKEN :: "'w client \<Rightarrow> token_account" where
  "WNEAR_TOKEN c = TokenAccount (if is_mainnet c then ''wrap.near'' else ''wrap.testnet'')"

section \<open>A logic for traces\<close>

text \<open>
  \<open>emits m Q\<close>: whatever the state \<open>m\<close> starts from, it only appends to the trace, and the events
  it appends together with its outcome satisfy \<open>Q\<close>.
\<close>

definition emits :: "('w, 'a) io \<Rightarrow> (event list \<Rightarrow> 'a outcome \<Rightarrow> bool) \<Rightarrow> bool" where
  "emits m Q \<longleftrightarrow> (\<forall>s r s'. m s = (r, s') \<longrightarrow> (\<exists>es. trace s' = trace s @ es \<and> Q es r))"

text \<open>What is left to show after the events \<open>es\<close> when a computation continues with \<open>f\<close>.\<close>

definition after :: "('a \<Rightarrow> ('w, 'b) io) \<Rightarrow> (event list \<Rightarrow> 'b outcome \<Rightarrow> bool) \<Rightarrow>
    event list \<Rightarrow> 'a outcome \<Rightarrow> bool" where
  "after f Q es r = (case r of
     Ok x \<Rightarrow> emits (f x) (\<lambda>es' r'. Q (es @ es') r')
   | Err e \<Rightarrow> Q es (Err e)
   | Panic p \<Rightarrow> Q es (Panic p))"

named_theorems emits_intros \<open>rules of the trace logic\<close>

lemma emitsI:
  "(\<And>s r s'. m s = (r, s') \<Longrightarrow> \<exists>es. trace s' = trace s @ es \<and> Q es r) \<Longrightarrow> emits m Q"
  by (auto simp: emits_def)

lemma emitsD:
  "emits m Q \<Longrightarrow> m s = (r, s') \<Longrightarrow> \<exists>es. trace s' = trace s @ es \<and> Q es r"
  by (auto simp: emits_def)

lemma emits_conseq:
  "emits m Q \<Longrightarrow> (\<And>es r. Q es r \<Longrightarrow> R es r) \<Longrightarrow> emits m R"
  by (fastforce simp: emits_def)

lemma emits_return [emits_intros]: "Q [] (Ok x) \<Longrightarrow> emits (io_return x) Q"
  by (auto simp: emits_def io_return_def)

lemma emits_fail [emits_intros]: "Q [] (Err e) \<Longrightarrow> emits (io_fail e) Q"
  by (auto simp: emits_def io_fail_def)

lemma emits_panic [emits_intros]: "Q [] (Panic p) \<Longrightarrow> emits (io_panic p) Q"
  by (auto simp: emits_def io_panic_def)

lemma emits_bind [emits_intros]:
  assumes "emits m (after f Q)"
  shows "emits (io_bind m f) Q"
proof (rule emitsI)
  fix s r s' assume run: "io_bind m f s = (r, s')"
  obtain r1 s1 where 1: "m s = (r1, s1)" by fastforce
  obtain es where es: "trace s1 = trace s @ es" "after f Q es r1"
    using emitsD [OF assms 1] by auto
  show "\<exists>es. trace s' = trace s @ es \<and> Q es r"
  proof (cases r1)
    case (Ok x)
    then have "emits (f x) (\<lambda>es' r'. Q (es @ es') r')" "f x s1 = (r, s')"
      using es(2) run 1 by (simp_all add: after_def io_bind_def)
    from emitsD [OF this] es(1) show ?thesis by auto
  qed (use es run 1 in \<open>auto simp: after_def io_bind_def\<close>)
qed

text \<open>The same with a specification of the first part.\<close>

lemma emits_seq:
  assumes "emits m P"
    and "\<And>es x. P es (Ok x) \<Longrightarrow> emits (f x) (\<lambda>es' r. Q (es @ es') r)"
    and "\<And>es e. P es (Err e) \<Longrightarrow> Q es (Err e)"
    and "\<And>es p. P es (Panic p) \<Longrightarrow> Q es (Panic p)"
  shows "emits (io_bind m f) Q"
  by (rule emits_bind, rule emits_conseq [OF assms(1)])
    (auto simp: after_def assms split: outcome.splits)

lemma emits_try [emits_intros]:
  assumes "emits m (\<lambda>es r. case r of Ok x \<Rightarrow> Q es (Ok (Inr x)) | Err e \<Rightarrow> Q es (Ok (Inl e))
    | Panic p \<Rightarrow> Q es (Panic p))"
  shows "emits (io_try m) Q"
proof (rule emitsI)
  fix s r s' assume run: "io_try m s = (r, s')"
  obtain r1 s1 where 1: "m s = (r1, s1)" by fastforce
  from emitsD [OF assms 1] run show "\<exists>es. trace s' = trace s @ es \<and> Q es r"
    by (cases r1) (auto simp: io_try_def 1)
qed

lemma emits_option [emits_intros]:
  "(r = None \<Longrightarrow> Q [] (Err e)) \<Longrightarrow> (\<And>x. r = Some x \<Longrightarrow> Q [] (Ok x)) \<Longrightarrow> emits (io_option e r) Q"
  by (cases r) (auto simp: io_option_def emits_return emits_fail)

lemma emits_expect [emits_intros]:
  "(r = None \<Longrightarrow> Q [] (Panic p)) \<Longrightarrow> (\<And>x. r = Some x \<Longrightarrow> Q [] (Ok x)) \<Longrightarrow> emits (io_expect p r) Q"
  by (cases r) (auto simp: io_expect_def emits_return emits_panic)

lemma emits_of [emits_intros]:
  "(\<And>e. r = Inl e \<Longrightarrow> Q [] (Err e)) \<Longrightarrow> (\<And>x. r = Inr x \<Longrightarrow> Q [] (Ok x)) \<Longrightarrow> emits (io_of r) Q"
  by (cases r) (auto simp: io_of_def emits_return emits_fail)

lemma emits_when [emits_intros]:
  "(b \<Longrightarrow> emits m Q) \<Longrightarrow> (\<not> b \<Longrightarrow> Q [] (Ok ())) \<Longrightarrow> emits (io_when b m) Q"
  by (auto simp: io_when_def emits_return)

lemma emits_if [emits_intros]:
  "(b \<Longrightarrow> emits m Q) \<Longrightarrow> (\<not> b \<Longrightarrow> emits n Q) \<Longrightarrow> emits (if b then m else n) Q"
  by simp

lemma emits_call:
  "(\<And>x. Q [ev (Inr x)] (Ok x)) \<Longrightarrow> (\<And>e. Q [ev (Inl e)] (Err (Client_Error e))) \<Longrightarrow>
    emits (io_call f ev) Q"
  by (rule emitsI) (auto simp: io_call_def split: prod.splits sum.splits)

lemma emits_view_contract [emits_intros]:
  "(\<And>b. Q [View receiver m args (Inr b)] (Ok b)) \<Longrightarrow>
    (\<And>e. Q [View receiver m args (Inl e)] (Err (Client_Error e))) \<Longrightarrow>
    emits (view_contract c receiver m args) Q"
  unfolding view_contract_def by (rule emits_call)

lemma emits_exec_contract [emits_intros]:
  "(\<And>tx. Q [Exec sg receiver m args d (Inr tx)] (Ok tx)) \<Longrightarrow>
    (\<And>e. Q [Exec sg receiver m args d (Inl e)] (Err (Client_Error e))) \<Longrightarrow>
    emits (exec_contract c sg receiver m args d) Q"
  unfolding exec_contract_def by (rule emits_call)

lemma emits_transfer [emits_intros]:
  "(\<And>tx. Q [Transfer sg receiver a (Inr tx)] (Ok tx)) \<Longrightarrow>
    (\<And>e. Q [Transfer sg receiver a (Inl e)] (Err (Client_Error e))) \<Longrightarrow>
    emits (transfer_native_token c sg receiver a) Q"
  unfolding transfer_native_token_def by (rule emits_call)

lemma emits_wait_for_success [emits_intros]:
  "(\<And>x. Q [Wait_Success tx True] (Ok x)) \<Longrightarrow>
    (\<And>e. Q [Wait_Success tx False] (Err (Client_Error e))) \<Longrightarrow>
    emits (wait_for_success c tx) Q"
  unfolding wait_for_success_def by (rule emits_call) simp_all

lemma emits_wait_for_executed [emits_intros]:
  "(\<And>x. Q [Wait_Executed tx True] (Ok x)) \<Longrightarrow>
    (\<And>e. Q [Wait_Executed tx False] (Err (Client_Error e))) \<Longrightarrow>
    emits (wait_for_executed c tx) Q"
  unfolding wait_for_executed_def by (rule emits_call) simp_all

lemma emits_get_native_amount [emits_intros]:
  "(\<And>x. Q [Native_Amount a (Inr x)] (Ok x)) \<Longrightarrow>
    (\<And>e. Q [Native_Amount a (Inl e)] (Err (Client_Error e))) \<Longrightarrow>
    emits (get_native_amount c a) Q"
  unfolding get_native_amount_def by (rule emits_call)

lemma emits_get_gas_price [emits_intros]:
  "(\<And>x. Q [Gas_Price (Inr x)] (Ok x)) \<Longrightarrow>
    (\<And>e. Q [Gas_Price (Inl e)] (Err (Client_Error e))) \<Longrightarrow>
    emits (get_gas_price c) Q"
  unfolding get_gas_price_def by (rule emits_call)

lemma emits_decode [emits_intros]:
  "(d c b = None \<Longrightarrow> Q [] (Err Decode_Error)) \<Longrightarrow> (\<And>x. d c b = Some x \<Longrightarrow> Q [] (Ok x)) \<Longrightarrow>
    emits (io_decode d c b) Q"
  unfolding io_decode_def by (rule emits_option)

lemma emits_now [emits_intros]: "(\<And>t. Q [Clock t] (Ok t)) \<Longrightarrow> emits (io_now c) Q"
  by (rule emitsI) (auto simp: io_now_def split: prod.splits)

lemma emits_sleep [emits_intros]: "Q [Sleep d] (Ok ()) \<Longrightarrow> emits (io_sleep d) Q"
  by (rule emitsI) (auto simp: io_sleep_def)

lemma emits_load_last_harvest [emits_intros]:
  "(\<And>t. Q [] (Ok t)) \<Longrightarrow> emits io_load_last_harvest Q"
  by (rule emitsI) (auto simp: io_load_last_harvest_def)

lemma emits_store_last_harvest [emits_intros]:
  "Q [] (Ok ()) \<Longrightarrow> emits (io_store_last_harvest t) Q"
  by (rule emitsI) (auto simp: io_store_last_harvest_def)

lemma after_simps [simp]:
  "after f Q es (Ok x) = emits (f x) (\<lambda>es' r'. Q (es @ es') r')"
  "after f Q es (Err e) = Q es (Err e)"
  "after f Q es (Panic p) = Q es (Panic p)"
  by (simp_all add: after_def)

text \<open>A transaction that is sent and waited for leaves one of three traces.\<close>

lemma emits_exec_and_wait [emits_intros]:
  assumes "\<And>tx x. Q [Exec sg receiver m args d (Inr tx), Wait_Success tx True] (Ok x)"
    and "\<And>tx e. Q [Exec sg receiver m args d (Inr tx), Wait_Success tx False] (Err e)"
    and "\<And>e e'. Q [Exec sg receiver m args d (Inl e')] (Err e)"
  shows "emits (and_wait c (exec_contract c sg receiver m args d)) Q"
  unfolding and_wait_def
  by (intro emits_intros) (simp_all add: emits_wait_for_success assms)

lemma emits_mapM:
  fixes f :: "'a \<Rightarrow> ('w, 'b) io"
  assumes "\<And>x. x \<in> set xs \<Longrightarrow> emits (f x) (\<lambda>es r. (\<forall>e \<in> set es. P e) \<and> (\<exists>y. r = Ok y))"
  shows "emits (io_mapM f xs) (\<lambda>es r. (\<forall>e \<in> set es. P e) \<and> (\<exists>ys. r = Ok ys))"
  using assms
proof (induction xs)
  case Nil
  then show ?case by (auto intro: emits_return)
next
  case (Cons x xs)
  have "emits (f x) (after (\<lambda>y. io_bind (io_mapM f xs) (\<lambda>ys. io_return (y # ys)))
      (\<lambda>es r. (\<forall>e \<in> set es. P e) \<and> (\<exists>ys. r = Ok ys)))"
  proof (rule emits_conseq [OF Cons.prems])
    fix es and r :: "'b outcome" assume 1: "(\<forall>e \<in> set es. P e) \<and> (\<exists>y. r = Ok y)"
    then obtain y where r: "r = Ok y" by auto
    have "emits (io_bind (io_mapM f xs) (\<lambda>ys. io_return (y # ys)))
        (\<lambda>es' r'. (\<forall>e \<in> set (es @ es'). P e) \<and> (\<exists>ys. r' = Ok ys))"
      by (rule emits_bind, rule emits_conseq [OF Cons.IH])
        (use Cons.prems 1 in \<open>auto intro!: emits_return\<close>)
    then show "after (\<lambda>y. io_bind (io_mapM f xs) (\<lambda>ys. io_return (y # ys)))
      (\<lambda>es r. (\<forall>e \<in> set es. P e) \<and> (\<exists>ys. r = Ok ys)) es r"
      by (simp add: r)
  qed simp
  then show ?case by (auto intro: emits_bind)
qed

section \<open>A logic for states\<close>

text \<open>
  Where the outcome depends on the static state, \<open>runs m s Q\<close> states what \<open>m\<close> does from the
  state \<open>s\<close>: the events it appends, its outcome and the state it leaves.
\<close>

definition runs :: "('w, 'a) io \<Rightarrow> 'w sys \<Rightarrow> (event list \<Rightarrow> 'a outcome \<Rightarrow> 'w sys \<Rightarrow> bool) \<Rightarrow> bool" where
  "runs m s Q \<longleftrightarrow> (\<exists>es r s'. m s = (r, s') \<and> trace s' = trace s @ es \<and> Q es r s')"

definition then_runs :: "('a \<Rightarrow> ('w, 'b) io) \<Rightarrow> (event list \<Rightarrow> 'b outcome \<Rightarrow> 'w sys \<Rightarrow> bool) \<Rightarrow>
    event list \<Rightarrow> 'a outcome \<Rightarrow> 'w sys \<Rightarrow> bool" where
  "then_runs f Q es r s = (case r of
     Ok x \<Rightarrow> runs (f x) s (\<lambda>es' r' s'. Q (es @ es') r' s')
   | Err e \<Rightarrow> Q es (Err e) s
   | Panic p \<Rightarrow> Q es (Panic p) s)"

named_theorems runs_intros \<open>rules of the state logic\<close>

lemma runsD: "runs m s Q \<Longrightarrow> m s = (r, s') \<Longrightarrow> \<exists>es. trace s' = trace s @ es \<and> Q es r s'"
  by (auto simp: runs_def)

lemma runs_conseq: "runs m s Q \<Longrightarrow> (\<And>es r s'. Q es r s' \<Longrightarrow> R es r s') \<Longrightarrow> runs m s R"
  by (auto simp: runs_def)

lemma runs_return [runs_intros]: "Q [] (Ok x) s \<Longrightarrow> runs (io_return x) s Q"
  by (auto simp: runs_def io_return_def)

lemma runs_fail [runs_intros]: "Q [] (Err e) s \<Longrightarrow> runs (io_fail e) s Q"
  by (auto simp: runs_def io_fail_def)

lemma runs_panic [runs_intros]: "Q [] (Panic p) s \<Longrightarrow> runs (io_panic p) s Q"
  by (auto simp: runs_def io_panic_def)

lemma runs_bind [runs_intros]:
  assumes "runs m s (then_runs f Q)"
  shows "runs (io_bind m f) s Q"
proof -
  obtain es r s1 where 1: "m s = (r, s1)" "trace s1 = trace s @ es" "then_runs f Q es r s1"
    using assms by (auto simp: runs_def)
  show ?thesis
  proof (cases r)
    case (Ok x)
    with 1 obtain es' r' s' where "f x s1 = (r', s')" "trace s' = trace s1 @ es'" "Q (es @ es') r' s'"
      by (auto simp: then_runs_def runs_def)
    with 1 Ok show ?thesis by (fastforce simp: runs_def io_bind_def)
  qed (use 1 in \<open>auto simp: then_runs_def runs_def io_bind_def\<close>)
qed

lemma runs_when [runs_intros]:
  "(b \<Longrightarrow> runs m s Q) \<Longrightarrow> (\<not> b \<Longrightarrow> Q [] (Ok ()) s) \<Longrightarrow> runs (io_when b m) s Q"
  by (auto simp: io_when_def runs_return)

lemma runs_if [runs_intros]:
  "(b \<Longrightarrow> runs m s Q) \<Longrightarrow> (\<not> b \<Longrightarrow> runs n s Q) \<Longrightarrow> runs (if b then m else n) s Q"
  by simp

lemma runs_expect [runs_intros]:
  "(r = None \<Longrightarrow> Q [] (Panic p) s) \<Longrightarrow> (\<And>x. r = Some x \<Longrightarrow> Q [] (Ok x) s) \<Longrightarrow> runs (io_expect p r) s Q"
  by (cases r) (auto simp: io_expect_def runs_return runs_panic)

lemma runs_load_last_harvest [runs_intros]:
  "Q [] (Ok (last_harvest s)) s \<Longrightarrow> runs io_load_last_harvest s Q"
  by (auto simp: runs_def io_load_last_harvest_def)

lemma runs_store_last_harvest [runs_intros]:
  "(\<And>s'. last_harvest s' = t \<Longrightarrow> Q [] (Ok ()) s') \<Longrightarrow> runs (io_store_last_harvest t) s Q"
  by (fastforce simp: runs_def io_store_last_harvest_def)

lemma runs_call:
  assumes "\<And>x s'. last_harvest s' = last_harvest s \<Longrightarrow> Q [ev (Inr x)] (Ok x) s'"
    and "\<And>e s'. last_harvest s' = last_harvest s \<Longrightarrow> Q [ev (Inl e)] (Err (Client_Error e)) s'"
  shows "runs (io_call f ev) s Q"
  using assms by (cases "f (world s)") (auto simp: runs_def io_call_def split: sum.splits)

lemma runs_now [runs_intros]:
  "(\<And>t s'. last_harvest s' = last_harvest s \<Longrightarrow> Q [Clock t] (Ok t) s') \<Longrightarrow> runs (io_now c) s Q"
  by (cases "c_now c (world s)") (auto simp: runs_def io_now_def)

lemma runs_get_native_amount [runs_intros]:
  assumes "\<And>x s'. last_harvest s' = last_harvest s \<Longrightarrow> Q [Native_Amount a (Inr x)] (Ok x) s'"
    and "\<And>e s'. last_harvest s' = last_harvest s \<Longrightarrow>
      Q [Native_Amount a (Inl e)] (Err (Client_Error e)) s'"
  shows "runs (get_native_amount c a) s Q"
  unfolding get_native_amount_def by (rule runs_call) (simp_all add: assms)

lemma runs_exec_and_wait [runs_intros]:
  assumes "\<And>tx x s'. last_harvest s' = last_harvest s \<Longrightarrow>
      Q [Exec sg rc m args d (Inr tx), Wait_Success tx True] (Ok x) s'"
    and "\<And>tx e s'. last_harvest s' = last_harvest s \<Longrightarrow>
      Q [Exec sg rc m args d (Inr tx), Wait_Success tx False] (Err e) s'"
    and "\<And>e e' s'. last_harvest s' = last_harvest s \<Longrightarrow> Q [Exec sg rc m args d (Inl e')] (Err e) s'"
  shows "runs (and_wait c (exec_contract c sg rc m args d)) s Q"
  unfolding and_wait_def exec_contract_def wait_for_success_def
  by (intro runs_bind runs_call) (auto simp: then_runs_def assms intro!: runs_call)

lemma runs_transfer_and_wait [runs_intros]:
  assumes "\<And>tx x s'. last_harvest s' = last_harvest s \<Longrightarrow>
      Q [Transfer sg rc a (Inr tx), Wait_Success tx True] (Ok x) s'"
    and "\<And>tx e s'. last_harvest s' = last_harvest s \<Longrightarrow>
      Q [Transfer sg rc a (Inr tx), Wait_Success tx False] (Err e) s'"
    and "\<And>e e' s'. last_harvest s' = last_harvest s \<Longrightarrow> Q [Transfer sg rc a (Inl e')] (Err e) s'"
  shows "runs (and_wait c (transfer_native_token c sg rc a)) s Q"
  unfolding and_wait_def transfer_native_token_def wait_for_success_def
  by (intro runs_bind runs_call) (auto simp: then_runs_def assms intro!: runs_call)

lemma then_runs_simps [simp]:
  "then_runs f Q es (Ok x) s = runs (f x) s (\<lambda>es' r' s'. Q (es @ es') r' s')"
  "then_runs f Q es (Err e) s = Q es (Err e) s"
  "then_runs f Q es (Panic p) s = Q es (Panic p) s"
  by (simp_all add: then_runs_def)

end
