(* ===== verification/Deposit.thy ===== *)
theory Deposit
  imports Effects
begin

text \<open>
  \<^verbatim>\<open>ref_finance/deposit.rs\<close>: the calls of the token and exchange contracts that move
  deposits, and what each of them leaves in the trace.
\<close>

section \<open>Operations\<close>

datatype deposit_mode = RegistrationOnly | DepositWithRegistration

definition registration_only :: "deposit_mode \<Rightarrow> bool" where
  "registration_only m = (case m of RegistrationOnly \<Rightarrow> True | DepositWithRegistration \<Rightarrow> False)"

definition wnear_balance_of :: "'w client \<Rightarrow> account_id \<Rightarrow> ('w, u128) io" where
  "wnear_balance_of c account =
     io_bind (view_contract c (as_account_id (WNEAR_TOKEN c)) ''ft_balance_of''
       (JObj [(''account_id'', JStr account)])) (io_decode de_u128 c)"

definition wnear_wrap :: "'w client \<Rightarrow> wallet \<Rightarrow> u128 \<Rightarrow> ('w, string) io" where
  "wnear_wrap c w amount =
     exec_contract c (w_signer w) (as_account_id (WNEAR_TOKEN c)) ''near_deposit'' (JObj []) amount"

definition wnear_unwrap :: "'w client \<Rightarrow> wallet \<Rightarrow> u128 \<Rightarrow> ('w, string) io" where
  "wnear_unwrap c w amount =
     exec_contract c (w_signer w) (as_account_id (WNEAR_TOKEN c)) ''near_withdraw''
       (JObj [(''amount'', JU128 amount)]) 1"

definition deposit :: "'w client \<Rightarrow> wallet \<Rightarrow> token_account \<Rightarrow> u128 \<Rightarrow> ('w, string) io" where
  "deposit c w token amount =
     exec_contract c (w_signer w) (as_account_id token) ''ft_transfer_call''
       (JObj [(''receiver_id'', JStr (CONTRACT_ADDRESS c)), (''amount'', JU128 amount),
          (''msg'', JStr '''')]) 1"

definition get_deposits :: "'w client \<Rightarrow> account_id \<Rightarrow> ('w, (token_account, u128) btree_map) io" where
  "get_deposits c account =
     io_bind (view_contract c (CONTRACT_ADDRESS c) ''get_deposits''
       (JObj [(''account_id'', JStr account)])) (\<lambda>b.
     io_bind (io_decode de_deposits c b) (\<lambda>entries. io_return (btree_collect entries)))"

definition withdraw :: "'w client \<Rightarrow> wallet \<Rightarrow> token_account \<Rightarrow> u128 \<Rightarrow> ('w, string) io" where
  "withdraw c w token amount =
     exec_contract c (w_signer w) (CONTRACT_ADDRESS c) ''withdraw''
       (JObj [(''token_id'', JStr (as_account_id token)), (''amount'', JU128 amount),
          (''skip_unwrap_near'', JBool False)]) 1"

definition token_ids :: "token_account list \<Rightarrow> json" where
  "token_ids tokens = JObj [(''token_ids'', JList (map (JStr \<circ> as_account_id) tokens))]"

definition register_tokens :: "'w client \<Rightarrow> wallet \<Rightarrow> token_account list \<Rightarrow> ('w, string) io" where
  "register_tokens c w tokens =
     exec_contract c (w_signer w) (CONTRACT_ADDRESS c) ''register_tokens'' (token_ids tokens) 1"

definition unregister_tokens :: "'w client \<Rightarrow> wallet \<Rightarrow> token_account list \<Rightarrow> ('w, string) io" where
  "unregister_tokens c w tokens =
     exec_contract c (w_signer w) (CONTRACT_ADDRESS c) ''unregister_tokens'' (token_ids tokens) 1"

section \<open>Traces of the operations\<close>

text \<open>The tokens of a \<^verbatim>\<open>token_ids\<close> argument can be read back.\<close>

fun json_string :: "json \<Rightarrow> string" where
  "json_string (JStr s) = s"
| "json_string _ = ''''"

fun read_token_ids :: "json \<Rightarrow> token_account list" where
  "read_token_ids (JObj [(_, JList js)]) = map (TokenAccount \<circ> json_string) js"
| "read_token_ids _ = []"

lemma read_token_ids [simp]: "read_token_ids (token_ids tokens) = tokens"
  by (simp add: token_ids_def o_def)

lemma emits_get_deposits [emits_intros]:
  assumes "\<And>b d. de_deposits c b = Some d \<Longrightarrow>
      Q [View (CONTRACT_ADDRESS c) ''get_deposits'' (JObj [(''account_id'', JStr account)]) (Inr b)]
        (Ok (btree_collect d))"
    and "\<And>x e. Q [View (CONTRACT_ADDRESS c) ''get_deposits''
        (JObj [(''account_id'', JStr account)]) x] (Err e)"
  shows "emits (get_deposits c account) Q"
  unfolding get_deposits_def
  by (intro emits_intros) (auto simp: assms intro!: emits_intros)

lemma emits_wnear_balance_of [emits_intros]:
  assumes "\<And>b x. de_u128 c b = Some x \<Longrightarrow>
      Q [View (as_account_id (WNEAR_TOKEN c)) ''ft_balance_of''
          (JObj [(''account_id'', JStr account)]) (Inr b)] (Ok x)"
    and "\<And>x e. Q [View (as_account_id (WNEAR_TOKEN c)) ''ft_balance_of''
        (JObj [(''account_id'', JStr account)]) x] (Err e)"
  shows "emits (wnear_balance_of c account) Q"
  unfolding wnear_balance_of_def
  by (intro emits_intros) (auto simp: assms intro!: emits_intros)

section \<open>Money attached\<close>

text \<open>What an event takes from the native balance of the signer, in yocto.\<close>

fun attached :: "event \<Rightarrow> nat" where
  "attached (Exec _ _ _ _ d _) = unat d"
| "attached (Transfer _ _ a _) = unat a"
| "attached _ = 0"

definition is_exec :: "string \<Rightarrow> event \<Rightarrow> bool" where
  "is_exec m e = (case e of Exec _ _ m' _ _ _ \<Rightarrow> m' = m | _ \<Rightarrow> False)"

definition spent :: "event list \<Rightarrow> nat" where
  "spent es = sum_list (map attached es)"

definition spent_on :: "string \<Rightarrow> event list \<Rightarrow> nat" where
  "spent_on m es = spent (filter (is_exec m) es)"

lemma is_exec_simps [simp]:
  "is_exec m (Exec sg rc m' args d r) \<longleftrightarrow> m' = m"
  "\<not> is_exec m (View rc m' args' r')" "\<not> is_exec m (Transfer sg rc d r)"
  "\<not> is_exec m (Wait_Success tx b)" "\<not> is_exec m (Wait_Executed tx b)"
  "\<not> is_exec m (Native_Amount a ra)" "\<not> is_exec m (Gas_Price ra)" "\<not> is_exec m (Clock t)" "\<not> is_exec m (Sleep n)"
  by (simp_all add: is_exec_def)

lemma spent_simps [simp]:
  "spent [] = 0" "spent (e # es) = attached e + spent es" "spent (es @ es') = spent es + spent es'"
  by (simp_all add: spent_def)

lemma spent_on_simps [simp]:
  "spent_on m [] = 0"
  "spent_on m (e # es) = (if is_exec m e then attached e else 0) + spent_on m es"
  "spent_on m (es @ es') = spent_on m es + spent_on m es'"
  by (simp_all add: spent_on_def)

lemma spent_zero: "(\<And>e. e \<in> set es \<Longrightarrow> attached e = 0) \<Longrightarrow> spent es = 0"
  by (induction es) auto

lemma spent_on_zero: "(\<And>e. e \<in> set es \<Longrightarrow> \<not> is_exec m e) \<Longrightarrow> spent_on m es = 0"
  by (induction es) auto

end
