(* ===== verification/Config.thy ===== *)
theory Config
  imports Prelude
begin

text \<open>
  \<^verbatim>\<open>common/config\<close>: the three sources of configuration values, their priority chain
  (\<^verbatim>\<open>store.rs\<close>) and the typed accessors (\<^verbatim>\<open>typed.rs\<close>). The floating-point and
  duration keys are not listed.
\<close>

section \<open>The stores\<close>

record config_stores =
  config_store :: "string \<rightharpoonup> string"
  db_store :: "string \<rightharpoonup> string"
  env :: "string \<rightharpoonup> string"

datatype config_error = Is_Empty string | Key_Not_Found string | Required_Key_Not_Found string

definition get_from_env :: "config_stores \<Rightarrow> string \<Rightarrow> config_error + string" where
  "get_from_env st name = (case env st name of
     Some val \<Rightarrow> if val \<noteq> '''' then Inr val else Inl (Key_Not_Found name)
   | None \<Rightarrow> Inl (Key_Not_Found name))"

definition config_get :: "config_stores \<Rightarrow> string \<Rightarrow> config_error + string" where
  "config_get st name = (case config_store st name of
     Some v \<Rightarrow> if v = '''' then Inl (Is_Empty name) else Inr v
   | None \<Rightarrow> (case db_store st name of
       Some v \<Rightarrow> if v = '''' then Inl (Is_Empty name) else Inr v
     | None \<Rightarrow> get_from_env st name))"

definition get_excluding_db :: "config_stores \<Rightarrow> string \<Rightarrow> config_error + string" where
  "get_excluding_db st name = (case config_store st name of
     Some v \<Rightarrow> if v = '''' then Inl (Is_Empty name) else Inr v
   | None \<Rightarrow> get_from_env st name)"

definition config_set :: "string \<Rightarrow> string \<Rightarrow> config_stores \<Rightarrow> config_stores" where
  "config_set name v st = st\<lparr>config_store := (config_store st)(name \<mapsto> v)\<rparr>"

definition config_remove :: "string \<Rightarrow> config_stores \<Rightarrow> config_stores" where
  "config_remove name st = st\<lparr>config_store := (config_store st)(name := None)\<rparr>"

definition load_db_config :: "(string \<rightharpoonup> string) \<Rightarrow> config_stores \<Rightarrow> config_stores" where
  "load_db_config configs st = st\<lparr>db_store := configs\<rparr>"

text \<open>The guards that restore the stores when dropped.\<close>

record config_guard =
  guard_key :: string
  guard_previous :: "string option"

definition config_guard_new :: "string \<Rightarrow> string \<Rightarrow> config_stores \<Rightarrow> config_guard \<times> config_stores" where
  "config_guard_new key v st =
     (\<lparr>guard_key = key, guard_previous = config_store st key\<rparr>, config_set key v st)"

definition config_guard_drop :: "config_guard \<Rightarrow> config_stores \<Rightarrow> config_stores" where
  "config_guard_drop g st = (case guard_previous g of
     Some prev \<Rightarrow> config_set (guard_key g) prev st
   | None \<Rightarrow> config_remove (guard_key g) st)"

section \<open>Parsing\<close>

text \<open>\<^verbatim>\<open>str::parse\<close> at the integer types: an optional sign, at least one digit, no overflow.\<close>

definition digit_value :: "char \<Rightarrow> nat option" where
  "digit_value ch = (let n = of_char ch in if 48 \<le> n \<and> n \<le> 57 then Some (n - 48) else None)"

fun parse_digits :: "nat \<Rightarrow> string \<Rightarrow> nat option" where
  "parse_digits acc [] = Some acc"
| "parse_digits acc (ch # s) = (case digit_value ch of
     None \<Rightarrow> None | Some d \<Rightarrow> parse_digits (acc * 10 + d) s)"

definition parse_nat :: "string \<Rightarrow> nat option" where
  "parse_nat s = (if s = [] then None else parse_digits 0 s)"

definition parse_uint :: "string \<Rightarrow> 'a::len word option" where
  "parse_uint s = Option.bind (parse_nat (if s \<noteq> [] \<and> hd s = CHR ''+'' then tl s else s))
     (\<lambda>n. if n < 2 ^ LENGTH('a) then Some (of_nat n) else None)"

definition parse_i64 :: "string \<Rightarrow> int option" where
  "parse_i64 s =
     (if s \<noteq> [] \<and> hd s = CHR ''-''
      then Option.bind (parse_nat (tl s)) (\<lambda>n. if n \<le> 2 ^ 63 then Some (- int n) else None)
      else Option.bind (parse_nat (if s \<noteq> [] \<and> hd s = CHR ''+'' then tl s else s))
        (\<lambda>n. if n < 2 ^ 63 then Some (int n) else None))"

definition to_lower :: "char \<Rightarrow> char" where
  "to_lower ch = (let n = of_char ch :: nat in if 65 \<le> n \<and> n \<le> 90 then char_of (n + 32) else ch)"

definition parse_bool :: "string \<Rightarrow> bool option" where
  "parse_bool s = (let l = map to_lower s in
     if l = ''true'' then Some True else if l = ''false'' then Some False else None)"

section \<open>Typed resolution\<close>

definition resolve_with :: "(string \<Rightarrow> 'a option) \<Rightarrow> config_error + string \<Rightarrow> 'a \<Rightarrow> 'a" where
  "resolve_with parse r d = (case r of
     Inl _ \<Rightarrow> d
   | Inr v \<Rightarrow> (case parse v of None \<Rightarrow> d | Some x \<Rightarrow> x))"

definition resolve_bool :: "config_error + string \<Rightarrow> bool \<Rightarrow> bool" where
  "resolve_bool = resolve_with parse_bool"

definition resolve_uint :: "config_error + string \<Rightarrow> 'a::len word \<Rightarrow> 'a word" where
  "resolve_uint = resolve_with parse_uint"

definition resolve_i64 :: "config_error + string \<Rightarrow> int \<Rightarrow> int" where
  "resolve_i64 = resolve_with parse_i64"

text \<open>A \<^verbatim>\<open>Duration\<close> in nanoseconds; the parser of \<^verbatim>\<open>humantime\<close> is an argument.\<close>

definition resolve_duration :: "(string \<Rightarrow> nat option) \<Rightarrow> config_error + string \<Rightarrow> nat \<Rightarrow> nat" where
  "resolve_duration parse_duration = resolve_with parse_duration"

definition from_secs :: "nat \<Rightarrow> nat" where
  "from_secs s = s * 1000000000"

definition resolve_string :: "config_error + string \<Rightarrow> string \<Rightarrow> string" where
  "resolve_string = resolve_with Some"

definition resolve_required :: "string \<Rightarrow> config_error + string \<Rightarrow> config_error + string" where
  "resolve_required key r = (case r of Inl _ \<Rightarrow> Inl (Required_Key_Not_Found key) | Inr v \<Rightarrow> Inr v)"

definition REF_STORAGE_MAX_TOP_UP_ABSOLUTE_CEILING :: u128 where
  "REF_STORAGE_MAX_TOP_UP_ABSOLUTE_CEILING = 5000000000000000000000000"

section \<open>The accessors\<close>

definition trade_enabled :: "config_stores \<Rightarrow> bool" where
  "trade_enabled st = resolve_bool (config_get st ''TRADE_ENABLED'') False"

definition trade_initial_investment :: "config_stores \<Rightarrow> u32" where
  "trade_initial_investment st = resolve_uint (config_get st ''TRADE_INITIAL_INVESTMENT'') 100"

definition trade_top_tokens :: "config_stores \<Rightarrow> u32" where
  "trade_top_tokens st = resolve_uint (config_get st ''TRADE_TOP_TOKENS'') 10"

definition trade_evaluation_days :: "config_stores \<Rightarrow> u32" where
  "trade_evaluation_days st = resolve_uint (config_get st ''TRADE_EVALUATION_DAYS'') 10"

definition trade_account_reserve :: "config_stores \<Rightarrow> u32" where
  "trade_account_reserve st = resolve_uint (config_get st ''TRADE_ACCOUNT_RESERVE'') 10"

definition trade_cron_schedule :: "config_stores \<Rightarrow> string" where
  "trade_cron_schedule st = resolve_string (config_get st ''TRADE_CRON_SCHEDULE'') ''0 0 0 * * *''"

definition record_rates_cron_schedule :: "config_stores \<Rightarrow> string" where
  "record_rates_cron_schedule st = resolve_string (config_get st ''RECORD_RATES_CRON_SCHEDULE'') ''0 */15 * * * *''"

definition trade_prediction_max_retries :: "config_stores \<Rightarrow> u32" where
  "trade_prediction_max_retries st = resolve_uint (config_get st ''TRADE_PREDICTION_MAX_RETRIES'') 2"

definition trade_prediction_retry_delay_seconds :: "config_stores \<Rightarrow> u64" where
  "trade_prediction_retry_delay_seconds st = resolve_uint (config_get st ''TRADE_PREDICTION_RETRY_DELAY_SECONDS'') 5"

definition trade_price_history_days :: "config_stores \<Rightarrow> u32" where
  "trade_price_history_days st = resolve_uint (config_get st ''TRADE_PRICE_HISTORY_DAYS'') 30"

definition trade_unwrap_on_stop :: "config_stores \<Rightarrow> bool" where
  "trade_unwrap_on_stop st = resolve_bool (config_get st ''TRADE_UNWRAP_ON_STOP'') False"

definition trade_prediction_concurrency :: "config_stores \<Rightarrow> u32" where
  "trade_prediction_concurrency st = resolve_uint (config_get st ''TRADE_PREDICTION_CONCURRENCY'') 4"

definition trade_prediction_chunk_size :: "config_stores \<Rightarrow> u32" where
  "trade_prediction_chunk_size st = resolve_uint (config_get st ''TRADE_PREDICTION_CHUNK_SIZE'') 20"

definition trade_prediction_model_threads :: "config_stores \<Rightarrow> u32" where
  "trade_prediction_model_threads st = resolve_uint (config_get st ''TRADE_PREDICTION_MODEL_THREADS'') 3"

definition trade_min_pool_liquidity :: "config_stores \<Rightarrow> u32" where
  "trade_min_pool_liquidity st = resolve_uint (config_get st ''TRADE_MIN_POOL_LIQUIDITY'') 100"

definition trade_token_cache_concurrency :: "config_stores \<Rightarrow> u32" where
  "trade_token_cache_concurrency st = resolve_uint (config_get st ''TRADE_TOKEN_CACHE_CONCURRENCY'') 8"

definition trade_token_cache_backoff_base_minutes :: "config_stores \<Rightarrow> u64" where
  "trade_token_cache_backoff_base_minutes st = resolve_uint (config_get st ''TRADE_TOKEN_CACHE_BACKOFF_BASE_MINUTES'') 15"

definition trade_token_cache_max_backoff_minutes :: "config_stores \<Rightarrow> u64" where
  "trade_token_cache_max_backoff_minutes st = resolve_uint (config_get st ''TRADE_TOKEN_CACHE_MAX_BACKOFF_MINUTES'') 1440"

definition arbitrage_needed :: "config_stores \<Rightarrow> bool" where
  "arbitrage_needed st = resolve_bool (config_get st ''ARBITRAGE_NEEDED'') False"

definition arbitrage_token_not_found_wait :: "(string \<Rightarrow> nat option) \<Rightarrow> config_stores \<Rightarrow> nat" where
  "arbitrage_token_not_found_wait pd st =
     resolve_duration pd (config_get st ''ARBITRAGE_TOKEN_NOT_FOUND_WAIT'') (from_secs 1)"

definition arbitrage_other_error_wait :: "(string \<Rightarrow> nat option) \<Rightarrow> config_stores \<Rightarrow> nat" where
  "arbitrage_other_error_wait pd st =
     resolve_duration pd (config_get st ''ARBITRAGE_OTHER_ERROR_WAIT'') (from_secs 5)"

definition arbitrage_preview_not_found_wait :: "(string \<Rightarrow> nat option) \<Rightarrow> config_stores \<Rightarrow> nat" where
  "arbitrage_preview_not_found_wait pd st =
     resolve_duration pd (config_get st ''ARBITRAGE_PREVIEW_NOT_FOUND_WAIT'') (from_secs 2)"

definition harvest_account_id :: "config_stores \<Rightarrow> config_error + string" where
  "harvest_account_id st = resolve_required ''HARVEST_ACCOUNT_ID'' (config_get st ''HARVEST_ACCOUNT_ID'')"

definition harvest_min_amount :: "config_stores \<Rightarrow> u32" where
  "harvest_min_amount st = resolve_uint (config_get st ''HARVEST_MIN_AMOUNT'') 10"

definition harvest_reserve_amount :: "config_stores \<Rightarrow> u32" where
  "harvest_reserve_amount st = resolve_uint (config_get st ''HARVEST_RESERVE_AMOUNT'') 1"

definition harvest_interval_seconds :: "config_stores \<Rightarrow> u64" where
  "harvest_interval_seconds st = resolve_uint (config_get st ''HARVEST_INTERVAL_SECONDS'') 86400"

definition harvest_balance_multiplier :: "config_stores \<Rightarrow> u128" where
  "harvest_balance_multiplier st = resolve_uint (config_get st ''HARVEST_BALANCE_MULTIPLIER'') 128"

definition rpc_max_attempts :: "config_stores \<Rightarrow> 16 word" where
  "rpc_max_attempts st = resolve_uint (config_get st ''RPC_MAX_ATTEMPTS'') 128"

definition pool_info_retention_days :: "config_stores \<Rightarrow> u32" where
  "pool_info_retention_days st = resolve_uint (config_get st ''POOL_INFO_RETENTION_DAYS'') 30"

definition token_rates_retention_days :: "config_stores \<Rightarrow> u32" where
  "token_rates_retention_days st = resolve_uint (config_get st ''TOKEN_RATES_RETENTION_DAYS'') 90"

definition evaluation_periods_retention_days :: "config_stores \<Rightarrow> u32" where
  "evaluation_periods_retention_days st = resolve_uint (config_get st ''EVALUATION_PERIODS_RETENTION_DAYS'') 365"

definition config_store_history_retention_days :: "config_stores \<Rightarrow> u32" where
  "config_store_history_retention_days st = resolve_uint (config_get st ''CONFIG_STORE_HISTORY_RETENTION_DAYS'') 365"

definition cron_max_sleep_seconds :: "config_stores \<Rightarrow> u64" where
  "cron_max_sleep_seconds st = resolve_uint (config_get st ''CRON_MAX_SLEEP_SECONDS'') 60"

definition cron_log_threshold_seconds :: "config_stores \<Rightarrow> u64" where
  "cron_log_threshold_seconds st = resolve_uint (config_get st ''CRON_LOG_THRESHOLD_SECONDS'') 300"

definition db_maintenance_cron_schedule :: "config_stores \<Rightarrow> string" where
  "db_maintenance_cron_schedule st = resolve_string (config_get st ''DB_MAINTENANCE_CRON_SCHEDULE'') ''0 0 4 * * 7''"

definition prediction_record_retention_days :: "config_stores \<Rightarrow> u32" where
  "prediction_record_retention_days st = resolve_uint (config_get st ''PREDICTION_RECORD_RETENTION_DAYS'') 30"

definition prediction_unevaluated_retention_days :: "config_stores \<Rightarrow> u32" where
  "prediction_unevaluated_retention_days st = resolve_uint (config_get st ''PREDICTION_UNEVALUATED_RETENTION_DAYS'') 20"

definition prediction_eval_tolerance_minutes :: "config_stores \<Rightarrow> int" where
  "prediction_eval_tolerance_minutes st = resolve_i64 (config_get st ''PREDICTION_EVAL_TOLERANCE_MINUTES'') 30"

definition prediction_accuracy_window :: "config_stores \<Rightarrow> int" where
  "prediction_accuracy_window st = resolve_i64 (config_get st ''PREDICTION_ACCURACY_WINDOW'') 20"

definition prediction_accuracy_min_samples :: "config_stores \<Rightarrow> u64" where
  "prediction_accuracy_min_samples st = resolve_uint (config_get st ''PREDICTION_ACCURACY_MIN_SAMPLES'') 5"

definition ref_storage_max_top_up_yoctonear :: "config_stores \<Rightarrow> u128" where
  "ref_storage_max_top_up_yoctonear st = resolve_uint (config_get st ''REF_STORAGE_MAX_TOP_UP_YOCTONEAR'') 500000000000000000000000"

section \<open>Properties\<close>

text \<open>Decimal digits print and parse back: the digits of a number, most significant first.\<close>

fun show_nat :: "nat \<Rightarrow> string" where
  "show_nat n = (if n < 10 then [char_of (48 + n)] else show_nat (n div 10) @ [char_of (48 + n mod 10)])"

declare show_nat.simps [simp del]

lemma digit_value_char: "d < 10 \<Longrightarrow> digit_value (char_of (48 + d)) = Some d"
  by (simp add: digit_value_def of_char_of)

lemma parse_digits_append:
  "parse_digits acc (s @ t) = Option.bind (parse_digits acc s) (\<lambda>a. parse_digits a t)"
  by (induction acc s rule: parse_digits.induct) (auto split: option.splits)

lemma parse_digits_show: "parse_digits 0 (show_nat n) = Some n"
proof (induction n rule: show_nat.induct)
  case (1 n)
  show ?case
  proof (cases "n < 10")
    case True
    then show ?thesis by (simp add: show_nat.simps [of n] digit_value_char)
  next
    case False
    then show ?thesis
      using 1 by (simp add: show_nat.simps [of n] parse_digits_append digit_value_char)
  qed
qed

lemma show_nat_hd: "show_nat n \<noteq> [] \<and> hd (show_nat n) \<noteq> CHR ''+''"
proof (induction n rule: show_nat.induct)
  case (1 n)
  have "digit_value (CHR ''+'') = None"
    by (simp add: digit_value_def)
  then have "char_of (48 + n) \<noteq> CHR ''+''" if "n < 10"
    using digit_value_char [OF that] by auto
  then show ?case
    using 1 by (cases "n < 10") (auto simp: show_nat.simps [of n] hd_append)
qed

lemma parse_uint_show:
  "n < 2 ^ LENGTH('a) \<Longrightarrow> parse_uint (show_nat n) = Some (of_nat n :: 'a::len word)"
  by (simp add: parse_uint_def parse_nat_def show_nat_hd parse_digits_show)

lemma parse_uint_unat: "parse_uint (show_nat (unat x)) = Some (x :: 'a::len word)"
  using parse_uint_show [of "unat x", where 'a = 'a] by (simp add: unat_below)


text \<open>
  A number written into the database by its decimal text is what the accessor reads back
  when there is no runtime override, and dropping a guard restores the override it replaced.
\<close>

theorem config_round_trip:
  "resolve_uint (config_get (load_db_config [name \<mapsto> show_nat (unat x)] (config_remove name st))
      name) d = x \<and>
    (case config_guard_new name v st of (g, st') \<Rightarrow>
       config_store st' name = Some v \<and> config_guard_drop g st' = st)"
proof -
  have restore: "st\<lparr>config_store := (config_store st)(name := r)\<rparr> = st"
    if "config_store st name = r" for r
    using that by (simp add: fun_upd_idem)
  show ?thesis
    using show_nat_hd [of "unat x"]
    by (auto simp: restore resolve_uint_def resolve_with_def config_get_def load_db_config_def
        parse_uint_unat config_guard_new_def config_guard_drop_def config_set_def config_remove_def
        split: option.splits)
qed

end
