(* ===== verification/Storage.thy ===== *)
theory Storage
  imports Deposit Config
begin

text \<open>
  \<^verbatim>\<open>ref_finance/storage.rs\<close>: the storage an account holds on the exchange contract, from
  the first registration to the top-up and the registration of tokens. The per-account
  mutex serialises the runs of one account; one run is the unit modelled here.
\<close>

section \<open>Operations\<close>

definition keep_wnear_only :: "'w client \<Rightarrow> token_account list" where
  "keep_wnear_only c = [WNEAR_TOKEN c]"

definition max_top_up_from_config :: "config_stores \<Rightarrow> u128" where
  "max_top_up_from_config cfg =
     min (ref_storage_max_top_up_yoctonear cfg) REF_STORAGE_MAX_TOP_UP_ABSOLUTE_CEILING"

definition keep_with_portfolio :: "'w client \<Rightarrow> token_account list \<Rightarrow> token_account list" where
  "keep_with_portfolio c tokens =
     (if WNEAR_TOKEN c \<notin> set tokens then tokens @ [WNEAR_TOKEN c] else tokens)"

definition check_bounds :: "'w client \<Rightarrow> ('w, storage_balance_bounds) io" where
  "check_bounds c =
     io_bind (view_contract c (CONTRACT_ADDRESS c) ''storage_balance_bounds'' (JObj []))
       (io_decode de_bounds c)"

definition storage_deposit :: "'w client \<Rightarrow> wallet \<Rightarrow> u128 \<Rightarrow> deposit_mode \<Rightarrow> ('w, string) io" where
  "storage_deposit c w v mode =
     exec_contract c (w_signer w) (CONTRACT_ADDRESS c) ''storage_deposit''
       (JObj [(''registration_only'', JBool (registration_only mode))]) v"

definition storage_balance_of :: "'w client \<Rightarrow> account_id \<Rightarrow> ('w, storage_balance option) io" where
  "storage_balance_of c account =
     io_bind (view_contract c (CONTRACT_ADDRESS c) ''storage_balance_of''
       (JObj [(''account_id'', JStr account)])) (io_decode de_balance c)"

definition handle_initial_register :: "'w client \<Rightarrow> wallet \<Rightarrow> token_account list \<Rightarrow> ('w, unit) io" where
  "handle_initial_register c w to_reg =
     io_when (to_reg \<noteq> [])
       (io_bind (and_wait c (register_tokens c w to_reg)) (\<lambda>_. io_return ()))"

record normal_plan_args =
  np_account :: account_id
  np_keep :: "token_account list"
  np_max_top_up :: u128
  np_initial_deposit :: u128
  np_to_unregister :: "token_account list"
  np_to_register :: "token_account list"
  np_pre_unregister_estimate :: u128

definition CHUNK_SIZE :: nat where "CHUNK_SIZE = 10"

text \<open>Step 3 of \<^verbatim>\<open>handle_normal_plan\<close>: the candidates are checked again against fresh
  deposits and unregistered in chunks; a chunk that fails is only logged.\<close>

definition unregister_verified :: "'w client \<Rightarrow> wallet \<Rightarrow> token_account list \<Rightarrow> ('w, unit) io" where
  "unregister_verified c w verified =
     io_bind (io_mapM (\<lambda>chunk. io_try (and_wait c (unregister_tokens c w chunk)))
       (chunks CHUNK_SIZE verified)) (\<lambda>_. io_return ())"

definition unregister_stale :: "'w client \<Rightarrow> wallet \<Rightarrow> normal_plan_args \<Rightarrow> ('w, unit) io" where
  "unregister_stale c w a =
     io_when (np_to_unregister a \<noteq> [])
       (io_bind (get_deposits c (np_account a)) (\<lambda>fresh.
          unregister_verified c w (filter (\<lambda>token.
            map_of fresh token = Some 0 \<and> token \<notin> set (np_keep a)) (np_to_unregister a))))"

text \<open>Steps 6 and 7: top up, then register.\<close>

definition top_up_and_register :: "'w client \<Rightarrow> wallet \<Rightarrow> normal_plan_args \<Rightarrow> u128 \<Rightarrow> ('w, unit) io" where
  "top_up_and_register c w a actual_top_up =
     io_bind (io_when (actual_top_up \<noteq> 0)
       (io_bind (and_wait c (storage_deposit c w actual_top_up DepositWithRegistration))
          (\<lambda>_. io_return ()))) (\<lambda>_.
     io_when (np_to_register a \<noteq> [])
       (io_bind (and_wait c (register_tokens c w (np_to_register a))) (\<lambda>_. io_return ())))"

definition handle_normal_plan :: "'w client \<Rightarrow> wallet \<Rightarrow> normal_plan_args \<Rightarrow> ('w, unit) io" where
  "handle_normal_plan c w a =
     io_bind (unregister_stale c w a) (\<lambda>_.
     io_bind (storage_balance_of c (np_account a)) (\<lambda>maybe.
     io_bind (io_option (Msg ''storage balance disappeared after unregister'' []) maybe) (\<lambda>post.
     let actual_top_up = saturating_sub (np_pre_unregister_estimate a) (available post) in
     io_bind (io_expect ''initial_deposit <= max_top_up''
       (checked_sub (np_max_top_up a) (np_initial_deposit a))) (\<lambda>remaining_cap.
     if actual_top_up > remaining_cap
     then io_fail (Msg ''ref storage top-up exceeds remaining cap''
       [unat actual_top_up, unat remaining_cap, unat (np_max_top_up a), unat (np_initial_deposit a)])
     else top_up_and_register c w a actual_top_up))))"

text \<open>Step 1 of \<^verbatim>\<open>ensure_ref_storage_setup\<close>: the initial registration of the account.\<close>

definition initial_deposit :: "'w client \<Rightarrow> wallet \<Rightarrow> u128 \<Rightarrow> ('w, u128) io" where
  "initial_deposit c w max_top_up =
     io_bind (storage_balance_of c (w_account w)) (\<lambda>maybe_balance.
     case maybe_balance of
       Some _ \<Rightarrow> io_return 0
     | None \<Rightarrow> io_bind (check_bounds c) (\<lambda>bounds.
         let amount = bounds_min bounds in
         if amount > max_top_up
         then io_fail (Msg ''initial storage deposit exceeds cap'' [unat amount, unat max_top_up])
         else io_bind (and_wait c (storage_deposit c w amount RegistrationOnly))
           (\<lambda>_. io_return amount)))"

definition run_plan :: "(plan_error + plan) option \<Rightarrow> ('w, plan) io" where
  "run_plan r = (case r of
     None \<Rightarrow> io_panic ''planner''
   | Some (Inl e) \<Rightarrow> io_fail (Plan_Error e)
   | Some (Inr p) \<Rightarrow> io_return p)"

definition ensure_ref_storage_setup :: "'w client \<Rightarrow> wallet \<Rightarrow> token_account list \<Rightarrow>
    token_account list \<Rightarrow> u128 \<Rightarrow> ('w, unit) io" where
  "ensure_ref_storage_setup c w needed_tokens keep max_top_up =
     (if length needed_tokens > MAX_REGISTER_PER_CYCLE
      then io_fail (Msg ''needed_tokens exceeds MAX_REGISTER_PER_CYCLE''
        [length needed_tokens, MAX_REGISTER_PER_CYCLE])
      else
      io_bind (initial_deposit c w max_top_up) (\<lambda>initial.
      io_bind (storage_balance_of c (w_account w)) (\<lambda>maybe.
      io_bind (io_option (Msg ''storage balance disappeared after initial deposit'' []) maybe)
        (\<lambda>balance.
      io_bind (get_deposits c (w_account w)) (\<lambda>deposits.
      io_bind (check_bounds c) (\<lambda>bounds.
      io_bind (run_plan (plan \<lparr>snap_balance = balance, snap_deposits = deposits,
        snap_bounds = bounds\<rparr> needed_tokens keep)) (\<lambda>p. case p of
          InitialRegister to_reg \<Rightarrow> handle_initial_register c w to_reg
        | Normal to_unreg to_reg est \<Rightarrow> handle_normal_plan c w
            \<lparr>np_account = w_account w, np_keep = keep, np_max_top_up = max_top_up,
             np_initial_deposit = initial, np_to_unregister = to_unreg,
             np_to_register = to_reg, np_pre_unregister_estimate = est\<rparr>)))))))"

section \<open>Traces of the views\<close>

lemma emits_check_bounds [emits_intros]:
  assumes "\<And>b x. de_bounds c b = Some x \<Longrightarrow>
      Q [View (CONTRACT_ADDRESS c) ''storage_balance_bounds'' (JObj []) (Inr b)] (Ok x)"
    and "\<And>x e. Q [View (CONTRACT_ADDRESS c) ''storage_balance_bounds'' (JObj []) x] (Err e)"
  shows "emits (check_bounds c) Q"
  unfolding check_bounds_def
  by (intro emits_intros) (auto simp: assms intro!: emits_intros)

lemma emits_storage_balance_of [emits_intros]:
  assumes "\<And>b x. de_balance c b = Some x \<Longrightarrow>
      Q [View (CONTRACT_ADDRESS c) ''storage_balance_of''
        (JObj [(''account_id'', JStr account)]) (Inr b)] (Ok x)"
    and "\<And>x e. Q [View (CONTRACT_ADDRESS c) ''storage_balance_of''
        (JObj [(''account_id'', JStr account)]) x] (Err e)"
  shows "emits (storage_balance_of c account) Q"
  unfolding storage_balance_of_def
  by (intro emits_intros) (auto simp: assms intro!: emits_intros)

section \<open>What a run may do\<close>

text \<open>
  A monitor over the trace of a run. \<open>see\<close> follows the deposits the contract last reported.
  \<open>tx_ok\<close> says which transactions are allowed: storage deposits, registrations of at most one
  hundred needed tokens, and unregistrations of at most ten tokens that were last seen with a
  zero balance and are not protected; the token calls attach one yocto.
\<close>

definition see :: "'w client \<Rightarrow> (token_account, u128) btree_map \<Rightarrow> event \<Rightarrow>
    (token_account, u128) btree_map" where
  "see c d e = (case e of
     View rc m args (Inr b) \<Rightarrow>
       if rc = CONTRACT_ADDRESS c \<and> m = ''get_deposits''
       then (case de_deposits c b of Some x \<Rightarrow> btree_collect x | None \<Rightarrow> d) else d
   | _ \<Rightarrow> d)"

definition tx_ok :: "'w client \<Rightarrow> token_account set \<Rightarrow> token_account set \<Rightarrow>
    (token_account, u128) btree_map \<Rightarrow> event \<Rightarrow> bool" where
  "tx_ok c needed protected d e = (case e of
     Exec sg rc m args dep r \<Rightarrow>
       rc = CONTRACT_ADDRESS c \<and>
       (m = ''storage_deposit'' \<or>
        m = ''register_tokens'' \<and> dep = 1 \<and> length (read_token_ids args) \<le> 100 \<and>
          set (read_token_ids args) \<subseteq> needed \<or>
        m = ''unregister_tokens'' \<and> dep = 1 \<and> length (read_token_ids args) \<le> 10 \<and>
          (\<forall>t \<in> set (read_token_ids args). map_of d t = Some 0 \<and> t \<notin> protected))
   | Transfer sg rc a r \<Rightarrow> False
   | _ \<Rightarrow> True)"

fun setup_ok :: "'w client \<Rightarrow> token_account set \<Rightarrow> token_account set \<Rightarrow>
    (token_account, u128) btree_map \<Rightarrow> event list \<Rightarrow> bool" where
  "setup_ok c needed protected d [] = True"
| "setup_ok c needed protected d (e # es) \<longleftrightarrow>
     tx_ok c needed protected d e \<and> setup_ok c needed protected (see c d e) es"

definition token_calls :: "event list \<Rightarrow> nat" where
  "token_calls es =
     length (filter (\<lambda>e. is_exec ''register_tokens'' e \<or> is_exec ''unregister_tokens'' e) es)"

lemma see_simps [simp]:
  "see c d (Exec sg rc m args dep r) = d" "see c d (Wait_Success tx k) = d"
  "see c d (View rc m args (Inl e)) = d"
  "see c d (View rc m args (Inr b)) =
     (if rc = CONTRACT_ADDRESS c \<and> m = ''get_deposits''
      then (case de_deposits c b of Some x \<Rightarrow> btree_collect x | None \<Rightarrow> d) else d)"
  by (simp_all add: see_def)

lemma setup_ok_append [simp]:
  "setup_ok c n p d (es @ es') \<longleftrightarrow> setup_ok c n p d es \<and> setup_ok c n p (foldl (see c) d es) es'"
  by (induction es arbitrary: d) auto

lemma setup_ok_spent:
  "setup_ok c n p d es \<Longrightarrow> spent es = spent_on ''storage_deposit'' es + token_calls es"
proof (induction es arbitrary: d)
  case (Cons e es)
  then show ?case by (cases e) (auto simp: tx_ok_def token_calls_def)
qed (simp add: token_calls_def)

lemma tx_ok_simps [simp]:
  "tx_ok c n p d (View rc m args r)" "tx_ok c n p d (Wait_Success tx b)"
  "tx_ok c n p d (Exec sg (CONTRACT_ADDRESS c) ''storage_deposit'' args dep r')"
  "tx_ok c n p d (Exec sg (CONTRACT_ADDRESS c) ''register_tokens'' (token_ids ts) 1 r') \<longleftrightarrow>
     length ts \<le> 100 \<and> set ts \<subseteq> n"
  "tx_ok c n p d (Exec sg (CONTRACT_ADDRESS c) ''unregister_tokens'' (token_ids ts) 1 r') \<longleftrightarrow>
     length ts \<le> 10 \<and> (\<forall>t \<in> set ts. map_of d t = Some 0 \<and> t \<notin> p)"
  by (simp_all add: tx_ok_def)

text \<open>Events that leave what was seen alone can be checked one by one.\<close>

lemma setup_ok_static:
  "(\<And>e. e \<in> set es \<Longrightarrow> tx_ok c n p d e \<and> see c d e = d) \<Longrightarrow>
    setup_ok c n p d es \<and> foldl (see c) d es = d"
  by (induction es) auto

definition no_panic :: "'a outcome \<Rightarrow> bool" where
  "no_panic r = (case r of Panic _ \<Rightarrow> False | _ \<Rightarrow> True)"

lemma no_panic_simps [simp]: "no_panic (Ok x)" "no_panic (Err e)" "\<not> no_panic (Panic p)"
  by (simp_all add: no_panic_def)

lemmas storage_txs = storage_deposit_def register_tokens_def unregister_tokens_def

lemma emits_unregister_verified:
  assumes "\<forall>t \<in> set ts. map_of d t = Some 0 \<and> t \<notin> p"
  shows "emits (unregister_verified c w ts) (\<lambda>es r. no_panic r \<and>
    (\<forall>e \<in> set es. tx_ok c n p d e \<and> see c d e = d \<and> \<not> is_exec ''storage_deposit'' e \<and>
      \<not> is_exec ''register_tokens'' e))" (is "emits _ (\<lambda>es r. no_panic r \<and> (\<forall>e \<in> set es. ?P e))")
proof -
  have "emits (io_try (and_wait c (unregister_tokens c w ch)))
      (\<lambda>es r. (\<forall>e \<in> set es. ?P e) \<and> (\<exists>y. r = Ok y))" if "ch \<in> set (chunks CHUNK_SIZE ts)" for ch
  proof -
    have "length ch \<le> 10" "set ch \<subseteq> set ts"
      using that chunks_length [of ch CHUNK_SIZE ts] chunks_set [of CHUNK_SIZE ts]
      by (auto simp: CHUNK_SIZE_def)
    then show ?thesis
      unfolding storage_txs using assms by (intro emits_intros) auto
  qed
  then have "emits (io_mapM (\<lambda>ch. io_try (and_wait c (unregister_tokens c w ch)))
      (chunks CHUNK_SIZE ts)) (\<lambda>es r. (\<forall>e \<in> set es. ?P e) \<and> (\<exists>ys. r = Ok ys))"
    by (rule emits_mapM)
  then show ?thesis
    unfolding unregister_verified_def
    by (intro emits_bind, elim emits_conseq) (auto intro!: emits_return)
qed

lemma emits_unregister_stale:
  assumes "set (np_to_unregister a) \<inter> p \<subseteq> set (np_keep a)"
  shows "emits (unregister_stale c w a) (\<lambda>es r. no_panic r \<and>
    (\<forall>d. setup_ok c n p d es) \<and> spent_on ''storage_deposit'' es = 0)"
  unfolding unregister_stale_def
proof (intro emits_intros)
  fix b d assume b: "de_deposits c b = Some d"
  let ?v = "filter (\<lambda>token. map_of (btree_collect d) token = Some 0 \<and> token \<notin> set (np_keep a))
    (np_to_unregister a)"
  let ?view = "View (CONTRACT_ADDRESS c) ''get_deposits''
    (JObj [(''account_id'', JStr (np_account a))]) (Inr b)"
  have "\<forall>t \<in> set ?v. map_of (btree_collect d) t = Some 0 \<and> t \<notin> p"
    using assms by auto
  note emits_unregister_verified [OF this, of c w n]
  then have "emits (unregister_verified c w ?v) (\<lambda>es' r'. no_panic r' \<and>
      (\<forall>d. setup_ok c n p d ([?view] @ es')) \<and> spent_on ''storage_deposit'' ([?view] @ es') = 0)"
  proof (rule emits_conseq)
    fix es and r :: "unit outcome"
    assume P: "no_panic r \<and> (\<forall>e \<in> set es. tx_ok c n p (btree_collect d) e \<and>
      see c (btree_collect d) e = btree_collect d \<and> \<not> is_exec ''storage_deposit'' e \<and>
      \<not> is_exec ''register_tokens'' e)"
    then have "setup_ok c n p (btree_collect d) es" "spent_on ''storage_deposit'' es = 0"
      using setup_ok_static [of es c n p "btree_collect d"] spent_on_zero by auto
    with P b show "no_panic r \<and> (\<forall>d. setup_ok c n p d ([?view] @ es)) \<and>
      spent_on ''storage_deposit'' ([?view] @ es) = 0" by simp
  qed
  then show "after (\<lambda>fresh. unregister_verified c w (filter (\<lambda>token.
      map_of fresh token = Some 0 \<and> token \<notin> set (np_keep a)) (np_to_unregister a)))
    (\<lambda>es r. no_panic r \<and> (\<forall>d. setup_ok c n p d es) \<and> spent_on ''storage_deposit'' es = 0)
    [?view] (Ok (btree_collect d))"
    by simp
qed auto

text \<open>The end of a run that registered \<open>R\<close>: a confirmed call, or nothing to register.\<close>

definition registered :: "'w client \<Rightarrow> wallet \<Rightarrow> token_account list \<Rightarrow> event list \<Rightarrow> bool" where
  "registered c w R es \<longleftrightarrow> R = [] \<or> (\<exists>pre tx. es = pre @
     [Exec (w_signer w) (CONTRACT_ADDRESS c) ''register_tokens'' (token_ids R) 1 (Inr tx),
      Wait_Success tx True])"

lemma registered_append: "registered c w R es' \<Longrightarrow> registered c w R (es @ es')"
  unfolding registered_def by (metis append.assoc)

lemma registered_call:
  "registered c w R [Exec (w_signer w) (CONTRACT_ADDRESS c) ''register_tokens'' (token_ids R) 1
     (Inr tx), Wait_Success tx True]"
  unfolding registered_def by (metis append_Nil)

lemma registered_Nil [simp]: "registered c w [] es"
  by (simp add: registered_def)

lemma emits_register:
  assumes "length R \<le> 100" "set R \<subseteq> n"
  shows "emits (io_when (R \<noteq> []) (io_bind (and_wait c (register_tokens c w R)) (\<lambda>_. io_return ())))
    (\<lambda>es r. no_panic r \<and> (\<forall>d. setup_ok c n p d es) \<and> spent_on ''storage_deposit'' es = 0 \<and>
      (r = Ok () \<longrightarrow> registered c w R es))"
  unfolding storage_txs using assms
  by (intro emits_intros) (auto intro!: emits_return simp: registered_call)

lemma emits_initial_deposit:
  "emits (initial_deposit c w cap) (\<lambda>es r. no_panic r \<and> (\<forall>d. setup_ok c n p d es) \<and>
     spent_on ''storage_deposit'' es \<le> unat cap \<and>
     (\<forall>x. r = Ok x \<longrightarrow> x \<le> cap \<and> spent_on ''storage_deposit'' es = unat x))"
  unfolding initial_deposit_def storage_txs
  by (intro emits_intros)
    (auto split: option.splits simp: Let_def not_less word_le_nat_alt intro!: emits_intros)

lemma emits_top_up:
  "emits (io_when (x \<noteq> 0) (io_bind (and_wait c (storage_deposit c w x mode)) (\<lambda>_. io_return ())))
    (\<lambda>es r. no_panic r \<and> (\<forall>d. setup_ok c n p d es) \<and> spent_on ''storage_deposit'' es \<le> unat x)"
  unfolding storage_txs by (intro emits_intros) (auto intro!: emits_return)

text \<open>A part of a run that is allowed and pays no storage deposit.\<close>

definition quiet :: "'w client \<Rightarrow> token_account set \<Rightarrow> token_account set \<Rightarrow> event list \<Rightarrow> bool" where
  "quiet c n p es \<longleftrightarrow> (\<forall>d. setup_ok c n p d es) \<and> spent_on ''storage_deposit'' es = 0"

lemma quiet_append: "quiet c n p es \<Longrightarrow> quiet c n p es' \<Longrightarrow> quiet c n p (es @ es')"
  by (simp add: quiet_def)

lemma quiet_views:
  "emits (storage_balance_of c account) (\<lambda>es r. no_panic r \<and> quiet c n p es)"
  "emits (check_bounds c) (\<lambda>es r. no_panic r \<and> quiet c n p es)"
  by (auto intro!: emits_intros simp: quiet_def)

definition plan_done :: "'w client \<Rightarrow> wallet \<Rightarrow> token_account set \<Rightarrow> token_account set \<Rightarrow>
    normal_plan_args \<Rightarrow> event list \<Rightarrow> unit outcome \<Rightarrow> bool" where
  "plan_done c w n p a es r \<longleftrightarrow> no_panic r \<and> (\<forall>d. setup_ok c n p d es) \<and>
     unat (np_initial_deposit a) + spent_on ''storage_deposit'' es \<le> unat (np_max_top_up a) \<and>
     (r = Ok () \<longrightarrow> registered c w (np_to_register a) es)"

lemma emits_top_up_and_register:
  assumes R: "length (np_to_register a) \<le> 100" "set (np_to_register a) \<subseteq> n"
    and x: "unat (np_initial_deposit a) + unat x \<le> unat (np_max_top_up a)"
    and es: "quiet c n p es"
  shows "emits (top_up_and_register c w a x) (\<lambda>es' r. plan_done c w n p a (es @ es') r)"
  unfolding top_up_and_register_def
proof (rule emits_seq [OF emits_top_up [where n = n and p = p]])
  fix es1 :: "event list" and u :: unit
  assume 1: "no_panic (Ok u) \<and> (\<forall>d. setup_ok c n p d es1) \<and>
    spent_on ''storage_deposit'' es1 \<le> unat x"
  show "emits (io_when (np_to_register a \<noteq> [])
      (io_bind (and_wait c (register_tokens c w (np_to_register a))) (\<lambda>_. io_return ())))
    (\<lambda>es' r. plan_done c w n p a (es @ es1 @ es') r)"
    by (rule emits_conseq [OF emits_register [OF R, of c w p]])
      (use 1 x es in \<open>auto simp: plan_done_def quiet_def intro: registered_append\<close>)
qed (use x es in \<open>auto simp: plan_done_def quiet_def\<close>)

lemma emits_handle_normal_plan:
  assumes le: "np_initial_deposit a \<le> np_max_top_up a"
    and p: "set (np_to_unregister a) \<inter> p \<subseteq> set (np_keep a)"
    and R: "length (np_to_register a) \<le> 100" "set (np_to_register a) \<subseteq> n"
  shows "emits (handle_normal_plan c w a) (plan_done c w n p a)"
proof -
  obtain cap where cap: "checked_sub (np_max_top_up a) (np_initial_deposit a) = Some cap"
    "unat (np_initial_deposit a) + unat cap = unat (np_max_top_up a)"
    using le by (auto simp: checked_sub_def unat_sub word_le_nat_alt)
  have fail: "plan_done c w n p a es (Err e)" if "quiet c n p es" for es e
    using that cap(2) by (simp add: plan_done_def quiet_def)
  have stale: "emits (unregister_stale c w a) (\<lambda>es r. no_panic r \<and> quiet c n p es)"
    using emits_unregister_stale [OF p] by (simp add: quiet_def)
  show ?thesis
    unfolding handle_normal_plan_def
  proof (rule emits_seq [OF stale])
    fix es0 :: "event list" and u :: unit assume 0: "no_panic (Ok u) \<and> quiet c n p es0"
    show "emits (io_bind (storage_balance_of c (np_account a)) (\<lambda>maybe.
        io_bind (io_option (Msg ''storage balance disappeared after unregister'' []) maybe) (\<lambda>post.
        let actual_top_up = saturating_sub (np_pre_unregister_estimate a) (available post) in
        io_bind (io_expect ''initial_deposit <= max_top_up''
          (checked_sub (np_max_top_up a) (np_initial_deposit a))) (\<lambda>remaining_cap.
        if actual_top_up > remaining_cap
        then io_fail (Msg ''ref storage top-up exceeds remaining cap''
          [unat actual_top_up, unat remaining_cap, unat (np_max_top_up a),
           unat (np_initial_deposit a)])
        else top_up_and_register c w a actual_top_up))))
      (\<lambda>es' r. plan_done c w n p a (es0 @ es') r)"
    proof (rule emits_seq [OF quiet_views(1) [where n = n and p = p]])
      fix es1 maybe assume "no_panic (Ok (maybe :: storage_balance option)) \<and> quiet c n p es1"
      with 0 have q: "quiet c n p (es0 @ es1)" by (simp add: quiet_append)
      have top: "emits (top_up_and_register c w a x)
          (\<lambda>es' r. plan_done c w n p a (es0 @ es1 @ es') r)" if "x \<le> cap" for x
        using emits_top_up_and_register [OF R _ q, where x = x] that cap(2)
        by (simp add: word_le_nat_alt)
      show "emits (io_bind (io_option (Msg ''storage balance disappeared after unregister'' [])
          maybe) (\<lambda>post.
        let actual_top_up = saturating_sub (np_pre_unregister_estimate a) (available post) in
        io_bind (io_expect ''initial_deposit <= max_top_up''
          (checked_sub (np_max_top_up a) (np_initial_deposit a))) (\<lambda>remaining_cap.
        if actual_top_up > remaining_cap
        then io_fail (Msg ''ref storage top-up exceeds remaining cap''
          [unat actual_top_up, unat remaining_cap, unat (np_max_top_up a),
           unat (np_initial_deposit a)])
        else top_up_and_register c w a actual_top_up)))
        (\<lambda>es' r. plan_done c w n p a (es0 @ es1 @ es') r)"
        using fail [OF q] by (auto intro!: emits_intros top simp: cap(1) Let_def not_less)
    qed (use 0 fail in \<open>auto simp: quiet_append\<close>)
  qed (use fail in auto)
qed

text \<open>The decoded deposits fit the address space.\<close>

definition deposits_fit :: "'w client \<Rightarrow> bool" where
  "deposits_fit c \<longleftrightarrow> (\<forall>b x. de_deposits c b = Some x \<longrightarrow> length x < 2 ^ 64)"

definition dep_view :: "'w client \<Rightarrow> wallet \<Rightarrow> string \<Rightarrow> event" where
  "dep_view c w b = View (CONTRACT_ADDRESS c) ''get_deposits''
     (JObj [(''account_id'', JStr (w_account w))]) (Inr b)"

text \<open>What a run of \<^verbatim>\<open>ensure_ref_storage_setup\<close> guarantees of its events and its outcome.\<close>

definition setup_done :: "'w client \<Rightarrow> wallet \<Rightarrow> token_account list \<Rightarrow> token_account list \<Rightarrow> u128 \<Rightarrow>
    event list \<Rightarrow> unit outcome \<Rightarrow> bool" where
  "setup_done c w needed keep cap es r \<longleftrightarrow> no_panic r \<and>
     setup_ok c (set needed) (set keep \<union> set needed) [] es \<and>
     spent_on ''storage_deposit'' es \<le> unat cap \<and>
     (r = Ok () \<longrightarrow> (\<exists>pre b x post. es = pre @ dep_view c w b # post \<and> de_deposits c b = Some x \<and>
        registered c w (filter (\<lambda>t. t \<notin> fst ` set x) needed) post))"

lemma map_of_collect_None: "map_of (btree_collect x) t = None \<longleftrightarrow> t \<notin> fst ` set x"
  by (simp add: map_of_btree_collect map_of_eq_None_iff)

lemma plan_InitialRegister_iff:
  assumes "snapshot_ok s"
  shows "plan s requested keep = Some (Inr (InitialRegister R)) \<longleftrightarrow>
    snap_deposits s = [] \<and> R = requested \<and> length requested \<le> 100"
  by (auto simp: plan_refines_spec [OF assms] plan_spec_def Let_def missing_def)

lemma emits_plan_branches:
  assumes fit: "deposits_fit c" and x: "de_deposits c b = Some x"
    and init: "initial \<le> cap" and needed: "length needed \<le> 100"
    and es: "\<forall>d. setup_ok c (set needed) (set keep \<union> set needed) d es"
    "spent_on ''storage_deposit'' es = unat initial"
    and view: "es = pre @ dep_view c w b # post"
  shows "emits (io_bind (run_plan (plan \<lparr>snap_balance = bal, snap_deposits = btree_collect x,
      snap_bounds = bounds\<rparr> needed keep)) (\<lambda>p. case p of
        InitialRegister to_reg \<Rightarrow> handle_initial_register c w to_reg
      | Normal to_unreg to_reg est \<Rightarrow> handle_normal_plan c w
          \<lparr>np_account = w_account w, np_keep = keep, np_max_top_up = cap,
           np_initial_deposit = initial, np_to_unregister = to_unreg,
           np_to_register = to_reg, np_pre_unregister_estimate = est\<rparr>))
    (\<lambda>es' r. setup_done c w needed keep cap (es @ es') r)"
proof -
  let ?n = "set needed" and ?p = "set keep \<union> set needed"
  let ?s = "\<lparr>snap_balance = bal, snap_deposits = btree_collect x, snap_bounds = bounds\<rparr>"
  let ?R = "filter (\<lambda>t. t \<notin> fst ` set x) needed"
  have ok: "snapshot_ok ?s"
    using fit x btree_collect_length [of x] by (fastforce simp: snapshot_ok_def deposits_fit_def)
  have le: "unat initial \<le> unat cap" using init by (simp add: word_le_nat_alt)
  have fin: "setup_done c w needed keep cap (es @ es') r"
    if "no_panic r" "\<forall>d. setup_ok c ?n ?p d es'" "r = Ok () \<longrightarrow> registered c w ?R es'"
      "unat initial + spent_on ''storage_deposit'' es' \<le> unat cap" for es' and r :: "unit outcome"
    using that es view x registered_append [of c w ?R es' post]
    by (fastforce simp: setup_done_def)
  show ?thesis
  proof (cases "plan ?s needed keep")
    case None
    then show ?thesis by (simp add: plan_refines_spec [OF ok])
  next
    case (Some res)
    show ?thesis
    proof (cases res)
      case (Inl e)
      with Some show ?thesis
        using fin [of "Err (Plan_Error e)" "[]"] le
        by (auto simp: run_plan_def intro!: emits_intros)
    next
      case (Inr q)
      have run: "emits (case q of InitialRegister to_reg \<Rightarrow> handle_initial_register c w to_reg
          | Normal to_unreg to_reg est \<Rightarrow> handle_normal_plan c w
            \<lparr>np_account = w_account w, np_keep = keep, np_max_top_up = cap,
             np_initial_deposit = initial, np_to_unregister = to_unreg,
             np_to_register = to_reg, np_pre_unregister_estimate = est\<rparr>)
        (\<lambda>es' r. setup_done c w needed keep cap (es @ es') r)"
      proof (cases q)
        case (InitialRegister to_reg)
        with Some Inr plan_InitialRegister_iff [OF ok]
        have q: "btree_collect x = []" "to_reg = needed" by auto
        then have "?R = needed"
          using map_of_collect_None [of x] by (simp add: filter_id_conv)
        then show ?thesis
          using emits_conseq [OF emits_register [of needed ?n c w ?p] fin] needed q(2) le
          by (simp add: InitialRegister handle_initial_register_def)
      next
        case (Normal U R e)
        with Some Inr plan_Normal_iff [OF ok]
        have q: "R = ?R" "U = take (nat_ceil_div (estimate ?s needed - unat (available bal))
            (unit_cost ?s)) (removable ?s needed keep)"
          by (auto simp: missing_def domIff map_of_collect_None)
        have "set U \<inter> ?p \<subseteq> set keep"
          using removable_props(2) [OF ok] q(2) by (auto dest: in_set_takeD)
        moreover have "length R \<le> 100" "set R \<subseteq> ?n"
          using q(1) le_trans [OF length_filter_le needed] by auto
        ultimately have "emits (handle_normal_plan c w
            \<lparr>np_account = w_account w, np_keep = keep, np_max_top_up = cap,
             np_initial_deposit = initial, np_to_unregister = U,
             np_to_register = R, np_pre_unregister_estimate = e\<rparr>)
          (plan_done c w ?n ?p \<lparr>np_account = w_account w, np_keep = keep, np_max_top_up = cap,
             np_initial_deposit = initial, np_to_unregister = U,
             np_to_register = R, np_pre_unregister_estimate = e\<rparr>)"
          using init by (intro emits_handle_normal_plan) simp_all
        then show ?thesis
          by (simp add: Normal)
            (elim emits_conseq, rule fin, auto simp: plan_done_def q(1))
      qed
      with Some Inr show ?thesis by (auto simp: run_plan_def intro!: emits_intros)
    qed
  qed
qed

lemma setup_done_Err:
  "\<forall>d. setup_ok c (set needed) (set keep \<union> set needed) d es \<Longrightarrow>
    spent_on ''storage_deposit'' es \<le> unat cap \<Longrightarrow> setup_done c w needed keep cap es (Err e)"
  by (simp add: setup_done_def)

lemma emits_get_deposits_view:
  "emits (get_deposits c (w_account w)) (\<lambda>es r. quiet c n p es \<and> no_panic r \<and>
     (\<forall>m. r = Ok m \<longrightarrow> (\<exists>b x. es = [dep_view c w b] \<and> de_deposits c b = Some x \<and> m = btree_collect x)))"
  by (rule emits_get_deposits) (auto simp: quiet_def dep_view_def)

lemma emits_ensure_ref_storage_setup:
  assumes fit: "deposits_fit c"
  shows "emits (ensure_ref_storage_setup c w needed keep cap) (setup_done c w needed keep cap)"
proof (cases "length needed > MAX_REGISTER_PER_CYCLE")
  case True
  then show ?thesis
    by (auto simp: ensure_ref_storage_setup_def intro!: emits_fail setup_done_Err)
next
  case False
  let ?n = "set needed" and ?p = "set keep \<union> set needed"
  have 100: "length needed \<le> 100" using False by (simp add: MAX_REGISTER_PER_CYCLE_def)
  have paid: "\<forall>d. setup_ok c ?n ?p d (es0 @ es)" "spent_on ''storage_deposit'' (es0 @ es) = unat x"
    if "\<forall>d. setup_ok c ?n ?p d es0" "spent_on ''storage_deposit'' es0 = unat x" "quiet c ?n ?p es"
    for es0 es and x :: u128
    using that by (simp_all add: quiet_def)
  have fail: "setup_done c w needed keep cap (es0 @ es) (Err e)"
    if "\<forall>d. setup_ok c ?n ?p d es0" "spent_on ''storage_deposit'' es0 = unat x" "x \<le> cap"
      "quiet c ?n ?p es" for es0 es x e
    using paid [OF that(1,2,4)] that(3) by (auto intro: setup_done_Err simp: word_le_nat_alt)
  note seqs = emits_seq [OF quiet_views(1) [where n = ?n and p = ?p]]
    emits_seq [OF quiet_views(2) [where n = ?n and p = ?p]]
    emits_seq [OF emits_get_deposits_view [where n = ?n and p = ?p]]
  from False show ?thesis
    unfolding ensure_ref_storage_setup_def
    apply (simp only: if_False)
    apply (rule emits_seq [OF emits_initial_deposit [where n = ?n and p = ?p]])
    subgoal premises init for es0 initial
    proof -
      from init have i: "\<forall>d. setup_ok c ?n ?p d es0"
        "spent_on ''storage_deposit'' es0 = unat initial" "initial \<le> cap" by auto
      show ?thesis
        apply (rule seqs(1))
        subgoal premises bal for es1 maybe
          apply (rule emits_bind, rule emits_option)
           apply (use fail [OF i] bal in simp)
          apply (simp only: after_simps append_Nil)
          apply (rule seqs(3))
          subgoal premises dep for balance es2 deposits
            apply (rule seqs(2))
            subgoal premises bnd for es3 bounds
            proof -
              from dep obtain b x where bx: "es2 = [dep_view c w b]" "de_deposits c b = Some x"
                "deposits = btree_collect x" by auto
              have "quiet c ?n ?p (es1 @ es2 @ es3)"
                using bal dep bnd by (auto intro!: quiet_append)
              from emits_plan_branches [OF fit bx(2) i(3) 100 paid [OF i(1,2) this],
                of "es0 @ es1" w es3 balance bounds]
              show ?thesis using bx by simp
            qed
            using bal dep by (auto intro!: fail [OF i] quiet_append)
          using bal by (auto intro!: fail [OF i] quiet_append)
        by (auto intro!: fail [OF i])
    qed
    by (auto intro: setup_done_Err)
qed

section \<open>Properties\<close>

text \<open>A client whose contract always reports the planner's sample snapshot.\<close>

definition sample_client :: "unit client" where
  "sample_client =
     \<lparr>is_mainnet = True,
      c_view = (\<lambda>rc m args w. (Inr m, w)),
      c_exec = (\<lambda>sg rc m args d w. (Inr ''tx'', w)),
      c_transfer = (\<lambda>sg rc a w. (Inr ''tx'', w)),
      c_wait_success = (\<lambda>tx w. (Inr (SuccessValue ''''), w)),
      c_wait_executed = (\<lambda>tx w. (Inr (SuccessValue ''''), w)),
      c_native_amount = (\<lambda>a w. (Inr 1000, w)),
      c_gas_price = (\<lambda>w. (Inr 1, w)),
      c_now = (\<lambda>w. (100000, w)),
      de_u128 = (\<lambda>b. Some 5),
      de_bounds = (\<lambda>b. Some (snap_bounds sample_snapshot)),
      de_balance = (\<lambda>b. Some (Some (snap_balance sample_snapshot))),
      de_deposits = (\<lambda>b. Some (snap_deposits sample_snapshot))\<rparr>"

definition sample_wallet :: wallet where
  "sample_wallet = \<lparr>w_account = ''me.near'', w_signer = ''me.near''\<rparr>"

definition sample_sys :: "unit sys" where
  "sample_sys = \<lparr>world = (), trace = [], last_harvest = 0, last_harvest_time = 0,
     decimals_cache = Map.empty, decimals_failures = Map.empty\<rparr>"

definition setup_trace :: "event list" where
  "setup_trace =
    (let ex = ''v2.ref-finance.near''; me = ''me.near'';
         acc = JObj [(''account_id'', JStr ''me.near'')] in
     [View ex ''storage_balance_of'' acc (Inr ''storage_balance_of''),
      View ex ''storage_balance_of'' acc (Inr ''storage_balance_of''),
      View ex ''get_deposits'' acc (Inr ''get_deposits''),
      View ex ''storage_balance_bounds'' (JObj []) (Inr ''storage_balance_bounds''),
      View ex ''get_deposits'' acc (Inr ''get_deposits''),
      Exec me ex ''unregister_tokens'' (token_ids [TokenAccount ''c'']) 1 (Inr ''tx''),
      Wait_Success ''tx'' True,
      View ex ''storage_balance_of'' acc (Inr ''storage_balance_of''),
      Exec me ex ''storage_deposit'' (JObj [(''registration_only'', JBool False)]) 12 (Inr ''tx''),
      Wait_Success ''tx'' True,
      Exec me ex ''register_tokens'' (token_ids [TokenAccount ''e'']) 1 (Inr ''tx''),
      Wait_Success ''tx'' True])"

lemma sample_deposits_fit: "deposits_fit sample_client"
  by (simp add: deposits_fit_def sample_client_def sample_snapshot_def)

lemma sample_collect: "btree_collect (snap_deposits sample_snapshot) = snap_deposits sample_snapshot"
  by (simp add: sample_snapshot_def btree_collect_def less_token_account_def less_list_code)

lemma sample_snapshot_eq:
  "\<lparr>snap_balance = snap_balance sample_snapshot, snap_deposits = snap_deposits sample_snapshot,
    snap_bounds = snap_bounds sample_snapshot\<rparr> = sample_snapshot"
  by simp

lemmas io_simps = io_bind_def io_return_def io_fail_def io_panic_def io_try_def io_of_def
  io_option_def io_expect_def io_when_def io_call_def io_now_def io_decode_def and_wait_def
  view_contract_def exec_contract_def transfer_native_token_def wait_for_success_def
  wait_for_executed_def get_native_amount_def get_gas_price_def

lemma sample_run:
  "ensure_ref_storage_setup sample_client sample_wallet [TokenAccount ''e'', TokenAccount ''b'']
     [TokenAccount ''a''] 100 sample_sys = (Ok (), sample_sys\<lparr>trace := setup_trace\<rparr>)"
proof -
  have ch: "chunks CHUNK_SIZE [TokenAccount ''c''] = [[TokenAccount ''c'']]"
    by (simp add: chunks.simps CHUNK_SIZE_def)
  have fl: "filter (\<lambda>token. map_of (snap_deposits sample_snapshot) token = Some 0 \<and>
      token \<notin> set [TokenAccount ''a'']) [TokenAccount ''c''] = [TokenAccount ''c'']"
    by (simp add: sample_snapshot_def)
  have av: "available (snap_balance sample_snapshot) = 10" by (simp add: sample_snapshot_def)
  note defs = sample_client_def sample_wallet_def sample_sys_def setup_trace_def CONTRACT_ADDRESS_def
  show ?thesis
    unfolding ensure_ref_storage_setup_def handle_normal_plan_def top_up_and_register_def
      unregister_stale_def unregister_verified_def initial_deposit_def get_deposits_def
      check_bounds_def storage_balance_of_def storage_txs run_plan_def
    by (simp add: defs io_simps sample_collect sample_snapshot_eq sample_snapshot_plan ch
        fl [simplified] av saturating_sub_def checked_sub_def registration_only_def
        MAX_REGISTER_PER_CYCLE_def Let_def)
qed

text \<open>
  C2. Whatever the contract answers, one run of the storage setup under the configured cap
  attaches to its storage deposits, initial registration and top-up together, at most the
  configured maximum and never more than 5 NEAR, no matter what the configuration stores
  contain; beyond that it attaches one yocto to each token call. It does not panic.
\<close>

theorem storage_spend_capped:
  assumes "deposits_fit c"
    and "ensure_ref_storage_setup c w needed keep (max_top_up_from_config cfg) s = (r, s')"
  shows "\<exists>es. trace s' = trace s @ es \<and> no_panic r \<and>
    spent_on ''storage_deposit'' es \<le> unat (ref_storage_max_top_up_yoctonear cfg) \<and>
    spent_on ''storage_deposit'' es \<le> 5 * 10 ^ 24 \<and>
    spent es = spent_on ''storage_deposit'' es + token_calls es"
proof -
  obtain es where es: "trace s' = trace s @ es"
    and d: "setup_done c w needed keep (max_top_up_from_config cfg) es r"
    using emitsD [OF emits_ensure_ref_storage_setup [OF assms(1)] assms(2)] by auto
  have "unat (max_top_up_from_config cfg) \<le> unat (ref_storage_max_top_up_yoctonear cfg)"
    "unat (max_top_up_from_config cfg) \<le> unat REF_STORAGE_MAX_TOP_UP_ABSOLUTE_CEILING"
    by (simp_all add: max_top_up_from_config_def flip: word_le_nat_alt)
  moreover have "unat REF_STORAGE_MAX_TOP_UP_ABSOLUTE_CEILING = 5 * 10 ^ 24"
    by (simp add: REF_STORAGE_MAX_TOP_UP_ABSOLUTE_CEILING_def)
  ultimately have "spent_on ''storage_deposit'' es \<le> unat (ref_storage_max_top_up_yoctonear cfg)"
    "spent_on ''storage_deposit'' es \<le> 5 * 10 ^ 24"
    using d unfolding setup_done_def by linarith+
  moreover have "spent es = spent_on ''storage_deposit'' es + token_calls es" "no_panic r"
    using d setup_ok_spent unfolding setup_done_def by blast+
  ultimately show ?thesis using es by blast
qed

text \<open>
  C10. Whatever the contract answers, the transactions of one run are only storage deposits,
  registrations of at most one hundred of the needed tokens, and unregistrations of at most
  ten tokens each of which the contract last reported with a zero balance and none of which
  is protected or needed. Nothing is transferred.
\<close>

theorem storage_setup_safe:
  assumes "deposits_fit c" and "ensure_ref_storage_setup c w needed keep cap s = (r, s')"
  shows "\<exists>es. trace s' = trace s @ es \<and> setup_ok c (set needed) (set keep \<union> set needed) [] es"
  using emitsD [OF emits_ensure_ref_storage_setup [OF assms(1)] assms(2)]
  by (auto simp: setup_done_def)

theorem storage_setup_safe_witness:
  "setup_ok sample_client {TokenAccount ''e'', TokenAccount ''b''}
     {TokenAccount ''a'', TokenAccount ''e'', TokenAccount ''b''} [] setup_trace"
  using storage_setup_safe [OF sample_deposits_fit sample_run]
  by (auto simp: sample_sys_def insert_commute)



definition sample_config :: config_stores where
  "sample_config = \<lparr>config_store = [''REF_STORAGE_MAX_TOP_UP_YOCTONEAR'' \<mapsto> ''100''],
     db_store = Map.empty, env = Map.empty\<rparr>"

lemma sample_config_top_up: "ref_storage_max_top_up_yoctonear sample_config = 100"
  by (simp add: sample_config_def ref_storage_max_top_up_yoctonear_def resolve_uint_def
      resolve_with_def config_get_def parse_uint_def parse_nat_def digit_value_def)

lemma sample_max_top_up: "max_top_up_from_config sample_config = 100"
  by (simp add: max_top_up_from_config_def sample_config_top_up
      REF_STORAGE_MAX_TOP_UP_ABSOLUTE_CEILING_def)

theorem storage_spend_capped_witness:
  "\<exists>es. setup_trace = [] @ es \<and> spent_on ''storage_deposit'' es \<le> 100"
proof -
  have "ensure_ref_storage_setup sample_client sample_wallet
      [TokenAccount ''e'', TokenAccount ''b''] [TokenAccount ''a'']
      (max_top_up_from_config sample_config) sample_sys = (Ok (), sample_sys\<lparr>trace := setup_trace\<rparr>)"
    using sample_run by (simp add: sample_max_top_up)
  from storage_spend_capped [OF sample_deposits_fit this] show ?thesis
    by (auto simp: sample_config_top_up sample_sys_def)
qed

end
