(* ===== verification/Units.thy ===== *)
theory Units
  imports Decimal "HOL-Library.Multiset"
begin

text \<open>
  \<^verbatim>\<open>common/types\<close>: prices, amounts and values (\<^verbatim>\<open>near_units.rs\<close>), exchange rates and
  token amounts (\<^verbatim>\<open>token_types.rs\<close>, \<^verbatim>\<open>token_smallest_units.rs\<close>). The overloaded
  operators of the source are one definition each. Conversions to floating point are not
  part of this theory.
\<close>

section \<open>The interface of the quantities\<close>

text \<open>
  Every quantity is a wrapped decimal whose sum adds the decimals. Sums over such a quantity
  (\<^verbatim>\<open>iter::Sum\<close>, folded from zero) do not depend on the order of the summands.
\<close>

locale decimal_quantity =
  fixes mk :: "rat \<Rightarrow> 'q" and val :: "'q \<Rightarrow> rat" and zero :: 'q and add :: "'q \<Rightarrow> 'q \<Rightarrow> 'q"
  assumes val_mk: "val (mk x) = x"
    and mk_val: "mk (val q) = q"
    and zero_val: "val zero = 0"
    and add_val: "val (add p q) = val p + val q"
begin

lemma val_inject: "val p = val q \<longleftrightarrow> p = q"
  by (metis mk_val)

lemma add_commute: "add p q = add q p"
  by (simp add: add_val flip: val_inject)

lemma add_assoc: "add (add p q) r = add p (add q r)"
  by (simp add: add_val flip: val_inject)

lemma add_zero: "add zero q = q" "add q zero = q"
  by (simp_all add: add_val zero_val flip: val_inject)

lemma sum_val: "val (foldl add q qs) = val q + sum_list (map val qs)"
  by (induction qs arbitrary: q) (simp_all add: add_val add.assoc)

lemma sum_permute:
  assumes "mset qs = mset qs'"
  shows "foldl add zero qs = foldl add zero qs'"
proof -
  have "mset (map val qs) = mset (map val qs')" using assms by simp
  then have "sum_list (map val qs) = sum_list (map val qs')"
    by (metis sum_mset_sum_list)
  then show ?thesis by (simp add: sum_val flip: val_inject)
qed

end

section \<open>Prices, amounts and values\<close>

definition YOCTO_PER_NEAR :: u128 where
  "YOCTO_PER_NEAR = 1000000000000000000000000"

datatype token_price = TokenPrice (price_val: rat)
datatype yocto_amount = YoctoAmount (yocto_val: rat)
datatype near_amount = NearAmount (near_val: rat)
datatype yocto_value = YoctoValue (yv_val: rat)
datatype near_value = NearValue (nv_val: rat)
datatype token_smallest_units = TokenSmallestUnits (tsu_val: rat)

record exchange_rate =
  raw_rate :: rat
  rate_decimals :: "8 word"

record token_amount =
  smallest_units :: rat
  amount_decimals :: "8 word"

subsection \<open>\<^verbatim>\<open>TokenPrice\<close>\<close>

definition price_zero :: token_price where "price_zero = TokenPrice 0"

definition price_is_zero :: "token_price \<Rightarrow> bool" where "price_is_zero p \<longleftrightarrow> price_val p = 0"

definition price_add :: "token_price \<Rightarrow> token_price \<Rightarrow> token_price" where
  "price_add p q = TokenPrice (price_val p + price_val q)"

definition price_sub :: "token_price \<Rightarrow> token_price \<Rightarrow> token_price" where
  "price_sub p q = TokenPrice (price_val p - price_val q)"

definition price_ratio :: "bigdecimal \<Rightarrow> token_price \<Rightarrow> token_price \<Rightarrow> rat" where
  "price_ratio B p q = (if price_val q = 0 then 0 else bd_div B (price_val p) (price_val q))"

definition price_scale :: "token_price \<Rightarrow> rat \<Rightarrow> token_price" where
  "price_scale p k = TokenPrice (price_val p * k)"

definition price_div_scalar :: "bigdecimal \<Rightarrow> token_price \<Rightarrow> rat \<Rightarrow> token_price" where
  "price_div_scalar B p k = (if k = 0 then price_zero else TokenPrice (bd_div B (price_val p) k))"

definition price_div_i64 :: "bigdecimal \<Rightarrow> token_price \<Rightarrow> 64 word \<Rightarrow> token_price" where
  "price_div_i64 B p k =
     (if k = 0 then price_zero else TokenPrice (bd_div B (price_val p) (of_int (sint k))))"

definition price_sum :: "token_price list \<Rightarrow> token_price" where
  "price_sum ps = foldl price_add price_zero ps"

subsection \<open>\<^verbatim>\<open>YoctoAmount\<close>\<close>

definition yocto_zero :: yocto_amount where "yocto_zero = YoctoAmount 0"

definition yocto_from_u128 :: "u128 \<Rightarrow> yocto_amount" where
  "yocto_from_u128 x = YoctoAmount (bd_of x)"

definition yocto_to_u128 :: "bigdecimal \<Rightarrow> yocto_amount \<Rightarrow> u128" where
  "yocto_to_u128 B a = (case bd_to_u128 B (yocto_val a) of None \<Rightarrow> 0 | Some x \<Rightarrow> x)"

definition yocto_to_near :: "bigdecimal \<Rightarrow> yocto_amount \<Rightarrow> near_amount" where
  "yocto_to_near B a = NearAmount (bd_div B (yocto_val a) (bd_of YOCTO_PER_NEAR))"

definition yocto_is_zero :: "yocto_amount \<Rightarrow> bool" where "yocto_is_zero a \<longleftrightarrow> yocto_val a = 0"

definition yocto_to_value :: "yocto_amount \<Rightarrow> yocto_value" where
  "yocto_to_value a = YoctoValue (yocto_val a)"

definition yocto_to_token_amount :: "yocto_amount \<Rightarrow> token_amount" where
  "yocto_to_token_amount a = \<lparr>smallest_units = yocto_val a, amount_decimals = 24\<rparr>"

definition yocto_add :: "yocto_amount \<Rightarrow> yocto_amount \<Rightarrow> yocto_amount" where
  "yocto_add a b = YoctoAmount (yocto_val a + yocto_val b)"

definition yocto_sub :: "yocto_amount \<Rightarrow> yocto_amount \<Rightarrow> yocto_amount" where
  "yocto_sub a b = (let result = yocto_val a - yocto_val b in
     if result < 0 then yocto_zero else YoctoAmount result)"

definition yocto_ratio :: "bigdecimal \<Rightarrow> yocto_amount \<Rightarrow> yocto_amount \<Rightarrow> rat" where
  "yocto_ratio B a b = (if yocto_val b = 0 then 0 else bd_div B (yocto_val a) (yocto_val b))"

definition yocto_mul_u128 :: "yocto_amount \<Rightarrow> u128 \<Rightarrow> yocto_amount" where
  "yocto_mul_u128 a k = YoctoAmount (yocto_val a * bd_of k)"

definition yocto_scale :: "yocto_amount \<Rightarrow> rat \<Rightarrow> yocto_amount" where
  "yocto_scale a k = YoctoAmount (yocto_val a * k)"

subsection \<open>\<^verbatim>\<open>NearAmount\<close>\<close>

definition near_zero :: near_amount where "near_zero = NearAmount 0"

definition near_to_yocto :: "near_amount \<Rightarrow> yocto_amount" where
  "near_to_yocto a = YoctoAmount (near_val a * bd_of YOCTO_PER_NEAR)"

definition near_is_zero :: "near_amount \<Rightarrow> bool" where "near_is_zero a \<longleftrightarrow> near_val a = 0"

definition near_add :: "near_amount \<Rightarrow> near_amount \<Rightarrow> near_amount" where
  "near_add a b = NearAmount (near_val a + near_val b)"

definition near_sub :: "near_amount \<Rightarrow> near_amount \<Rightarrow> near_amount" where
  "near_sub a b = NearAmount (near_val a - near_val b)"

definition near_ratio :: "bigdecimal \<Rightarrow> near_amount \<Rightarrow> near_amount \<Rightarrow> rat" where
  "near_ratio B a b = (if near_val b = 0 then 0 else bd_div B (near_val a) (near_val b))"

subsection \<open>\<^verbatim>\<open>YoctoValue\<close>\<close>

definition yv_zero :: yocto_value where "yv_zero = YoctoValue 0"

definition yv_to_near :: "bigdecimal \<Rightarrow> yocto_value \<Rightarrow> near_value" where
  "yv_to_near B v = NearValue (bd_div B (yv_val v) (bd_of YOCTO_PER_NEAR))"

definition yv_to_amount :: "yocto_value \<Rightarrow> yocto_amount" where
  "yv_to_amount v = YoctoAmount (yv_val v)"

definition yv_saturating_sub :: "yocto_value \<Rightarrow> yocto_value \<Rightarrow> yocto_value" where
  "yv_saturating_sub v u = (if yv_val v \<ge> yv_val u then YoctoValue (yv_val v - yv_val u) else yv_zero)"

definition yv_is_zero :: "yocto_value \<Rightarrow> bool" where "yv_is_zero v \<longleftrightarrow> yv_val v = 0"

definition yv_add :: "yocto_value \<Rightarrow> yocto_value \<Rightarrow> yocto_value" where
  "yv_add v u = YoctoValue (yv_val v + yv_val u)"

definition yv_sub :: "yocto_value \<Rightarrow> yocto_value \<Rightarrow> yocto_value" where
  "yv_sub v u = YoctoValue (yv_val v - yv_val u)"

definition yv_ratio :: "bigdecimal \<Rightarrow> yocto_value \<Rightarrow> yocto_value \<Rightarrow> rat" where
  "yv_ratio B v u = (if yv_val u = 0 then 0 else bd_div B (yv_val v) (yv_val u))"

definition yv_div_price :: "bigdecimal \<Rightarrow> yocto_value \<Rightarrow> token_price \<Rightarrow> yocto_amount" where
  "yv_div_price B v p =
     (if price_val p = 0 then yocto_zero else YoctoAmount (bd_div B (yv_val v) (price_val p)))"

definition yv_div_amount :: "bigdecimal \<Rightarrow> yocto_value \<Rightarrow> yocto_amount \<Rightarrow> token_price" where
  "yv_div_amount B v a =
     (if yocto_val a = 0 then price_zero else TokenPrice (bd_div B (yv_val v) (yocto_val a)))"

definition yv_scale :: "yocto_value \<Rightarrow> rat \<Rightarrow> yocto_value" where
  "yv_scale v k = YoctoValue (yv_val v * k)"

subsection \<open>\<^verbatim>\<open>NearValue\<close>\<close>

definition nv_zero :: near_value where "nv_zero = NearValue 0"

definition nv_one :: near_value where "nv_one = NearValue 1"

definition nv_to_yocto :: "near_value \<Rightarrow> yocto_value" where
  "nv_to_yocto v = YoctoValue (nv_val v * bd_of YOCTO_PER_NEAR)"

definition nv_is_zero :: "near_value \<Rightarrow> bool" where "nv_is_zero v \<longleftrightarrow> nv_val v = 0"

definition nv_abs :: "near_value \<Rightarrow> near_value" where "nv_abs v = NearValue \<bar>nv_val v\<bar>"

definition nv_add :: "near_value \<Rightarrow> near_value \<Rightarrow> near_value" where
  "nv_add v u = NearValue (nv_val v + nv_val u)"

definition nv_sum :: "near_value list \<Rightarrow> near_value" where
  "nv_sum vs = foldl nv_add nv_zero vs"

definition nv_sub :: "near_value \<Rightarrow> near_value \<Rightarrow> near_value" where
  "nv_sub v u = NearValue (nv_val v - nv_val u)"

definition nv_scale :: "near_value \<Rightarrow> rat \<Rightarrow> near_value" where
  "nv_scale v k = NearValue (nv_val v * k)"

definition nv_neg :: "near_value \<Rightarrow> near_value" where "nv_neg v = NearValue (- nv_val v)"

definition nv_ratio :: "bigdecimal \<Rightarrow> near_value \<Rightarrow> near_value \<Rightarrow> rat" where
  "nv_ratio B v u = (if nv_val u = 0 then 0 else bd_div B (nv_val v) (nv_val u))"

definition nv_div_price :: "bigdecimal \<Rightarrow> near_value \<Rightarrow> token_price \<Rightarrow> near_amount" where
  "nv_div_price B v p =
     (if price_val p = 0 then near_zero else NearAmount (bd_div B (nv_val v) (price_val p)))"

definition nv_div_amount :: "bigdecimal \<Rightarrow> near_value \<Rightarrow> near_amount \<Rightarrow> token_price" where
  "nv_div_amount B v a =
     (if near_val a = 0 then price_zero else TokenPrice (bd_div B (nv_val v) (near_val a)))"

definition nv_mul_rate :: "near_value \<Rightarrow> exchange_rate \<Rightarrow> token_amount" where
  "nv_mul_rate v r =
     \<lparr>smallest_units = (if raw_rate r = 0 then 0 else nv_val v * raw_rate r),
      amount_decimals = rate_decimals r\<rparr>"

definition price_mul_yocto :: "token_price \<Rightarrow> yocto_amount \<Rightarrow> yocto_value" where
  "price_mul_yocto p a = YoctoValue (price_val p * yocto_val a)"

definition yocto_mul_price :: "yocto_amount \<Rightarrow> token_price \<Rightarrow> yocto_value" where
  "yocto_mul_price a p = YoctoValue (yocto_val a * price_val p)"

definition price_mul_near :: "token_price \<Rightarrow> near_amount \<Rightarrow> near_value" where
  "price_mul_near p a = NearValue (price_val p * near_val a)"

definition near_mul_price :: "near_amount \<Rightarrow> token_price \<Rightarrow> near_value" where
  "near_mul_price a p = NearValue (near_val a * price_val p)"

section \<open>Exchange rates and token amounts\<close>

text \<open>\<open>pow10\<close> is the loop of the source, one multiplication per decimal.\<close>

fun pow10_loop :: "nat \<Rightarrow> rat \<Rightarrow> rat" where
  "pow10_loop 0 acc = acc"
| "pow10_loop (Suc n) acc = pow10_loop n (acc * 10)"

definition pow10 :: "8 word \<Rightarrow> rat" where "pow10 n = pow10_loop (unat n) 1"

definition rate_from_raw_rate :: "rat \<Rightarrow> 8 word \<Rightarrow> exchange_rate" where
  "rate_from_raw_rate r d = \<lparr>raw_rate = r, rate_decimals = d\<rparr>"

definition rate_from_price :: "bigdecimal \<Rightarrow> token_price \<Rightarrow> 8 word \<Rightarrow> exchange_rate" where
  "rate_from_price B p d =
     (if price_is_zero p then \<lparr>raw_rate = 0, rate_decimals = d\<rparr>
      else \<lparr>raw_rate = bd_div B (pow10 d) (price_val p), rate_decimals = d\<rparr>)"

definition rate_is_zero :: "exchange_rate \<Rightarrow> bool" where "rate_is_zero r \<longleftrightarrow> raw_rate r = 0"

definition rate_to_price :: "bigdecimal \<Rightarrow> exchange_rate \<Rightarrow> token_price" where
  "rate_to_price B r =
     (if raw_rate r = 0 then price_zero
      else TokenPrice (bd_div B (pow10 (rate_decimals r)) (raw_rate r)))"

definition rate_is_effectively_zero :: "exchange_rate \<Rightarrow> bool" where
  "rate_is_effectively_zero r \<longleftrightarrow> raw_rate r < 1"

definition rate_wnear :: exchange_rate where
  "rate_wnear = \<lparr>raw_rate = bd_of YOCTO_PER_NEAR, rate_decimals = 24\<rparr>"

definition rate_scale :: "exchange_rate \<Rightarrow> rat \<Rightarrow> exchange_rate" where
  "rate_scale r k = rate_from_raw_rate (raw_rate r * k) (rate_decimals r)"

definition ta_zero :: "8 word \<Rightarrow> token_amount" where
  "ta_zero d = \<lparr>smallest_units = 0, amount_decimals = d\<rparr>"

definition ta_from_smallest_units :: "rat \<Rightarrow> 8 word \<Rightarrow> token_amount" where
  "ta_from_smallest_units x d = \<lparr>smallest_units = x, amount_decimals = d\<rparr>"

definition ta_to_whole :: "bigdecimal \<Rightarrow> token_amount \<Rightarrow> rat" where
  "ta_to_whole B a = bd_div B (smallest_units a) (pow10 (amount_decimals a))"

definition ta_is_zero :: "token_amount \<Rightarrow> bool" where "ta_is_zero a \<longleftrightarrow> smallest_units a = 0"

definition ta_to_smallest_units :: "token_amount \<Rightarrow> token_smallest_units" where
  "ta_to_smallest_units a = TokenSmallestUnits (smallest_units a)"

definition ta_div_rate :: "bigdecimal \<Rightarrow> token_amount \<Rightarrow> exchange_rate \<Rightarrow> near_value" where
  "ta_div_rate B a r =
     (if rate_is_zero r then nv_zero else NearValue (bd_div B (smallest_units a) (raw_rate r)))"

definition ta_mul_price :: "bigdecimal \<Rightarrow> token_amount \<Rightarrow> token_price \<Rightarrow> near_value" where
  "ta_mul_price B a p = NearValue (ta_to_whole B a * price_val p)"

definition ta_div_near :: "bigdecimal \<Rightarrow> token_amount \<Rightarrow> near_amount \<Rightarrow> exchange_rate" where
  "ta_div_near B a n =
     (if near_is_zero n then rate_from_raw_rate 0 (amount_decimals a)
      else rate_from_raw_rate (bd_div B (smallest_units a) (near_val n)) (amount_decimals a))"

definition tsu_zero :: token_smallest_units where "tsu_zero = TokenSmallestUnits 0"

definition tsu_from_u128 :: "u128 \<Rightarrow> token_smallest_units" where
  "tsu_from_u128 x = TokenSmallestUnits (bd_of x)"

definition tsu_with_decimals :: "token_smallest_units \<Rightarrow> 8 word \<Rightarrow> token_amount" where
  "tsu_with_decimals t d = ta_from_smallest_units (tsu_val t) d"

definition tsu_is_zero :: "token_smallest_units \<Rightarrow> bool" where "tsu_is_zero t \<longleftrightarrow> tsu_val t = 0"

definition tsu_add :: "token_smallest_units \<Rightarrow> token_smallest_units \<Rightarrow> token_smallest_units" where
  "tsu_add a b = TokenSmallestUnits (tsu_val a + tsu_val b)"

definition tsu_sub :: "token_smallest_units \<Rightarrow> token_smallest_units \<Rightarrow> token_smallest_units" where
  "tsu_sub a b = TokenSmallestUnits (tsu_val a - tsu_val b)"

definition tsu_scale :: "token_smallest_units \<Rightarrow> rat \<Rightarrow> token_smallest_units" where
  "tsu_scale a k = TokenSmallestUnits (tsu_val a * k)"

text \<open>Division of smallest units panics on zero, as the decimals do.\<close>

definition tsu_div_scalar :: "bigdecimal \<Rightarrow> token_smallest_units \<Rightarrow> rat \<Rightarrow>
    token_smallest_units option" where
  "tsu_div_scalar B a k = (if k = 0 then None else Some (TokenSmallestUnits (bd_div B (tsu_val a) k)))"

definition tsu_ratio :: "bigdecimal \<Rightarrow> token_smallest_units \<Rightarrow> token_smallest_units \<Rightarrow> rat option" where
  "tsu_ratio B a b = (if tsu_val b = 0 then None else Some (bd_div B (tsu_val a) (tsu_val b)))"

section \<open>The quantities meet the interface\<close>

interpretation price: decimal_quantity TokenPrice price_val price_zero price_add
  by unfold_locales (simp_all add: price_zero_def price_add_def)

interpretation yocto: decimal_quantity YoctoAmount yocto_val yocto_zero yocto_add
  by unfold_locales (simp_all add: yocto_zero_def yocto_add_def)

interpretation near: decimal_quantity NearAmount near_val near_zero near_add
  by unfold_locales (simp_all add: near_zero_def near_add_def)

interpretation yv: decimal_quantity YoctoValue yv_val yv_zero yv_add
  by unfold_locales (simp_all add: yv_zero_def yv_add_def)

interpretation nv: decimal_quantity NearValue nv_val nv_zero nv_add
  by unfold_locales (simp_all add: nv_zero_def nv_add_def)

interpretation tsu: decimal_quantity TokenSmallestUnits tsu_val tsu_zero tsu_add
  by unfold_locales (simp_all add: tsu_zero_def tsu_add_def)

section \<open>Round trips\<close>

lemma pow10_loop: "pow10_loop n acc = acc * 10 ^ n"
  by (induction n acc rule: pow10_loop.induct) (simp_all add: algebra_simps)

lemma pow10_eq: "pow10 d = 10 ^ unat d"
  by (simp add: pow10_def pow10_loop)

lemma pow10_pos [simp]: "0 < pow10 d"
  by (simp add: pow10_eq)

lemma bd_of_YOCTO_PER_NEAR: "bd_of YOCTO_PER_NEAR = 10 ^ 24"
  by (simp add: bd_of_def YOCTO_PER_NEAR_def)

text \<open>Two divisions, each with a small relative error, nearly cancel.\<close>

lemma relative_error_twice:
  fixes x q e D r :: rat
  assumes q: "0 < q" and D: "0 < D" and e: "0 < e" "3 * e \<le> 1"
    and r: "\<bar>r - D / q\<bar> \<le> D / q * e" and x: "\<bar>x - D / r\<bar> \<le> D / r * e"
  shows "\<bar>x - q\<bar> \<le> 3 * q * e"
proof -
  define u where "u = D / q"
  have u: "0 < u" using q D by (simp add: u_def)
  have Dq: "D = u * q" using q by (simp add: u_def)
  have rlo: "u * (1 - e) \<le> r" and rhi: "r \<le> u * (1 + e)"
    using r unfolding u_def [symmetric] by (simp_all add: abs_le_iff algebra_simps)
  have "0 < u * (1 - e)" using u e by simp
  then have r0: "0 < r" using rlo by linarith
  define v where "v = D / r"
  have v: "v * r = u * q" using r0 by (simp add: v_def Dq)
  have v0: "0 < v" using D r0 by (simp add: v_def)
  have "v * (u * (1 - e)) \<le> u * q" using mult_left_mono [OF rlo, of v] v v0 by simp
  then have vhi: "v * (1 - e) \<le> q" using u by (simp add: mult.left_commute)
  have "u * q \<le> v * (u * (1 + e))" using mult_left_mono [OF rhi, of v] v v0 by simp
  then have vlo: "q \<le> v * (1 + e)" using u by (simp add: mult.left_commute)
  have xv: "v * (1 - e) \<le> x" "x \<le> v * (1 + e)"
    using x unfolding v_def [symmetric] by (simp_all add: abs_le_iff algebra_simps)
  have "v * e \<le> v * (1 / 3)" using e v0 by (intro mult_left_mono) auto
  then have v2: "v \<le> 3 / 2 * q" using vhi by (simp add: algebra_simps)
  then have "2 * (v * e) \<le> 3 * q * e" using e by (simp add: mult_right_mono)
  then show ?thesis
    using xv vhi vlo by (simp add: abs_le_iff algebra_simps)
qed

lemma bd_div_pos:
  assumes "bigdecimal_spec B" "0 < a" "0 < b"
  shows "0 < bd_div B a b"
proof -
  have q: "0 < a / b" using assms by simp
  have "\<bar>bd_div B a b - a / b\<bar> \<le> \<bar>a / b\<bar> / 10 ^ 99"
    using assms by (intro bd_div_error) auto
  also have "\<dots> < a / b" using q by (simp only: abs_of_pos) (simp add: field_simps)
  finally show ?thesis by linarith
qed

lemma bd_div_twice:
  assumes "bigdecimal_spec B" "0 < D" "0 < q"
  shows "\<bar>bd_div B D (bd_div B D q) - q\<bar> \<le> 3 * q / 10 ^ 99"
proof -
  let ?r = "bd_div B D q" and ?e = "1 / 10 ^ 99 :: rat"
  have "\<bar>?r - D / q\<bar> \<le> \<bar>D / q\<bar> / 10 ^ 99"
    using assms by (intro bd_div_error) auto
  then have r: "\<bar>?r - D / q\<bar> \<le> D / q * ?e" using assms by simp
  have r0: "0 < ?r" using assms by (intro bd_div_pos)
  have "\<bar>bd_div B D ?r - D / ?r\<bar> \<le> \<bar>D / ?r\<bar> / 10 ^ 99"
    using assms r0 by (intro bd_div_error) auto
  then have "\<bar>bd_div B D ?r - D / ?r\<bar> \<le> D / ?r * ?e" using assms r0 by simp
  from relative_error_twice [OF assms(3,2) _ _ r this] show ?thesis by simp
qed

text \<open>
  A price turned into an exchange rate (tokens per NEAR) and back is the same price up
  to a relative error of three units in the hundredth digit, for every number of decimals.
\<close>

theorem price_rate_round_trip:
  assumes "bigdecimal_spec B" and "0 < price_val p"
  shows "rate_decimals (rate_from_price B p d) = d \<and>
    \<bar>price_val (rate_to_price B (rate_from_price B p d)) - price_val p\<bar> \<le> 3 * price_val p / 10 ^ 99"
  using bd_div_twice [OF assms(1) pow10_pos assms(2), of d] assms(2)
    bd_div_pos [OF assms(1) pow10_pos assms(2), of d]
  by (simp add: rate_from_price_def rate_to_price_def price_is_zero_def)

theorem price_rate_round_trip_witness:
  "\<bar>price_val (rate_to_price exact_decimal (rate_from_price exact_decimal (TokenPrice (1 / 5)) 6))
     - 1 / 5\<bar> \<le> 3 * (1 / 5) / 10 ^ 99"
  using price_rate_round_trip [OF exact_decimal_spec, of "TokenPrice (1 / 5)" 6] by simp

lemma decimal_digits_yocto:
  "decimal_digits 100 (bd_of (x :: u128) / 10 ^ 24)"
proof -
  have "unat x < 10 ^ 100" using unat_below [of x] by simp
  then have "\<bar>int (unat x)\<bar> < 10 ^ 100"
    by (metis abs_of_nat of_nat_less_iff of_nat_numeral of_nat_power)
  then show ?thesis
    unfolding decimal_digits_def bd_of_def
    by (intro exI [of _ "int (unat x)"] exI [of _ "- 24"]) simp
qed

lemma bd_to_u128_bd_of:
  assumes "bigdecimal_spec B"
  shows "bd_to_u128 B (bd_of (x :: u128)) = Some x"
proof -
  have fl: "\<lfloor>bd_of x\<rfloor> = int (unat x)" by (simp only: bd_of_def floor_of_nat)
  have "int (unat x) < 2 ^ 128"
    using unat_below [of x] by (metis len_num1 of_nat_less_iff of_nat_numeral of_nat_power
        len_bit0 mult_2 numeral_Bit0 numeral_One one_add_one)
  moreover have "0 \<le> bd_of x" unfolding bd_of_def by (rule of_nat_0_le_iff)
  ultimately show ?thesis
    by (simp add: bd_to_u128_eq [OF assms] fl)
qed

text \<open>
  An on-chain amount keeps every yocto through the decimal types: from \<^verbatim>\<open>u128\<close> to a yocto
  amount, to NEAR, back to yocto and to \<^verbatim>\<open>u128\<close> it is the same number.
\<close>

theorem near_yocto_round_trip:
  assumes "bigdecimal_spec B"
  shows "yocto_to_u128 B (near_to_yocto (yocto_to_near B (yocto_from_u128 x))) = x"
proof -
  have "bd_div B (bd_of x) (10 ^ 24) = bd_of x / 10 ^ 24"
    using decimal_digits_yocto by (intro bd_div_exact [OF assms]) simp_all
  then show ?thesis
    using bd_to_u128_bd_of [OF assms, of x]
    by (simp add: near_to_yocto_def yocto_to_near_def yocto_from_u128_def yocto_to_u128_def
        bd_of_YOCTO_PER_NEAR)
qed

theorem near_yocto_round_trip_witness:
  "yocto_to_u128 exact_decimal (near_to_yocto (yocto_to_near exact_decimal (yocto_from_u128 12345)))
     = 12345"
  by (rule near_yocto_round_trip [OF exact_decimal_spec])

text \<open>
  Converting a NEAR value to tokens at a rate and valuing the tokens at the same rate
  gives the value back up to the precision of the division, and exactly when the value has
  at most a hundred digits; at a zero rate both directions give zero.
\<close>

theorem valuation_round_trip:
  assumes "bigdecimal_spec B"
  shows "(raw_rate r = 0 \<longrightarrow> ta_div_rate B (nv_mul_rate v r) r = nv_zero) \<and>
    (raw_rate r \<noteq> 0 \<longrightarrow>
      \<bar>nv_val (ta_div_rate B (nv_mul_rate v r) r) - nv_val v\<bar> \<le> \<bar>nv_val v\<bar> / 10 ^ 99 \<and>
      (decimal_digits 100 (nv_val v) \<longrightarrow> ta_div_rate B (nv_mul_rate v r) r = v))"
proof -
  have "\<bar>bd_div B (nv_val v * raw_rate r) (raw_rate r) - nv_val v\<bar> \<le> \<bar>nv_val v\<bar> / 10 ^ 99"
    if "raw_rate r \<noteq> 0"
    using bd_div_error [OF assms that, of "nv_val v * raw_rate r"] that by simp
  moreover have "bd_div B (nv_val v * raw_rate r) (raw_rate r) = nv_val v"
    if "raw_rate r \<noteq> 0" "decimal_digits 100 (nv_val v)"
    using bd_div_exact [OF assms that(1), of "nv_val v * raw_rate r"] that by simp
  ultimately show ?thesis
    by (auto simp: ta_div_rate_def nv_mul_rate_def rate_is_zero_def)
qed

theorem valuation_round_trip_witness:
  "ta_div_rate exact_decimal (nv_mul_rate (NearValue 7) rate_wnear) rate_wnear = NearValue 7"
proof -
  have "decimal_digits 100 (nv_val (NearValue 7))"
    using decimal_digits_of_int [of 7 100] by simp
  moreover have "raw_rate rate_wnear \<noteq> 0"
    by (simp add: rate_wnear_def bd_of_YOCTO_PER_NEAR)
  ultimately show ?thesis
    using valuation_round_trip [OF exact_decimal_spec, of rate_wnear "NearValue 7"] by blast
qed

text \<open>
  The total of a list of NEAR values does not depend on their order, nor does the total
  of a list of prices.
\<close>

theorem totals_order_independent:
  assumes "mset vs = mset vs'" and "mset ps = mset ps'"
  shows "nv_sum vs = nv_sum vs' \<and> price_sum ps = price_sum ps'"
  using nv.sum_permute [OF assms(1)] price.sum_permute [OF assms(2)]
  by (simp add: nv_sum_def price_sum_def)

theorem totals_order_independent_witness:
  "nv_sum [NearValue 1, NearValue 2] = nv_sum [NearValue 2, NearValue 1] \<and>
   price_sum [TokenPrice 1, TokenPrice 3] = price_sum [TokenPrice 3, TokenPrice 1]"
  by (rule totals_order_independent) simp_all

end
