(* ===== verification/Balances.thy ===== *)
theory Balances
  imports Storage Units
begin

text \<open>
  \<^verbatim>\<open>ref_finance/balances.rs\<close>: keeping the WNEAR deposit on the exchange between what a
  cycle needs and a multiple of it, refilling from native NEAR and harvesting the excess.
\<close>

section \<open>Operations\<close>

definition DEFAULT_REQUIRED_BALANCE :: u128 where
  "DEFAULT_REQUIRED_BALANCE = 1000000000000000000000000"

text \<open>The parser of account identifiers is a parameter; a missing or invalid
  \<^verbatim>\<open>HARVEST_ACCOUNT_ID\<close> panics.\<close>

definition harvest_account :: "(string \<Rightarrow> account_id option) \<Rightarrow> config_stores \<Rightarrow> ('w, account_id) io" where
  "harvest_account parse_account cfg = (case harvest_account_id cfg of
     Inl _ \<Rightarrow> io_panic ''HARVEST_ACCOUNT_ID config is required''
   | Inr v \<Rightarrow> io_expect ''Failed to parse HARVEST_ACCOUNT_ID'' (parse_account v))"

definition balances_account_reserve :: "bigdecimal \<Rightarrow> config_stores \<Rightarrow> u128" where
  "balances_account_reserve B cfg =
     yocto_to_u128 B (near_to_yocto (NearAmount (bd_of (trade_account_reserve cfg))))"

definition is_time_to_harvest :: "'w client \<Rightarrow> config_stores \<Rightarrow> ('w, bool) io" where
  "is_time_to_harvest c cfg =
     io_bind io_load_last_harvest (\<lambda>last.
     io_bind (io_now c) (\<lambda>now. io_return (now - last > harvest_interval_seconds cfg)))"

definition update_last_harvest :: "'w client \<Rightarrow> ('w, unit) io" where
  "update_last_harvest c = io_bind (io_now c) io_store_last_harvest"

definition multiply_by_balance_multiplier :: "u128 \<Rightarrow> config_stores \<Rightarrow> u128" where
  "multiply_by_balance_multiplier token cfg = saturating_mul token (harvest_balance_multiplier cfg)"

definition balance_of_start_token :: "'w client \<Rightarrow> wallet \<Rightarrow> token_account \<Rightarrow> ('w, u128) io" where
  "balance_of_start_token c w token =
     io_bind (get_deposits c (w_account w)) (\<lambda>deposits.
     io_return (case map_of deposits token of Some u \<Rightarrow> u | None \<Rightarrow> 0))"

text \<open>The part shared by \<^verbatim>\<open>refill\<close> and \<^verbatim>\<open>deposit_wrap_near_to_ref\<close>: wrap up to
  \<open>wrapping\<close>, leaving the reserve in the native balance.\<close>

definition wrap_within_reserve :: "bigdecimal \<Rightarrow> 'w client \<Rightarrow> wallet \<Rightarrow> config_stores \<Rightarrow> u128 \<Rightarrow>
    ('w, u128) io" where
  "wrap_within_reserve B c w cfg wrapping =
     io_bind (get_native_amount c (w_account w)) (\<lambda>native_balance.
     let av = saturating_sub native_balance (balances_account_reserve B cfg);
         amount = (if av < wrapping then av else wrapping)
     in io_bind (io_when (amount > 0)
          (io_bind (and_wait c (wnear_wrap c w amount)) (\<lambda>_. io_return ())))
        (\<lambda>_. io_return amount))"

definition refill :: "bigdecimal \<Rightarrow> 'w client \<Rightarrow> wallet \<Rightarrow> u128 \<Rightarrow> config_stores \<Rightarrow> ('w, unit) io" where
  "refill B c w want cfg =
     io_bind (wnear_balance_of c (w_account w)) (\<lambda>wrapped_balance.
     io_bind (if wrapped_balance < want
              then wrap_within_reserve B c w cfg (saturating_sub want wrapped_balance)
              else io_return 0) (\<lambda>actual_wrapping.
     let total_deposit = saturating_add wrapped_balance actual_wrapping in
     io_when (total_deposit > 0)
       (io_bind (and_wait c (deposit c w (WNEAR_TOKEN c) total_deposit)) (\<lambda>_. io_return ()))))"

definition deposit_wrap_near_to_ref :: "bigdecimal \<Rightarrow> 'w client \<Rightarrow> wallet \<Rightarrow> u128 \<Rightarrow> config_stores \<Rightarrow>
    ('w, unit) io" where
  "deposit_wrap_near_to_ref B c w amount cfg =
     io_bind (balance_of_start_token c w (WNEAR_TOKEN c)) (\<lambda>deposited_balance.
     if deposited_balance \<ge> amount then io_return ()
     else let shortage = saturating_sub amount deposited_balance in
     io_bind (wnear_balance_of c (w_account w)) (\<lambda>wrapped_balance.
     io_bind (io_when (wrapped_balance < shortage)
       (io_bind (wrap_within_reserve B c w cfg (saturating_sub shortage wrapped_balance))
          (\<lambda>_. io_return ()))) (\<lambda>_.
     io_bind (wnear_balance_of c (w_account w)) (\<lambda>final_wrapped_balance.
     if final_wrapped_balance = 0
     then io_fail (Msg ''No wrap.near balance available to deposit'' [])
     else let deposit_amount =
            (if shortage < final_wrapped_balance then shortage else final_wrapped_balance) in
     io_bind (and_wait c (deposit c w (WNEAR_TOKEN c) deposit_amount)) (\<lambda>_. io_return ())))))"

definition harvest :: "bigdecimal \<Rightarrow> (string \<Rightarrow> account_id option) \<Rightarrow> 'w client \<Rightarrow> wallet \<Rightarrow>
    token_account \<Rightarrow> u128 \<Rightarrow> u128 \<Rightarrow> config_stores \<Rightarrow> ('w, unit) io" where
  "harvest B parse_account c w token withdraw_amount required cfg =
     (let minimum_native_balance = balances_account_reserve B cfg in
      io_bind (get_native_amount c (w_account w)) (\<lambda>before_withdraw.
      io_bind (if before_withdraw < minimum_native_balance then io_return True
               else is_time_to_harvest c cfg) (\<lambda>due.
      io_bind (if due
               then io_bind (and_wait c (withdraw c w token withdraw_amount))
                 (\<lambda>_. io_return withdraw_amount)
               else io_return 0) (\<lambda>added.
      let native_balance = saturating_add before_withdraw added;
          upper = multiply_by_balance_multiplier required cfg
      in io_bind (if upper < native_balance then is_time_to_harvest c cfg else io_return False)
        (\<lambda>time. io_when time
          (io_bind (harvest_account parse_account cfg) (\<lambda>target.
           io_bind (and_wait c (transfer_native_token c (w_signer w) target
             (saturating_sub native_balance upper))) (\<lambda>_.
           update_last_harvest c))))))))"

text \<open>\<^verbatim>\<open>start\<close>. \<open>history_max\<close> is the maximum of the recorded inputs.\<close>

definition balances_start :: "bigdecimal \<Rightarrow> (string \<Rightarrow> account_id option) \<Rightarrow> u128 \<Rightarrow> 'w client \<Rightarrow>
    wallet \<Rightarrow> token_account \<Rightarrow> u128 option \<Rightarrow> config_stores \<Rightarrow> ('w, u128) io" where
  "balances_start B parse_account history_max c w token required cfg =
     (let required_balance = (case required of
        Some r \<Rightarrow> r
      | None \<Rightarrow> if history_max = 0 then DEFAULT_REQUIRED_BALANCE else history_max) in
      io_bind (balance_of_start_token c w token) (\<lambda>deposited_wnear.
      if deposited_wnear < required_balance
      then io_bind (refill B c w (saturating_sub required_balance deposited_wnear) cfg) (\<lambda>_.
           balance_of_start_token c w token)
      else let upper = multiply_by_balance_multiplier required_balance cfg in
        io_bind (if upper < deposited_wnear
                 then io_bind (io_try (harvest B parse_account c w (WNEAR_TOKEN c)
                     (saturating_sub deposited_wnear upper) required_balance cfg)) (\<lambda>_. io_return ())
                 else io_return ()) (\<lambda>_. io_return deposited_wnear)))"

section \<open>Wrapping leaves the reserve\<close>

lemma unat_account_reserve:
  assumes "bigdecimal_spec B"
  shows "unat (balances_account_reserve B cfg) = unat (trade_account_reserve cfg) * 10 ^ 24"
proof -
  define n where "n = unat (trade_account_reserve cfg) * 10 ^ 24"
  have n: "n < 2 ^ 128" using unat_below [of "trade_account_reserve cfg"] by (simp add: n_def)
  have "bd_of (trade_account_reserve cfg) * bd_of YOCTO_PER_NEAR = of_nat n"
    unfolding bd_of_YOCTO_PER_NEAR unfolding bd_of_def n_def
    by (simp only: of_nat_mult of_nat_power of_nat_numeral)
  also have "\<dots> = bd_of (of_nat n :: u128)"
    unfolding bd_of_def unat_of_nat_u128 [OF n] by (rule refl)
  finally have "balances_account_reserve B cfg = of_nat n"
    using bd_to_u128_bd_of [OF assms, of "of_nat n"]
    by (simp only: balances_account_reserve_def near_to_yocto_def yocto_to_u128_def near_amount.sel
        yocto_amount.sel option.case)
  then have "unat (balances_account_reserve B cfg) = n" by (simp only: unat_of_nat_u128 [OF n])
  then show ?thesis unfolding n_def .
qed

text \<open>
  Every wrapping call is covered by a native balance that was read in the same run: what is
  wrapped and the reserve together do not exceed it. Nothing else attaches more than a yocto.
\<close>

definition wraps_ok :: "account_id \<Rightarrow> nat \<Rightarrow> event list \<Rightarrow> bool" where
  "wraps_ok account reserve es \<longleftrightarrow>
     (\<forall>e \<in> set es. is_exec ''near_deposit'' e \<longrightarrow>
        (\<exists>n. Native_Amount account (Inr n) \<in> set es \<and> reserve + attached e \<le> unat n)) \<and>
     (\<forall>e \<in> set es. \<not> is_exec ''near_deposit'' e \<longrightarrow> attached e \<le> 1)"

lemma wraps_ok_append: "wraps_ok a k es \<Longrightarrow> wraps_ok a k es' \<Longrightarrow> wraps_ok a k (es @ es')"
  by (fastforce simp: wraps_ok_def)

lemma wraps_ok_Nil [simp]: "wraps_ok a k []"
  by (simp add: wraps_ok_def)

abbreviation safe_wrap :: "account_id \<Rightarrow> nat \<Rightarrow> event list \<Rightarrow> 'a outcome \<Rightarrow> bool" where
  "safe_wrap a k es r \<equiv> no_panic r \<and> wraps_ok a k es"

lemma safe_wrap_seq:
  fixes m :: "('w, 'a) io" and f :: "'a \<Rightarrow> ('w, 'b) io"
  assumes "emits m (safe_wrap a k)" and "\<And>x. emits (f x) (safe_wrap a k)"
  shows "emits (io_bind m f) (safe_wrap a k)"
proof (rule emits_seq [OF assms(1)])
  fix es and x :: 'a assume "safe_wrap a k es (Ok x)"
  then show "emits (f x) (\<lambda>es' r. safe_wrap a k (es @ es') r)"
    by (intro emits_conseq [OF assms(2)]) (simp add: wraps_ok_append)
qed simp_all

lemma emits_wrap_within_reserve:
  "emits (wrap_within_reserve B c w cfg x)
     (safe_wrap (w_account w) (unat (balances_account_reserve B cfg)))"
proof -
  have "unat (balances_account_reserve B cfg) + unat a \<le> unat n"
    if "0 < a" "a \<le> saturating_sub n (balances_account_reserve B cfg)" for a n
    using that by (auto simp: word_less_nat_alt word_le_nat_alt u128_simps)
  then show ?thesis
    unfolding wrap_within_reserve_def wnear_wrap_def Let_def
    by (intro emits_intros)
      (auto simp: wraps_ok_def not_less intro!: emits_intros intro: less_imp_le)
qed

lemma safe_wrap_views:
  "emits (wnear_balance_of c account) (safe_wrap a k)"
  "emits (balance_of_start_token c w token) (safe_wrap a k)"
  "emits (and_wait c (deposit c w token amount)) (safe_wrap a k)"
  unfolding balance_of_start_token_def deposit_def
  by (auto intro!: emits_intros simp: wraps_ok_def)

lemma safe_wrap_pure:
  "emits (io_return x) (safe_wrap a k)" "emits (io_fail e) (safe_wrap a k)"
  "emits m (safe_wrap a k) \<Longrightarrow> emits (io_when b m) (safe_wrap a k)"
  by (auto intro!: emits_intros)

lemmas safe_wrap_rules = safe_wrap_seq safe_wrap_views safe_wrap_pure emits_wrap_within_reserve
  emits_if

lemma emits_refill:
  "emits (refill B c w want cfg) (safe_wrap (w_account w) (unat (balances_account_reserve B cfg)))"
  unfolding refill_def Let_def by (intro safe_wrap_rules)

lemma emits_deposit_wrap_near_to_ref:
  "emits (deposit_wrap_near_to_ref B c w amount cfg)
     (safe_wrap (w_account w) (unat (balances_account_reserve B cfg)))"
  unfolding deposit_wrap_near_to_ref_def Let_def by (intro safe_wrap_rules)


definition reserve_free_config :: config_stores where
  "reserve_free_config = \<lparr>config_store = [''TRADE_ACCOUNT_RESERVE'' \<mapsto> ''0''],
     db_store = Map.empty, env = Map.empty\<rparr>"

definition refill_trace :: "event list" where
  "refill_trace =
    (let wn = ''wrap.near''; me = ''me.near'' in
     [View wn ''ft_balance_of'' (JObj [(''account_id'', JStr me)]) (Inr ''ft_balance_of''),
      Native_Amount me (Inr 1000),
      Exec me wn ''near_deposit'' (JObj []) 15 (Inr ''tx''), Wait_Success ''tx'' True,
      Exec me wn ''ft_transfer_call'' (JObj [(''receiver_id'', JStr ''v2.ref-finance.near''),
        (''amount'', JU128 20), (''msg'', JStr '''')]) 1 (Inr ''tx''), Wait_Success ''tx'' True])"

lemma reserve_free: "trade_account_reserve reserve_free_config = 0"
  by (simp add: reserve_free_config_def trade_account_reserve_def resolve_uint_def
      resolve_with_def config_get_def parse_uint_def parse_nat_def digit_value_def)

lemma sample_refill:
  "refill exact_decimal sample_client sample_wallet 20 reserve_free_config sample_sys =
     (Ok (), sample_sys\<lparr>trace := refill_trace\<rparr>)"
proof -
  have "balances_account_reserve exact_decimal reserve_free_config = 0"
    using unat_account_reserve [OF exact_decimal_spec, of reserve_free_config] reserve_free
    by (simp add: unat_eq_zero)
  then show ?thesis
    unfolding refill_def wrap_within_reserve_def wnear_balance_of_def wnear_wrap_def deposit_def
    by (simp add: io_simps sample_client_def sample_wallet_def sample_sys_def refill_trace_def
        CONTRACT_ADDRESS_def WNEAR_TOKEN_def saturating_sub_def saturating_add_def Let_def)
qed


section \<open>Harvesting\<close>

text \<open>
  A transfer of a harvest run goes to the configured account, happens when more than the
  interval has passed since the last harvest, and leaves the upper bound in the balance the
  run computed from the native amount it read and what it withdrew.
\<close>

definition transfers_ok :: "(string \<Rightarrow> account_id option) \<Rightarrow> config_stores \<Rightarrow> wallet \<Rightarrow> u64 \<Rightarrow> u128 \<Rightarrow>
    u128 \<Rightarrow> event list \<Rightarrow> bool" where
  "transfers_ok parse_account cfg w since withdrawn required es \<longleftrightarrow>
     (\<forall>sg rc a tx. Transfer sg rc a tx \<in> set es \<longrightarrow>
        sg = w_signer w \<and>
        (\<exists>v. harvest_account_id cfg = Inr v \<and> parse_account v = Some rc) \<and>
        (\<exists>t. Clock t \<in> set es \<and> harvest_interval_seconds cfg < t - since) \<and>
        (\<exists>n. Native_Amount (w_account w) (Inr n) \<in> set es \<and>
           unat a + unat (multiply_by_balance_multiplier required cfg) \<le> unat n + unat withdrawn))"

lemma saturating_rest:
  "upper < saturating_add n x \<Longrightarrow>
    unat (saturating_sub (saturating_add n x) upper) + unat (upper :: u128) \<le> unat n + unat x"
  by (simp add: u128_simps word_less_nat_alt)

lemma runs_harvest:
  "runs (harvest B parse_account c w token amount required cfg) s (\<lambda>es r s'.
     transfers_ok parse_account cfg w (last_harvest s) amount required es \<and>
     (last_harvest s' \<noteq> last_harvest s \<longrightarrow> (\<exists>sg rc a tx.
        Transfer sg rc a (Inr tx) \<in> set es \<and> Wait_Success tx True \<in> set es)))"
proof -
  have 0: "unat (saturating_sub (saturating_add n 0) upper) + unat (upper :: u128)
      \<le> unat n + unat amount" if "upper < saturating_add n 0" for n upper
    using saturating_rest [OF that] by simp
  note [simp] = 0 saturating_rest
  show ?thesis
    unfolding harvest_def Let_def is_time_to_harvest_def update_last_harvest_def
      harvest_account_def withdraw_def
    by (intro runs_intros)
      (auto intro!: runs_intros split: sum.splits
        simp: transfers_ok_def conj_disj_distribR ex_disj_distrib)
qed


end
