(* ===== verification/Small_Near.thy ===== *)
theory Small_Near
  imports Prelude
begin

text \<open>
  \<^verbatim>\<open>blockchain/types\<close>: amounts in thousandths and millionths of a NEAR held in machine words,
  and the gas price. A \<^verbatim>\<open>NearToken\<close> is the \<^verbatim>\<open>u128\<close> of its yocto.
\<close>

section \<open>\<^verbatim>\<open>MicroNear\<close>\<close>

datatype micro_near = MicroNear (micro: u64)

definition ONE_MICRONEAR :: u128 where "ONE_MICRONEAR = 10 ^ 18"

definition micro_from_yocto :: "u128 \<Rightarrow> micro_near" where
  "micro_from_yocto y = MicroNear (ucast (y div ONE_MICRONEAR))"

definition micro_to_yocto :: "micro_near \<Rightarrow> u128" where
  "micro_to_yocto m = ucast (micro m) * ONE_MICRONEAR"

definition micro_zero :: micro_near where "micro_zero = MicroNear 0"

definition micro_one :: micro_near where "micro_one = MicroNear 1"

definition micro_add :: "micro_near \<Rightarrow> micro_near \<Rightarrow> micro_near" where
  "micro_add a b = MicroNear (micro a + micro b)"

definition micro_sub :: "micro_near \<Rightarrow> micro_near \<Rightarrow> micro_near" where
  "micro_sub a b = (if micro a < micro b then MicroNear 0 else MicroNear (micro a - micro b))"

definition micro_mul :: "micro_near \<Rightarrow> micro_near \<Rightarrow> micro_near" where
  "micro_mul a b = MicroNear (micro a * micro b)"

definition micro_div :: "micro_near \<Rightarrow> micro_near \<Rightarrow> micro_near" where
  "micro_div a b = (if micro b = 0 then micro_zero else MicroNear (micro a div micro b))"

section \<open>\<^verbatim>\<open>MilliNear\<close>\<close>

datatype milli_near = MilliNear (milli: u32)

definition ONE_MILLINEAR :: u128 where "ONE_MILLINEAR = 10 ^ 21"

definition milli_from_yocto :: "u128 \<Rightarrow> milli_near" where
  "milli_from_yocto y = MilliNear (ucast (y div ONE_MILLINEAR))"

definition milli_to_yocto :: "milli_near \<Rightarrow> u128" where
  "milli_to_yocto m = ucast (milli m) * ONE_MILLINEAR"

definition milli_zero :: milli_near where "milli_zero = MilliNear 0"

definition milli_one :: milli_near where "milli_one = MilliNear 1"

definition milli_add :: "milli_near \<Rightarrow> milli_near \<Rightarrow> milli_near" where
  "milli_add a b = MilliNear (milli a + milli b)"

definition milli_sub :: "milli_near \<Rightarrow> milli_near \<Rightarrow> milli_near" where
  "milli_sub a b = (if milli a < milli b then MilliNear 0 else MilliNear (milli a - milli b))"

text \<open>The product and the quotient are taken in 64 bits and cut back to 32.\<close>

definition milli_mul :: "milli_near \<Rightarrow> milli_near \<Rightarrow> milli_near" where
  "milli_mul a b = MilliNear (ucast ((ucast (milli a) :: u64) * ucast (milli b)))"

definition milli_div :: "milli_near \<Rightarrow> milli_near \<Rightarrow> milli_near" where
  "milli_div a b = (if milli b = 0 then milli_zero
     else MilliNear (ucast ((ucast (milli a) :: u64) div ucast (milli b))))"

definition micro_from_milli :: "milli_near \<Rightarrow> micro_near" where
  "micro_from_milli v = micro_from_yocto (milli_to_yocto v)"

section \<open>\<^verbatim>\<open>GasPrice\<close>\<close>

datatype gas_price = GasPrice (gas_price_word: u64)

definition gas_price_from_balance :: "u128 \<Rightarrow> gas_price" where
  "gas_price_from_balance b = GasPrice (ucast b)"

definition gas_price_to_balance :: "gas_price \<Rightarrow> u128" where
  "gas_price_to_balance g = ucast (gas_price_word g)"

section \<open>Order\<close>

instantiation micro_near :: linorder
begin

definition less_eq_micro_near :: "micro_near \<Rightarrow> micro_near \<Rightarrow> bool" where
  "a \<le> b \<longleftrightarrow> micro a \<le> micro b"

definition less_micro_near :: "micro_near \<Rightarrow> micro_near \<Rightarrow> bool" where
  "a < b \<longleftrightarrow> micro a < micro b"

instance
  by standard (auto simp: less_eq_micro_near_def less_micro_near_def micro_near.expand)

end

instantiation milli_near :: linorder
begin

definition less_eq_milli_near :: "milli_near \<Rightarrow> milli_near \<Rightarrow> bool" where
  "a \<le> b \<longleftrightarrow> milli a \<le> milli b"

definition less_milli_near :: "milli_near \<Rightarrow> milli_near \<Rightarrow> bool" where
  "a < b \<longleftrightarrow> milli a < milli b"

instance
  by standard (auto simp: less_eq_milli_near_def less_milli_near_def milli_near.expand)

end

section \<open>Conversions\<close>

lemma unat_micro_to_yocto [u128_simps]: "unat (micro_to_yocto m) = unat (micro m) * 10 ^ 18"
proof -
  have u: "unat (ucast (micro m) :: u128) = unat (micro m)"
    using unat_below [of "micro m"] by (simp add: unat_ucast_mod)
  have "unat (ucast (micro m) :: u128) * unat ONE_MICRONEAR < 2 ^ 128"
    using unat_below [of "micro m"] by (simp add: u ONE_MICRONEAR_def)
  then show ?thesis
    unfolding micro_to_yocto_def by (subst unat_mult_lem [THEN iffD1]) (simp_all add: u ONE_MICRONEAR_def)
qed

lemma unat_milli_to_yocto [u128_simps]: "unat (milli_to_yocto m) = unat (milli m) * 10 ^ 21"
proof -
  have u: "unat (ucast (milli m) :: u128) = unat (milli m)"
    using unat_below [of "milli m"] by (simp add: unat_ucast_mod)
  have "unat (ucast (milli m) :: u128) * unat ONE_MILLINEAR < 2 ^ 128"
    using unat_below [of "milli m"] by (simp add: u ONE_MILLINEAR_def)
  then show ?thesis
    unfolding milli_to_yocto_def by (subst unat_mult_lem [THEN iffD1]) (simp_all add: u ONE_MILLINEAR_def)
qed

lemma unat_micro_from_yocto:
  "unat (micro (micro_from_yocto y)) = unat y div 10 ^ 18 mod 2 ^ 64"
  by (simp add: micro_from_yocto_def unat_ucast_mod unat_div ONE_MICRONEAR_def)

lemma micro_to_from_yocto: "micro_from_yocto (micro_to_yocto m) = m"
proof -
  have "unat (micro (micro_from_yocto (micro_to_yocto m))) = unat (micro m)"
    using unat_below [of "micro m"] by (simp add: unat_micro_from_yocto unat_micro_to_yocto)
  then show ?thesis by (intro micro_near.expand) (simp add: word_unat_eq_iff)
qed

lemma micro_from_small_yocto: "y < ONE_MICRONEAR \<Longrightarrow> micro_from_yocto y = micro_zero"
proof -
  assume "y < ONE_MICRONEAR"
  then have "y div ONE_MICRONEAR = 0"
    by (simp add: word_less_nat_alt word_unat_eq_iff unat_div)
  then show ?thesis by (simp add: micro_from_yocto_def micro_zero_def)
qed

text \<open>
  Converting an amount in millionths of a NEAR to yocto and back loses nothing; an amount
  of yocto below 18 446 744 073 709.551616 NEAR is rounded down to a whole millionth.
\<close>

theorem micro_near_round_trip:
  "micro_from_yocto (micro_to_yocto m) = m \<and>
   unat (micro_to_yocto (micro_from_yocto y)) \<le> unat y \<and>
   (unat y < 2 ^ 64 * 10 ^ 18 \<longrightarrow> unat y < unat (micro_to_yocto (micro_from_yocto y)) + 10 ^ 18)"
proof (intro conjI impI)
  show "micro_from_yocto (micro_to_yocto m) = m" by (rule micro_to_from_yocto)
  have "unat y div 10 ^ 18 mod 2 ^ 64 \<le> unat y div 10 ^ 18" by (rule mod_less_eq_dividend)
  then have "unat y div 10 ^ 18 mod 2 ^ 64 * 10 ^ 18 \<le> unat y div 10 ^ 18 * 10 ^ 18"
    by (rule mult_le_mono1)
  also have "\<dots> \<le> unat y" by (rule div_times_less_eq_dividend)
  finally show "unat (micro_to_yocto (micro_from_yocto y)) \<le> unat y"
    by (simp only: unat_micro_to_yocto unat_micro_from_yocto)
  assume "unat y < 2 ^ 64 * 10 ^ 18"
  then have "unat y div 10 ^ 18 mod 2 ^ 64 = unat y div 10 ^ 18"
    by (simp add: less_mult_imp_div_less)
  moreover have "unat y < 10 ^ 18 + unat y div 10 ^ 18 * 10 ^ 18"
    by (rule dividend_less_div_times) simp
  ultimately show "unat y < unat (micro_to_yocto (micro_from_yocto y)) + 10 ^ 18"
    by (simp only: unat_micro_to_yocto unat_micro_from_yocto add.commute)
qed

theorem micro_near_round_trip_witness:
  "unat (2500000000000000000 :: u128) <
     unat (micro_to_yocto (micro_from_yocto 2500000000000000000)) + 10 ^ 18"
proof -
  have "unat (2500000000000000000 :: u128) < 2 ^ 64 * 10 ^ 18" by simp
  then show ?thesis using micro_near_round_trip [of micro_one "2500000000000000000"] by blast
qed

end
