(* ===== verification/Search.thy ===== *)
theory Search
  imports Small_Near
begin

text \<open>
  The search for the best input amount, \<^verbatim>\<open>search_best_path\<close> of \<^verbatim>\<open>ref_finance/path.rs\<close>. The
  function is generic in the number type: the operations it uses are the fields of the record
  \<open>number\<close>, and the types of \<^verbatim>\<open>blockchain/types\<close> are two instances. The loop need not end
  for every number type, so it is an option-valued partial function.
\<close>

section \<open>The search\<close>

record 'm number =
  n_zero :: 'm
  n_add :: "'m \<Rightarrow> 'm \<Rightarrow> 'm"
  n_sub :: "'m \<Rightarrow> 'm \<Rightarrow> 'm"
  n_mul :: "'m \<Rightarrow> 'm \<Rightarrow> 'm"
  n_div :: "'m \<Rightarrow> 'm \<Rightarrow> 'm"
  n_of :: "u128 \<Rightarrow> 'm"

definition gain_of :: "'m number \<Rightarrow> ('a \<Rightarrow> u128) \<Rightarrow> 'a option \<Rightarrow> 'm" where
  "gain_of D get_gain r = (case r of Some a \<Rightarrow> n_of D (get_gain a) | None \<Rightarrow> n_zero D)"

text \<open>\<open>evaluate\<close> asks the cache first; an error of \<open>calc_res\<close> is returned and not cached.\<close>

definition evaluate :: "'m number \<Rightarrow> ('m \<Rightarrow> 'e + 'a option) \<Rightarrow> ('a \<Rightarrow> u128) \<Rightarrow> 'm \<Rightarrow>
    ('m \<rightharpoonup> 'e + 'a option) \<Rightarrow> 'e + 'm \<times> ('m \<rightharpoonup> 'e + 'a option)" where
  "evaluate D calc_res get_gain input cache = (case cache input of
     Some r \<Rightarrow> rbind r (\<lambda>x. Inr (gain_of D get_gain x, cache))
   | None \<Rightarrow> rbind (calc_res input) (\<lambda>x.
       Inr (gain_of D get_gain x, cache(input \<mapsto> Inr x))))"

definition next_triple :: "'m::linorder number \<Rightarrow> 'm \<Rightarrow> 'm \<Rightarrow> 'm \<times> 'm \<times> 'm \<Rightarrow> 'm \<times> 'm \<times> 'm \<Rightarrow>
    'm \<times> 'm \<times> 'm" where
  "next_triple D lo hi ins gains = (case ins of (in_a, in_b, in_c) \<Rightarrow> case gains of (a, b, c) \<Rightarrow>
     let m2 = n_of D 2 in
     if b \<le> a \<and> c \<le> a then
       let step = n_div D (n_sub D in_b in_a) m2 in
       if lo < in_a then (max lo (n_sub D in_a step), in_a, n_add D in_a step)
       else (in_a, n_add D in_a step, n_add D in_a (n_mul D m2 step))
     else if a \<le> b \<and> c \<le> b then
       (n_sub D in_b (n_div D (n_sub D in_b in_a) m2), in_b,
        n_add D in_b (n_div D (n_sub D in_c in_b) m2))
     else
       let step = n_div D (n_sub D in_c in_b) m2 in
       if in_c < hi then (n_sub D in_c step, in_c, min hi (n_add D in_c step))
       else (n_sub D in_c (n_mul D m2 step), n_sub D in_c step, in_c))"

partial_function (option) search_loop :: "'m::linorder number \<Rightarrow> ('m \<Rightarrow> 'e + 'a option) \<Rightarrow>
    ('a \<Rightarrow> u128) \<Rightarrow> 'm \<Rightarrow> 'm \<Rightarrow> 'm \<times> 'm \<times> 'm \<Rightarrow> ('m \<rightharpoonup> 'e + 'a option) \<Rightarrow> ('e + 'a option) option" where
  "search_loop D calc_res get_gain lo hi ins cache = (case ins of (in_a, in_b, in_c) \<Rightarrow>
     if in_a < in_c then
       (case evaluate D calc_res get_gain in_a cache of
          Inl e \<Rightarrow> Some (Inl e)
        | Inr (a, cache1) \<Rightarrow> (case evaluate D calc_res get_gain in_b cache1 of
            Inl e \<Rightarrow> Some (Inl e)
          | Inr (b, cache2) \<Rightarrow> (case evaluate D calc_res get_gain in_c cache2 of
              Inl e \<Rightarrow> Some (Inl e)
            | Inr (c, cache3) \<Rightarrow>
                if a = b \<and> b = c \<and> a = n_zero D then Some (Inr None)
                else search_loop D calc_res get_gain lo hi
                  (next_triple D lo hi (in_a, in_b, in_c) (a, b, c)) cache3)))
     else Some (case cache in_a of Some r \<Rightarrow> r | None \<Rightarrow> Inr None))"

definition search_best_path :: "'m::linorder number \<Rightarrow> 'm \<Rightarrow> 'm \<Rightarrow> 'm \<Rightarrow> ('m \<Rightarrow> 'e + 'a option) \<Rightarrow>
    ('a \<Rightarrow> u128) \<Rightarrow> ('e + 'a option) option" where
  "search_best_path D lo average hi calc_res get_gain =
     search_loop D calc_res get_gain lo hi (lo, average, hi) Map.empty"

text \<open>The choice among three evaluated inputs: the first with the largest gain, or nothing
  when no input gains.\<close>

definition best3 :: "'m::linorder number \<Rightarrow> ('a \<Rightarrow> u128) \<Rightarrow> 'a option \<Rightarrow> 'a option \<Rightarrow> 'a option \<Rightarrow>
    'a option" where
  "best3 D get_gain ra rb rc =
     (let a = gain_of D get_gain ra; b = gain_of D get_gain rb; c = gain_of D get_gain rc in
      if a = n_zero D \<and> b = n_zero D \<and> c = n_zero D then None
      else if b \<le> a \<and> c \<le> a then ra else if a \<le> b \<and> c \<le> b then rb else rc)"

text \<open>Evaluate three inputs in order, stopping at an error, and choose.\<close>

definition three_points :: "'m::linorder number \<Rightarrow> 'm \<Rightarrow> 'm \<Rightarrow> 'm \<Rightarrow> ('m \<Rightarrow> 'e + 'a option) \<Rightarrow>
    ('a \<Rightarrow> u128) \<Rightarrow> 'e + 'a option" where
  "three_points D lo average hi calc_res get_gain =
     (if lo < hi
      then rbind (calc_res lo) (\<lambda>ra. rbind (calc_res average) (\<lambda>rb. rbind (calc_res hi) (\<lambda>rc.
        Inr (best3 D get_gain ra rb rc))))
      else Inr None)"

section \<open>Number types in which two is zero\<close>

text \<open>
  \<^verbatim>\<open>MicroNear\<close> and \<^verbatim>\<open>MilliNear\<close> read a \<^verbatim>\<open>u128\<close> as yocto, so \<^verbatim>\<open>2.into()\<close> is zero there, and a
  division by zero gives zero. The interface states just that.
\<close>

locale coarse_number =
  fixes D :: "'m::linorder number"
  assumes div_two: "n_div D x (n_of D 2) = n_zero D"
    and mul_zero: "n_mul D x (n_zero D) = n_zero D"
    and add_zero: "n_add D x (n_zero D) = x"
    and sub_zero: "n_sub D x (n_zero D) = x"
    and zero_least: "n_zero D \<le> x"
begin

text \<open>Every step has length zero: the triple collapses onto the best of its three points.\<close>

lemma next_triple_collapses:
  assumes "lo \<le> in_a" "in_c \<le> hi"
  shows "next_triple D lo hi (in_a, in_b, in_c) (a, b, c) =
    (let x = (if b \<le> a \<and> c \<le> a then in_a else if a \<le> b \<and> c \<le> b then in_b else in_c) in (x, x, x))"
  using assms by (auto simp: next_triple_def Let_def div_two mul_zero add_zero sub_zero)

lemma best3_maximal:
  "x \<in> {ra, rb, rc} \<Longrightarrow> gain_of D g x \<le> gain_of D g (best3 D g ra rb rc)"
  by (auto simp: best3_def Let_def gain_of_def zero_least)

lemma search_three_points:
  fixes calc_res :: "'m \<Rightarrow> 'e + 'a option"
  assumes le: "lo \<le> average" "average \<le> hi"
  shows "search_best_path D lo average hi calc_res get_gain =
    Some (three_points D lo average hi calc_res get_gain)"
proof (cases "lo < hi")
  case False
  then show ?thesis
    by (simp add: search_best_path_def three_points_def search_loop.simps)
next
  case lt: True
  let ?g = "gain_of D get_gain"
  show ?thesis
  proof (cases "calc_res lo")
    case (Inl e)
    with lt show ?thesis
      by (simp add: search_best_path_def three_points_def search_loop.simps evaluate_def rbind_def)
  next
    case ra: (Inr ra)
    define c1 :: "'m \<rightharpoonup> 'e + 'a option" where "c1 = [lo \<mapsto> Inr ra]"
    have e1: "evaluate D calc_res get_gain lo Map.empty = Inr (?g ra, c1)"
      by (simp add: evaluate_def rbind_def ra c1_def)
    show ?thesis
    proof (cases "calc_res average")
      case (Inl e)
      with ra have "average \<noteq> lo" by auto
      with lt e1 Inl ra show ?thesis
        by (simp add: search_best_path_def three_points_def search_loop.simps)
          (simp add: evaluate_def rbind_def c1_def)
    next
      case rb: (Inr rb)
      define c2 where "c2 = (if average = lo then c1 else c1(average \<mapsto> Inr rb))"
      have ab: "average = lo \<Longrightarrow> rb = ra" using ra rb by auto
      have e2: "evaluate D calc_res get_gain average c1 = Inr (?g rb, c2)"
        using ab by (auto simp: evaluate_def rbind_def rb c1_def c2_def)
      show ?thesis
      proof (cases "calc_res hi")
        case (Inl e)
        with rb lt have "average \<noteq> hi" "hi \<noteq> lo" by auto
        with lt e1 e2 Inl ra rb show ?thesis
          by (simp add: search_best_path_def three_points_def search_loop.simps)
            (simp add: evaluate_def rbind_def c1_def c2_def)
      next
        case rc: (Inr rc)
        define c3 where "c3 = (if average = hi then c2 else c2(hi \<mapsto> Inr rc))"
        have bc: "average = hi \<Longrightarrow> rc = rb" using rb rc by auto
        have e3: "evaluate D calc_res get_gain hi c2 = Inr (?g rc, c3)"
          using bc lt le by (auto simp: evaluate_def rbind_def rc c1_def c2_def c3_def)
        have c3: "c3 lo = Some (Inr ra)" "c3 average = Some (Inr rb)" "c3 hi = Some (Inr rc)"
          using lt le ab bc by (auto simp: c1_def c2_def c3_def)
        have stop: "search_loop D calc_res get_gain lo hi (x, x, x) c3 =
            Some (case c3 x of Some r \<Rightarrow> r | None \<Rightarrow> Inr None)" for x
          by (subst search_loop.simps) simp
        show ?thesis
          unfolding search_best_path_def
          by (subst search_loop.simps)
            (auto simp: lt e1 e2 e3 next_triple_collapses stop c3 best3_def Let_def
              three_points_def rbind_def ra rb rc)
      qed
    qed
  qed
qed

end

definition micro_number :: "micro_near number" where
  "micro_number = \<lparr>n_zero = micro_zero, n_add = micro_add, n_sub = micro_sub, n_mul = micro_mul,
     n_div = micro_div, n_of = micro_from_yocto\<rparr>"

definition milli_number :: "milli_near number" where
  "milli_number = \<lparr>n_zero = milli_zero, n_add = milli_add, n_sub = milli_sub, n_mul = milli_mul,
     n_div = milli_div, n_of = milli_from_yocto\<rparr>"

interpretation micro: coarse_number micro_number
proof
  have two: "micro_from_yocto 2 = micro_zero"
    by (rule micro_from_small_yocto) (simp add: ONE_MICRONEAR_def)
  show "n_div micro_number x (n_of micro_number 2) = n_zero micro_number" for x
    by (simp add: micro_number_def two micro_div_def) (simp add: micro_zero_def)
qed (simp_all add: micro_number_def micro_zero_def micro_mul_def micro_add_def micro_sub_def
    less_eq_micro_near_def word_coorder.extremum)

interpretation milli: coarse_number milli_number
proof
  have two: "milli_from_yocto 2 = milli_zero"
    by (simp add: milli_from_yocto_def milli_zero_def ONE_MILLINEAR_def)
  show "n_div milli_number x (n_of milli_number 2) = n_zero milli_number" for x
    by (simp add: milli_number_def two milli_div_def) (simp add: milli_zero_def)
qed (simp_all add: milli_number_def milli_zero_def milli_mul_def milli_add_def milli_sub_def
    less_eq_milli_near_def word_coorder.extremum)

section \<open>Properties\<close>

text \<open>
  For amounts in millionths of a NEAR, the only instance the program uses, the search
  returns after one round: with the lower bound, the first guess and the upper bound in order
  it evaluates exactly these three inputs, passes on the first error, and returns the one
  with the largest gain, or nothing when none of them gains a millionth of a NEAR.
\<close>

theorem search_returns_best_of_three:
  assumes "lo \<le> average" and "average \<le> hi"
  shows "search_best_path micro_number lo average hi calc_res get_gain =
      Some (three_points micro_number lo average hi calc_res get_gain) \<and>
    (\<forall>x \<in> {ra, rb, rc}. gain_of micro_number get_gain x \<le>
      gain_of micro_number get_gain (best3 micro_number get_gain ra rb rc))"
  using micro.search_three_points [OF assms] micro.best3_maximal by blast

definition sample_calc :: "micro_near \<Rightarrow> unit + u128 option" where
  "sample_calc m = Inr (Some (if m = MicroNear 4 then 9000000000000000000 else 5000000000000000000))"

theorem search_returns_best_of_three_witness:
  "search_best_path micro_number (MicroNear 1) (MicroNear 2) (MicroNear 9) sample_calc id =
     Some (three_points micro_number (MicroNear 1) (MicroNear 2) (MicroNear 9) sample_calc id)"
proof -
  have "MicroNear 1 \<le> MicroNear 2" "MicroNear 2 \<le> MicroNear 9"
    by (simp_all add: less_eq_micro_near_def)
  from search_returns_best_of_three [OF this] show ?thesis by blast
qed

text \<open>
  C22. No other input influences the result: two evaluations that agree on the bounds and the
  first guess give the same answer, whatever they say in between. The refinement around the
  best point that the comments of the loop draw never takes place, because \<^verbatim>\<open>2.into()\<close> is two
  yocto, which is zero millionths of a NEAR.
\<close>

theorem search_ignores_interior:
  assumes "lo \<le> average" and "average \<le> hi"
    and "calc_res lo = calc_res' lo" "calc_res average = calc_res' average" "calc_res hi = calc_res' hi"
  shows "search_best_path micro_number lo average hi calc_res get_gain =
    search_best_path micro_number lo average hi calc_res' get_gain"
  using assms by (simp add: micro.search_three_points three_points_def)

theorem search_ignores_interior_witness:
  "search_best_path micro_number (MicroNear 1) (MicroNear 2) (MicroNear 9) sample_calc id =
   search_best_path micro_number (MicroNear 1) (MicroNear 2) (MicroNear 9)
     (\<lambda>_. Inr (Some 5000000000000000000)) id"
  by (rule search_ignores_interior) (simp_all add: less_eq_micro_near_def sample_calc_def)

end
