(* ===== verification/Swap.thy ===== *)
theory Swap
  imports Effects
begin

text \<open>
  \<^verbatim>\<open>ref_finance/swap.rs\<close>: the swap actions of a path, the transaction that executes them and
  the amount read from its outcome. The builder is generic in the pair, as in the source: it
  takes the four operations of \<^verbatim>\<open>TokenPairLike\<close>.
\<close>

section \<open>Operations\<close>

record swap_action =
  sa_pool_id :: u32
  sa_token_in :: account_id
  sa_amount_in :: "u128 option"
  sa_token_out :: account_id
  sa_min_amount_out :: u128

record swap_arg =
  initial_in :: u128
  min_out :: u128

text \<open>\<open>None\<close> is the panic of a pair that cannot name its tokens.\<close>

fun swap_actions_loop :: "('p \<Rightarrow> u32) \<Rightarrow> ('p \<Rightarrow> token_in_account option) \<Rightarrow>
    ('p \<Rightarrow> token_out_account option) \<Rightarrow> ('p \<Rightarrow> u128 \<Rightarrow> 'e + u128) \<Rightarrow> u32 \<Rightarrow> u32 \<Rightarrow> swap_arg \<Rightarrow>
    'p list \<Rightarrow> u128 \<Rightarrow> ('e + swap_action list \<times> u128) option" where
  "swap_actions_loop pool_id token_in_id token_out_id er first_id last_id arg [] prev_out =
     Some (Inr ([], prev_out))"
| "swap_actions_loop pool_id token_in_id token_out_id er first_id last_id arg (pair # path)
     prev_out = (case er pair prev_out of
       Inl e \<Rightarrow> Some (Inl e)
     | Inr next_out \<Rightarrow> Option.bind (token_in_id pair) (\<lambda>token_in.
         Option.bind (token_out_id pair) (\<lambda>token_out.
         map_option (\<lambda>r. rbind r (\<lambda>(actions, out).
           Inr (\<lparr>sa_pool_id = pool_id pair,
                 sa_token_in = as_account_id (in_inner token_in),
                 sa_amount_in = (if pool_id pair = first_id then Some prev_out else None),
                 sa_token_out = as_account_id (out_inner token_out),
                 sa_min_amount_out = (if pool_id pair = last_id then min_out arg else 0)\<rparr> # actions,
                out)))
           (swap_actions_loop pool_id token_in_id token_out_id er first_id last_id arg path
              next_out))))"

definition build_swap_actions :: "('p \<Rightarrow> u32) \<Rightarrow> ('p \<Rightarrow> token_in_account option) \<Rightarrow>
    ('p \<Rightarrow> token_out_account option) \<Rightarrow> ('p \<Rightarrow> u128 \<Rightarrow> 'e + u128) \<Rightarrow> 'p list \<Rightarrow> swap_arg \<Rightarrow>
    ('e + swap_action list \<times> u128) option" where
  "build_swap_actions pool_id token_in_id token_out_id er path arg =
     (if path = [] then Some (Inr ([], initial_in arg))
      else swap_actions_loop pool_id token_in_id token_out_id er
        (pool_id (hd path)) (pool_id (last path)) arg path (initial_in arg))"

definition pair_swap_actions :: "bigdecimal \<Rightarrow> token_pair list \<Rightarrow> swap_arg \<Rightarrow>
    (dex_error + swap_action list \<times> u128) option" where
  "pair_swap_actions B = build_swap_actions pair_pool_id pair_token_in_id pair_token_out_id
     (pair_estimate_return B)"

definition swap_action_json :: "swap_action \<Rightarrow> json" where
  "swap_action_json a = JObj [(''pool_id'', JU32 (sa_pool_id a)), (''token_in'', JStr (sa_token_in a)),
     (''amount_in'', (case sa_amount_in a of None \<Rightarrow> JNull | Some x \<Rightarrow> JU128 x)),
     (''token_out'', JStr (sa_token_out a)), (''min_amount_out'', JU128 (sa_min_amount_out a))]"

definition run_swap :: "bigdecimal \<Rightarrow> 'w client \<Rightarrow> wallet \<Rightarrow> token_pair list \<Rightarrow> swap_arg \<Rightarrow>
    ('w, string \<times> u128) io" where
  "run_swap B c w path arg = (case pair_swap_actions B path arg of
     None \<Rightarrow> io_panic ''token of pair''
   | Some (Inl e) \<Rightarrow> io_fail (Dex_Error e)
   | Some (Inr (actions, out)) \<Rightarrow>
       io_bind (exec_contract c (w_signer w) (CONTRACT_ADDRESS c) ''swap''
         (JObj [(''actions'', JList (map swap_action_json actions))]) 1)
         (\<lambda>tx_hash. io_return (tx_hash, out)))"

definition extract_actual_output :: "(string \<Rightarrow> u128 option) \<Rightarrow> final_status \<Rightarrow> error + u128" where
  "extract_actual_output decode status = (case status of
     SuccessValue bytes \<Rightarrow> ok_or (decode bytes) Decode_Error
   | Failure e \<Rightarrow> Inl (Msg ''Transaction failed'' [])
   | _ \<Rightarrow> Inl (Msg ''Transaction did not complete'' []))"

section \<open>The actions of a path\<close>

text \<open>The amounts a chain of estimates produces, starting with the initial input.\<close>

fun chain :: "('p \<Rightarrow> u128 \<Rightarrow> 'e + u128) \<Rightarrow> 'p list \<Rightarrow> u128 \<Rightarrow> 'e + u128" where
  "chain er [] v = Inr v"
| "chain er (p # ps) v = rbind (er p v) (chain er ps)"

lemma swap_actions_loop_Inr:
  assumes "swap_actions_loop pid ti to er f l arg path v = Some (Inr (actions, out))"
  shows "length actions = length path \<and> chain er path v = Inr out \<and>
    (\<forall>i < length path. sa_pool_id (actions ! i) = pid (path ! i) \<and>
      ti (path ! i) = Some (TokenInAccount (TokenAccount (sa_token_in (actions ! i)))) \<and>
      to (path ! i) = Some (TokenOutAccount (TokenAccount (sa_token_out (actions ! i)))) \<and>
      sa_min_amount_out (actions ! i) = (if pid (path ! i) = l then min_out arg else 0) \<and>
      (sa_amount_in (actions ! i) = None \<longleftrightarrow> pid (path ! i) \<noteq> f)) \<and>
    (path \<noteq> [] \<and> pid (hd path) = f \<longrightarrow> sa_amount_in (hd actions) = Some v)"
  using assms
proof (induction path arbitrary: v actions)
  case Nil
  then show ?case by simp
next
  case (Cons p path)
  from Cons.prems obtain n a b acts where n: "er p v = Inr n" and ab: "ti p = Some a" "to p = Some b"
    and rest: "swap_actions_loop pid ti to er f l arg path n = Some (Inr (acts, out))"
    and actions: "actions = \<lparr>sa_pool_id = pid p, sa_token_in = as_account_id (in_inner a),
      sa_amount_in = (if pid p = f then Some v else None),
      sa_token_out = as_account_id (out_inner b),
      sa_min_amount_out = (if pid p = l then min_out arg else 0)\<rparr> # acts"
    by (auto split: sum.splits bind_splits simp: rbind_Inr_iff)
  from Cons.IH [OF rest] show ?case
    by (auto simp: actions n ab nth_Cons split: nat.splits)
qed

text \<open>The loop is total on pairs that name their tokens.\<close>

context token_pair_like
begin

lemma swap_actions_loop_total:
  assumes "\<forall>p \<in> set path. sound p" and "v \<noteq> 0"
  shows "\<exists>r. swap_actions_loop pool_id token_in_id token_out_id estimate_return f l arg path v =
    Some r \<and> (\<forall>e. r = Inl e \<longrightarrow> e = ZeroAmount)"
  using assms
proof (induction path arbitrary: v)
  case Nil
  then show ?case by simp
next
  case (Cons p path)
  then obtain n where n: "estimate_return p v = Inr n" using estimates by fastforce
  obtain a b where ab: "token_in_id p = Some a" "token_out_id p = Some b"
    using in_named out_named Cons.prems(1) by fastforce
  show ?case
  proof (cases "n = 0")
    case False
    with Cons.IH [of n] Cons.prems obtain r where
      r: "swap_actions_loop pool_id token_in_id token_out_id estimate_return f l arg path n = Some r"
      "\<forall>e. r = Inl e \<longrightarrow> e = ZeroAmount" by auto
    then show ?thesis by (cases r) (auto simp: n ab rbind_def)
  next
    case True
    with Cons.prems zero_refused show ?thesis
      by (cases path) (auto simp: n ab rbind_def split: sum.splits)
  qed
qed

lemma chain_calc_value:
  assumes "\<forall>p \<in> set path. sound p" and "v \<noteq> 0" and "chain estimate_return path v = Inr out"
  shows "calc_value_loop estimate_return path v = Inr out"
  using assms
proof (induction path arbitrary: v)
  case (Cons p path)
  then obtain n where n: "estimate_return p v = Inr n" "chain estimate_return path n = Inr out"
    by (auto simp: rbind_Inr_iff)
  show ?case
  proof (cases "n = 0")
    case True
    with n Cons.prems zero_refused show ?thesis by (cases path) (auto simp: rbind_Inr_iff)
  qed (use n Cons in auto)
qed simp

end

section \<open>Properties\<close>

lemma pair_swap_actions_Inr:
  assumes "pair_swap_actions B path arg = Some (Inr (actions, out))" and "path \<noteq> []"
  shows "swap_actions_loop pair_pool_id pair_token_in_id pair_token_out_id (pair_estimate_return B)
    (pair_pool_id (hd path)) (pair_pool_id (last path)) arg path (initial_in arg) =
    Some (Inr (actions, out))"
  using assms by (simp add: pair_swap_actions_def build_swap_actions_def)

text \<open>
  C17. For a path that enters its first and its last pool only once, the actions are the hops
  in order, with their pools and tokens; only the first carries an input amount, the initial
  one, and only the last a minimum output, the one asked for. The output announced is the
  value of the path.
\<close>

theorem swap_actions_of_path:
  assumes "bigdecimal_spec B" and "\<forall>t \<in> set path. pair_ok t" and "path \<noteq> []"
    and first: "\<forall>i < length path. pair_pool_id (path ! i) = pair_pool_id (hd path) \<longrightarrow> i = 0"
    and last: "\<forall>i < length path. pair_pool_id (path ! i) = pair_pool_id (last path) \<longrightarrow>
      i = length path - 1"
    and run: "pair_swap_actions B path arg = Some (Inr (actions, out))" and "initial_in arg \<noteq> 0"
  shows "length actions = length path \<and> calc_value B path (initial_in arg) = Inr out \<and>
    (\<forall>i < length path. sa_pool_id (actions ! i) = pair_pool_id (path ! i) \<and>
      pair_token_in_id (path ! i) = Some (TokenInAccount (TokenAccount (sa_token_in (actions ! i)))) \<and>
      pair_token_out_id (path ! i) =
        Some (TokenOutAccount (TokenAccount (sa_token_out (actions ! i)))) \<and>
      sa_amount_in (actions ! i) = (if i = 0 then Some (initial_in arg) else None) \<and>
      sa_min_amount_out (actions ! i) = (if i = length path - 1 then min_out arg else 0))"
proof -
  note L = swap_actions_loop_Inr [OF pair_swap_actions_Inr [OF run assms(3)]]
  have "pair_pool_id (path ! (length path - 1)) = pair_pool_id (last path)"
    using assms(3) by (simp add: last_conv_nth)
  then have lastp: "pair_pool_id (path ! i) = pair_pool_id (last path) \<longleftrightarrow> i = length path - 1"
    if "i < length path" for i using last that by blast
  have firstp: "pair_pool_id (path ! i) = pair_pool_id (hd path) \<longleftrightarrow> i = 0"
    if "i < length path" for i using first that assms(3) by (auto simp: hd_conv_nth)
  have "actions \<noteq> []" using L assms(3) by auto
  then have "sa_amount_in (actions ! 0) = Some (initial_in arg)"
    using L assms(3) by (simp add: hd_conv_nth)
  moreover have "calc_value B path (initial_in arg) = Inr out"
    using token_pair.chain_calc_value [of path B "initial_in arg" out] L assms
    by (simp add: calc_value_def)
  ultimately show ?thesis using L firstp lastp by auto
qed

definition sample_arg :: swap_arg where
  "sample_arg = \<lparr>initial_in = 100, min_out = 7\<rparr>"

definition sample_action :: swap_action where
  "sample_action = \<lparr>sa_pool_id = 7, sa_token_in = ''token_a'', sa_amount_in = Some 100,
     sa_token_out = ''wrap.near'', sa_min_amount_out = 7\<rparr>"

lemma sample_names:
  "pair_token_in_id sample_pair = Some (TokenInAccount (TokenAccount ''token_a''))"
  "pair_token_out_id sample_pair = Some (TokenOutAccount (TokenAccount ''wrap.near''))"
  "pair_token_in_id (flip_pair sample_pair) = Some (TokenInAccount (TokenAccount ''wrap.near''))"
  "pair_token_out_id (flip_pair sample_pair) = Some (TokenOutAccount (TokenAccount ''token_a''))"
  "pair_pool_id sample_pair = 7" "pair_pool_id (flip_pair sample_pair) = 7"
  by (simp_all add: pair_token_in_id_def pair_token_out_id_def pair_pool_id_def pool_token_def
      get_opt_def ok_or_def sample_pair_def sample_pool_def flip_pair_def)

lemma sample_estimates:
  "pair_estimate_return exact_decimal sample_pair 100 = Inr 10756643"
  "pair_estimate_return exact_decimal (flip_pair sample_pair) 10756643 = Inr 99"
proof -
  have ok: "pair_ok (flip_pair sample_pair)" by (rule flip_pair_ok(1) [OF sample_pair_ok])
  show "pair_estimate_return exact_decimal sample_pair 100 = Inr 10756643"
    using pair_estimate_return_ok [OF exact_decimal_spec sample_pair_ok, of 100]
    by (simp add: sample_simps)
  show "pair_estimate_return exact_decimal (flip_pair sample_pair) 10756643 = Inr 99"
    using pair_estimate_return_ok [OF exact_decimal_spec ok, of 10756643]
    by (simp add: sample_simps flip_pair_def)
qed

theorem swap_actions_of_path_witness:
  "calc_value exact_decimal [sample_pair] 100 = Inr 10756643 \<and> sa_min_amount_out sample_action = 7"
proof -
  have run: "pair_swap_actions exact_decimal [sample_pair] sample_arg =
      Some (Inr ([sample_action], 10756643))"
    by (simp add: pair_swap_actions_def build_swap_actions_def sample_arg_def sample_action_def
        sample_estimates sample_names rbind_def)
  have "\<forall>t \<in> set [sample_pair]. pair_ok t" by (simp add: sample_pair_ok)
  from swap_actions_of_path [OF exact_decimal_spec this _ _ _ run] show ?thesis
    by (simp add: sample_arg_def)
qed

text \<open>
  C23. A hop in the middle that uses the pool of the last hop is given the minimum output of
  the whole swap, and one that uses the pool of the first hop is given an input amount
  instead of taking the output of the hop before it: the code recognises the first and the
  last hop by the number of their pool.
\<close>

theorem repeated_pool_marks_middle_hop:
  assumes "pair_swap_actions B path arg = Some (Inr (actions, out))" and "i < length path"
  shows "(pair_pool_id (path ! i) = pair_pool_id (last path) \<longrightarrow>
      sa_min_amount_out (actions ! i) = min_out arg) \<and>
    (pair_pool_id (path ! i) = pair_pool_id (hd path) \<longrightarrow> sa_amount_in (actions ! i) \<noteq> None)"
proof -
  have "path \<noteq> []" using assms(2) by auto
  from swap_actions_loop_Inr [OF pair_swap_actions_Inr [OF assms(1) this]] assms(2)
  show ?thesis by auto
qed

theorem repeated_pool_marks_middle_hop_witness:
  "\<exists>actions. pair_swap_actions exact_decimal [sample_pair, flip_pair sample_pair] sample_arg =
     Some (Inr (actions, 99)) \<and> sa_min_amount_out (actions ! 0) = 7 \<and>
     sa_amount_in (actions ! 1) \<noteq> None"
proof -
  let ?p = "[sample_pair, flip_pair sample_pair]"
  obtain actions where run: "pair_swap_actions exact_decimal ?p sample_arg = Some (Inr (actions, 99))"
    by (simp add: pair_swap_actions_def build_swap_actions_def sample_arg_def
        sample_estimates sample_names rbind_def)
  show ?thesis
    using repeated_pool_marks_middle_hop [OF run, of 0] repeated_pool_marks_middle_hop [OF run, of 1]
      run by (simp add: sample_names sample_arg_def)
qed

text \<open>
  Building the actions of usable pairs from a positive amount never panics, and the only
  error is that some hop would receive nothing.
\<close>

theorem swap_actions_total:
  assumes "bigdecimal_spec B" and "\<forall>t \<in> set path. pair_ok t" and "initial_in arg \<noteq> 0"
  shows "\<exists>r. pair_swap_actions B path arg = Some r \<and> (\<forall>e. r = Inl e \<longrightarrow> e = ZeroAmount)"
  using token_pair.swap_actions_loop_total [of path B "initial_in arg"] assms
  by (cases "path = []") (simp_all add: pair_swap_actions_def build_swap_actions_def)

theorem swap_actions_total_witness:
  "\<exists>r. pair_swap_actions exact_decimal [sample_pair] sample_arg = Some r"
proof -
  have "\<forall>t \<in> set [sample_pair]. pair_ok t" by (simp add: sample_pair_ok)
  moreover have "initial_in sample_arg \<noteq> 0" by (simp add: sample_arg_def)
  ultimately show ?thesis using swap_actions_total [OF exact_decimal_spec] by blast
qed

end
