(* ===== verification/Token_Graph.thy ===== *)
theory Token_Graph
  imports Dex Ordered_Map
begin

text \<open>
  \<^verbatim>\<open>ref_finance/path\<close>: the edges of the token graph (\<^verbatim>\<open>edge.rs\<close>, \<^verbatim>\<open>edge/\<close>,
  \<^verbatim>\<open>by_token.rs\<close>) and the graph with its cache of paths (\<^verbatim>\<open>graph.rs\<close>). Rates are floating
  point; the operations the code uses are the fields of \<open>float_ops\<close> and nothing is assumed
  of them. Dijkstra's algorithm is a library function and an argument. A hash map iterated
  over is a list of entries in some fixed order. The memo tables of edges, weights and groups
  hold the values of the functions they memoise, which are modelled themselves.
\<close>

section \<open>Edges\<close>

record 'f float_ops =
  f_of_u128 :: "u128 \<Rightarrow> 'f"
  f_div :: "'f \<Rightarrow> 'f \<Rightarrow> 'f"
  f_mul :: "'f \<Rightarrow> 'f \<Rightarrow> 'f"
  f_neg :: "'f \<Rightarrow> 'f"
  f_zero :: 'f
  f_one :: 'f
  f_eq :: "'f \<Rightarrow> 'f \<Rightarrow> bool"

record 'f edge_weight =
  weight_pair_id :: "token_pair_id option"
  estimated_rate :: 'f

definition calc_rate :: "'f float_ops \<Rightarrow> u128 \<Rightarrow> u128 \<Rightarrow> 'f" where
  "calc_rate F input_value estimated_return =
     (if input_value = 0 then f_zero F
      else f_neg F (f_div F (f_of_u128 F estimated_return) (f_of_u128 F input_value)))"

definition edge_weight_new :: "'f float_ops \<Rightarrow> token_pair_id \<Rightarrow> u128 \<Rightarrow> u128 \<Rightarrow> 'f edge_weight" where
  "edge_weight_new F pid input_value estimated_return =
     \<lparr>weight_pair_id = Some pid, estimated_rate = calc_rate F input_value estimated_return\<rparr>"

definition edge_weight_default :: "'f float_ops \<Rightarrow> 'f edge_weight" where
  "edge_weight_default F = \<lparr>weight_pair_id = None, estimated_rate = f_one F\<rparr>"

text \<open>The sum of two weights multiplies the rates.\<close>

definition edge_weight_add :: "'f float_ops \<Rightarrow> 'f edge_weight \<Rightarrow> 'f edge_weight \<Rightarrow> 'f edge_weight" where
  "edge_weight_add F a b =
     \<lparr>weight_pair_id = None, estimated_rate = f_mul F (estimated_rate a) (estimated_rate b)\<rparr>"

definition edge_weight_eq :: "'f float_ops \<Rightarrow> 'f edge_weight \<Rightarrow> 'f edge_weight \<Rightarrow> bool" where
  "edge_weight_eq F a b \<longleftrightarrow> weight_pair_id a = weight_pair_id b \<and> f_eq F (estimated_rate a) (estimated_rate b)"

record edge =
  edge_pair :: token_pair
  edge_input_value :: u128
  edge_estimated_return :: u128

definition edge_weight_of :: "'f float_ops \<Rightarrow> edge \<Rightarrow> 'f edge_weight" where
  "edge_weight_of F e =
     edge_weight_new F (pair_id (edge_pair e)) (edge_input_value e) (edge_estimated_return e)"

text \<open>\<^verbatim>\<open>Iterator::position\<close>: the first index of a token.\<close>

fun position :: "'a \<Rightarrow> 'a list \<Rightarrow> nat option" where
  "position x [] = None"
| "position x (y # ys) = (if y = x then Some 0 else map_option Suc (position x ys))"

datatype graph_error =
    Graph_Dex dex_error
  | Token_Not_In_Pool token_account
  | Start_Not_Found token_in_account token_out_account
  | Goal_Not_Found token_in_account token_out_account
  | Invalid_Edge token_in_account token_out_account

definition get_token_id :: "pool_info \<Rightarrow> token_account \<Rightarrow> token_index option" where
  "get_token_id p token = map_option TokenIndex (position token (token_account_ids (bare p)))"

definition edge_get :: "bigdecimal \<Rightarrow> pool_info \<Rightarrow> token_in \<Rightarrow> token_out \<Rightarrow> graph_error + edge" where
  "edge_get B p i j = (case pool_get_pair p i j of
     Inl e \<Rightarrow> Inl (Graph_Dex e)
   | Inr pair \<Rightarrow> (case estimate_normal_return B pair of
       Inl e \<Rightarrow> Inl (Graph_Dex e)
     | Inr (input_value, estimated_return) \<Rightarrow>
         Inr \<lparr>edge_pair = pair, edge_input_value = input_value,
              edge_estimated_return = estimated_return\<rparr>))"

definition get_by_ids :: "bigdecimal \<Rightarrow> pool_info \<Rightarrow> token_in_account \<Rightarrow> token_out_account \<Rightarrow>
    graph_error + edge" where
  "get_by_ids B p token_in token_out = (case get_token_id p (in_inner token_in) of
     None \<Rightarrow> Inl (Token_Not_In_Pool (in_inner token_in))
   | Some i \<Rightarrow> (case get_token_id p (out_inner token_out) of
       None \<Rightarrow> Inl (Token_Not_In_Pool (out_inner token_out))
     | Some j \<Rightarrow> edge_get B p (TokenIn i) (TokenOut j)))"

section \<open>The edges between two tokens\<close>

text \<open>
  \<^verbatim>\<open>PathEdges\<close>: a heap of edges with the same two tokens, the largest estimated return on top.
  \<open>push\<close> refuses an edge with other tokens.
\<close>

record path_edges =
  token_in_out :: "token_in_account \<times> token_out_account"
  heap :: "edge list"

definition path_edges_new :: "token_in_account \<Rightarrow> token_out_account \<Rightarrow> path_edges" where
  "path_edges_new i j = \<lparr>token_in_out = (i, j), heap = []\<rparr>"

definition path_edges_push :: "path_edges \<Rightarrow> edge \<Rightarrow> (dex_error + path_edges) option" where
  "path_edges_push ps e =
     Option.bind (pair_token_in_id (edge_pair e)) (\<lambda>i.
     Option.bind (pair_token_out_id (edge_pair e)) (\<lambda>j.
     Some (if token_in_out ps \<noteq> (i, j) then Inl (UnmatchedTokenPath (token_in_out ps) (i, j))
           else Inr (ps\<lparr>heap := e # heap ps\<rparr>))))"

fun max_edge :: "edge \<Rightarrow> edge list \<Rightarrow> edge" where
  "max_edge e [] = e"
| "max_edge e (x # xs) =
     max_edge (if edge_estimated_return e < edge_estimated_return x then x else e) xs"

definition at_top :: "path_edges \<Rightarrow> edge option" where
  "at_top ps = (case heap ps of [] \<Rightarrow> None | e # es \<Rightarrow> Some (max_edge e es))"

section \<open>Pools by token\<close>

text \<open>\<^verbatim>\<open>PoolsByToken\<close>: for each token the simple pools that hold it, one entry per occurrence.\<close>

definition insert_pool :: "pool_info \<Rightarrow> token_account \<Rightarrow> (token_account, pool_info list) btree_map \<Rightarrow>
    (token_account, pool_info list) btree_map" where
  "insert_pool p token m =
     btree_insert token ((case map_of m token of None \<Rightarrow> [] | Some ps \<Rightarrow> ps) @ [p]) m"

definition pools_by_token_new :: "pool_info_list \<Rightarrow> (token_account, pool_info list) btree_map" where
  "pools_by_token_new pools =
     fold (\<lambda>p m. fold (insert_pool p) (token_account_ids (bare p)) m)
       (filter is_simple (pool_list pools)) []"

definition by_token_tokens :: "(token_account, pool_info list) btree_map \<Rightarrow> token_account list" where
  "by_token_tokens m = map fst m"

text \<open>One step of \<^verbatim>\<open>group_by_out\<close>: the edge of one pool to one of its tokens is pushed into the
  group of that token; a pool without such an edge is skipped. The \<^verbatim>\<open>expect\<close> is the panic.\<close>

definition add_to_group :: "bigdecimal \<Rightarrow> token_account \<Rightarrow> pool_info \<Rightarrow> token_account \<Rightarrow>
    (token_account, path_edges) btree_map \<Rightarrow> (token_account, path_edges) btree_map option" where
  "add_to_group B token_in p token_out groups =
     (case get_by_ids B p (to_in token_in) (to_out token_out) of
        Inl _ \<Rightarrow> Some groups
      | Inr e \<Rightarrow> (case path_edges_push (case map_of groups token_out of
            Some g \<Rightarrow> g | None \<Rightarrow> path_edges_new (to_in token_in) (to_out token_out)) e of
          Some (Inr g) \<Rightarrow> Some (btree_insert token_out g groups)
        | _ \<Rightarrow> None))"

fun group_pool :: "bigdecimal \<Rightarrow> token_account \<Rightarrow> pool_info \<Rightarrow> token_account list \<Rightarrow>
    (token_account, path_edges) btree_map \<Rightarrow> (token_account, path_edges) btree_map option" where
  "group_pool B token_in p [] groups = Some groups"
| "group_pool B token_in p (t # ts) groups =
     (if t = token_in then group_pool B token_in p ts groups
      else Option.bind (add_to_group B token_in p t groups) (group_pool B token_in p ts))"

fun group_pools :: "bigdecimal \<Rightarrow> token_account \<Rightarrow> pool_info list \<Rightarrow>
    (token_account, path_edges) btree_map \<Rightarrow> (token_account, path_edges) btree_map option" where
  "group_pools B token_in [] groups = Some groups"
| "group_pools B token_in (p # ps) groups =
     Option.bind (group_pool B token_in p (token_account_ids (bare p)) groups)
       (group_pools B token_in ps)"

definition group_by_out :: "bigdecimal \<Rightarrow> (token_account, pool_info list) btree_map \<Rightarrow>
    token_account \<Rightarrow> (token_account, path_edges) btree_map option" where
  "group_by_out B by_in token_in = (case map_of by_in token_in of
     None \<Rightarrow> Some []
   | Some ps \<Rightarrow> group_pools B token_in ps [])"

section \<open>The graph\<close>

text \<open>
  \<^verbatim>\<open>CachedPath\<close>. A node is its token; an edge is its two ends with its weight; the cache maps
  a start to the intermediate tokens on the way to each reachable token.
\<close>

record 'f cached_path =
  cp_nodes :: "token_account list"
  cp_edges :: "(token_account \<times> token_account \<times> 'f edge_weight) list"
  cp_cached :: "token_in_account \<rightharpoonup> (token_out_account \<times> token_account list) list"

record 'f token_graph =
  tg_pools :: pool_info_list
  tg_graph :: "'f cached_path"

definition edges_to :: "'f float_ops \<Rightarrow> token_account list \<Rightarrow> token_account \<Rightarrow>
    (token_account, path_edges) btree_map \<Rightarrow> (token_account \<times> token_account \<times> 'f edge_weight) list" where
  "edges_to F nodes token_in groups =
     concat (map (\<lambda>(token_out, es). case at_top es of
       None \<Rightarrow> []
     | Some e \<Rightarrow> if token_out \<in> set nodes then [(token_in, token_out, edge_weight_of F e)] else [])
       groups)"

fun edges_from :: "'f float_ops \<Rightarrow> bigdecimal \<Rightarrow> (token_account, pool_info list) btree_map \<Rightarrow>
    token_account list \<Rightarrow> token_account list \<Rightarrow>
    (token_account \<times> token_account \<times> 'f edge_weight) list option" where
  "edges_from F B by_in nodes [] = Some []"
| "edges_from F B by_in nodes (t # ts) =
     Option.bind (group_by_out B by_in t) (\<lambda>groups.
     map_option (\<lambda>es. edges_to F nodes t groups @ es) (edges_from F B by_in nodes ts))"

definition cached_path_new :: "'f float_ops \<Rightarrow> bigdecimal \<Rightarrow> pool_info_list \<Rightarrow> 'f cached_path option" where
  "cached_path_new F B pools =
     (let by_in = pools_by_token_new pools; nodes = by_token_tokens by_in in
      map_option (\<lambda>es. \<lparr>cp_nodes = nodes, cp_edges = es, cp_cached = Map.empty\<rparr>)
        (edges_from F B by_in nodes nodes))"

definition token_graph_new :: "'f float_ops \<Rightarrow> bigdecimal \<Rightarrow> pool_info_list \<Rightarrow> 'f token_graph option" where
  "token_graph_new F B pools =
     map_option (\<lambda>g. \<lparr>tg_pools = pools, tg_graph = g\<rparr>) (cached_path_new F B pools)"

definition node_index :: "'f cached_path \<Rightarrow> token_account \<Rightarrow> graph_error + token_account" where
  "node_index cp token = (if token \<in> set (cp_nodes cp) then Inr token
     else Inl (Graph_Dex (TokenNotFound (as_account_id token))))"

definition get_weight :: "'f cached_path \<Rightarrow> token_in_account \<Rightarrow> token_out_account \<Rightarrow>
    graph_error + 'f edge_weight" where
  "get_weight cp i j =
     rbind (node_index cp (in_inner i)) (\<lambda>a. rbind (node_index cp (out_inner j)) (\<lambda>b.
     case List.find (\<lambda>(a', b', w). a' = a \<and> b' = b) (cp_edges cp) of
       Some (_, _, w) \<Rightarrow> Inr w
     | None \<Rightarrow> Inl (Invalid_Edge i j)))"

definition cp_get_path :: "'f cached_path \<Rightarrow> token_in_account \<Rightarrow> token_out_account \<Rightarrow>
    graph_error + token_account list" where
  "cp_get_path cp start goal = (case cp_cached cp start of
     None \<Rightarrow> Inl (Start_Not_Found start goal)
   | Some m \<Rightarrow> ok_or (map_of m goal) (Goal_Not_Found start goal))"

fun get_edges_loop :: "'f cached_path \<Rightarrow> token_in_account \<Rightarrow> token_account list \<Rightarrow>
    token_out_account \<Rightarrow> graph_error + 'f edge_weight list" where
  "get_edges_loop cp prev [] goal = rbind (get_weight cp prev goal) (\<lambda>w. Inr [w])"
| "get_edges_loop cp prev (t # ts) goal =
     rbind (get_weight cp prev (to_out t)) (\<lambda>w.
     rbind (get_edges_loop cp (to_in t) ts goal) (\<lambda>ws. Inr (w # ws)))"

definition get_edges :: "'f cached_path \<Rightarrow> token_in_account \<Rightarrow> token_out_account \<Rightarrow>
    graph_error + 'f edge_weight list" where
  "get_edges cp start goal =
     rbind (cp_get_path cp start goal) (\<lambda>path. get_edges_loop cp start path goal)"

fun weights_to_pairs :: "pool_info_list \<Rightarrow> 'f edge_weight list \<Rightarrow>
    (graph_error + token_pair list) option" where
  "weights_to_pairs pools [] = Some (Inr [])"
| "weights_to_pairs pools (w # ws) = (case weight_pair_id w of
     None \<Rightarrow> None
   | Some pid \<Rightarrow> (case pools_get_pair pools pid of
       Inl e \<Rightarrow> Some (Inl (Graph_Dex e))
     | Inr t \<Rightarrow> map_option (\<lambda>r. rbind r (\<lambda>ts. Inr (t # ts))) (weights_to_pairs pools ws)))"

definition graph_get_path :: "'f token_graph \<Rightarrow> token_in_account \<Rightarrow> token_out_account \<Rightarrow>
    (graph_error + token_pair list) option" where
  "graph_get_path g start goal = (case get_edges (tg_graph g) start goal of
     Inl e \<Rightarrow> Some (Inl e)
   | Inr ws \<Rightarrow> weights_to_pairs (tg_pools g) ws)"

definition get_path_with_return :: "'f token_graph \<Rightarrow> token_in_account \<Rightarrow> token_out_account \<Rightarrow>
    (graph_error + token_pair list) option" where
  "get_path_with_return g start goal = (case graph_get_path g start goal of
     None \<Rightarrow> None
   | Some (Inl e) \<Rightarrow> Some (Inl e)
   | Some (Inr path) \<Rightarrow>
       map_option (\<lambda>r. rbind r (\<lambda>back. Inr (path @ back))) (graph_get_path g (as_in goal) (as_out start)))"

text \<open>The estimated values: a goal whose path or value is an error is logged and left out.\<close>

definition assoc_insert :: "'k \<Rightarrow> 'v \<Rightarrow> ('k \<times> 'v) list \<Rightarrow> ('k \<times> 'v) list" where
  "assoc_insert k v m = (k, v) # filter (\<lambda>(k', _). k' \<noteq> k) m"

fun estimated_values :: "bigdecimal \<Rightarrow> (token_out_account \<Rightarrow> (graph_error + token_pair list) option) \<Rightarrow>
    u128 \<Rightarrow> token_out_account list \<Rightarrow> (token_out_account \<times> u128) list \<Rightarrow>
    (token_out_account \<times> u128) list option" where
  "estimated_values B path_to initial [] values = Some values"
| "estimated_values B path_to initial (goal # goals) values = (case path_to goal of
     None \<Rightarrow> None
   | Some (Inl e) \<Rightarrow> estimated_values B path_to initial goals values
   | Some (Inr path) \<Rightarrow> (case calc_value B path initial of
       Inl e \<Rightarrow> estimated_values B path_to initial goals values
     | Inr v \<Rightarrow> estimated_values B path_to initial goals (assoc_insert goal v values)))"

definition list_estimated_values :: "bigdecimal \<Rightarrow> 'f token_graph \<Rightarrow> u128 \<Rightarrow> token_in_account \<Rightarrow>
    token_out_account list \<Rightarrow> bool \<Rightarrow> (token_out_account \<times> u128) list option" where
  "list_estimated_values B g initial start goals with_return =
     map_option (\<lambda>vs. rev (sort_key snd vs))
       (estimated_values B (\<lambda>goal. if with_return then get_path_with_return g start goal
          else graph_get_path g start goal) initial goals [])"

definition list_returns :: "bigdecimal \<Rightarrow> 'f token_graph \<Rightarrow> u128 \<Rightarrow> token_in_account \<Rightarrow>
    token_out_account list \<Rightarrow> (token_out_account \<times> u128) list option" where
  "list_returns B g initial start goals = list_estimated_values B g initial start goals True"

fun values_with_path :: "bigdecimal \<Rightarrow> 'f token_graph \<Rightarrow> u128 \<Rightarrow> token_in_account \<Rightarrow>
    token_out_account list \<Rightarrow> (token_out_account \<times> u128 \<times> token_pair list) list option" where
  "values_with_path B g initial start [] = Some []"
| "values_with_path B g initial start (goal # goals) = (case graph_get_path g start goal of
     None \<Rightarrow> None
   | Some (Inl e) \<Rightarrow> values_with_path B g initial start goals
   | Some (Inr path) \<Rightarrow> (case calc_value B path initial of
       Inl e \<Rightarrow> values_with_path B g initial start goals
     | Inr v \<Rightarrow> map_option (Cons (goal, v, path)) (values_with_path B g initial start goals)))"

definition list_values_with_path :: "bigdecimal \<Rightarrow> 'f token_graph \<Rightarrow> u128 \<Rightarrow> token_in_account \<Rightarrow>
    token_out_account list \<Rightarrow> (token_out_account \<times> u128 \<times> token_pair list) list option" where
  "list_values_with_path B g initial start goals =
     map_option (sort_key (\<lambda>(_, v, _). - int (unat v))) (values_with_path B g initial start goals)"

section \<open>Finding the paths\<close>

text \<open>
  \<^verbatim>\<open>GraphPath\<close>: from the scores of Dijkstra's algorithm, the predecessor of a node is the first
  node with an edge to it whose score and weight add up to the score of the node. The
  recursion over predecessors need not end for arbitrary scores.
\<close>

definition find_prev :: "'f float_ops \<Rightarrow> 'f cached_path \<Rightarrow> (token_account \<times> 'f edge_weight) list \<Rightarrow>
    token_account \<Rightarrow> token_account option" where
  "find_prev F cp goals target = (case map_of goals target of
     None \<Rightarrow> None
   | Some d \<Rightarrow> map_option fst (List.find (\<lambda>(a, b, w). b = target \<and> (case map_of goals a of
         None \<Rightarrow> False
       | Some sd \<Rightarrow> let x = edge_weight_add F sd w in
           edge_weight_eq F d x \<and> \<not> edge_weight_eq F sd x)) (cp_edges cp)))"

partial_function (option) find_path :: "'f float_ops \<Rightarrow> 'f cached_path \<Rightarrow>
    (token_account \<times> 'f edge_weight) list \<Rightarrow> (token_account \<times> token_account list) list \<Rightarrow>
    token_account \<Rightarrow> (token_account list \<times> (token_account \<times> token_account list) list) option" where
  "find_path F cp goals paths goal = (case map_of paths goal of
     Some r \<Rightarrow> Some (r, paths)
   | None \<Rightarrow> (case find_prev F cp goals goal of
       None \<Rightarrow> Some ([], paths)
     | Some prev \<Rightarrow> Option.bind (find_path F cp goals paths prev) (\<lambda>(more, paths').
         Some (goal # more, assoc_insert goal (goal # more) paths'))))"

fun find_paths :: "'f float_ops \<Rightarrow> 'f cached_path \<Rightarrow> (token_account \<times> 'f edge_weight) list \<Rightarrow>
    (token_account \<times> token_account list) list \<Rightarrow> token_account list \<Rightarrow>
    (token_account \<times> token_account list) list option" where
  "find_paths F cp goals paths [] = Some paths"
| "find_paths F cp goals paths (t # ts) =
     Option.bind (find_path F cp goals paths t) (\<lambda>(_, paths'). find_paths F cp goals paths' ts)"

definition find_all_path :: "'f float_ops \<Rightarrow> 'f cached_path \<Rightarrow>
    (token_account \<times> 'f edge_weight) list \<Rightarrow> token_account list list option" where
  "find_all_path F cp goals =
     map_option (map (rev \<circ> snd)) (find_paths F cp goals [] (map fst goals))"

type_synonym 'f dijkstra = "'f cached_path \<Rightarrow> token_account \<Rightarrow> token_account option \<Rightarrow>
  (token_account \<times> 'f edge_weight) list"

text \<open>The second half of \<^verbatim>\<open>update_path\<close>: search, rebuild the paths, store them under the start.\<close>

definition search_and_store :: "'f float_ops \<Rightarrow> 'f dijkstra \<Rightarrow> token_in_account \<Rightarrow>
    token_account \<Rightarrow> token_account option \<Rightarrow> 'f cached_path \<Rightarrow>
    (token_out_account list \<times> 'f cached_path) option" where
  "search_and_store F dijkstra start from to cp =
     map_option (\<lambda>paths.
       let path_to_outs = map (\<lambda>p. (to_out (last p), butlast p)) (filter (\<lambda>p. p \<noteq> []) paths)
       in (map fst path_to_outs,
           if path_to_outs = [] then cp
           else cp\<lparr>cp_cached := (cp_cached cp)(start \<mapsto> path_to_outs)\<rparr>))
       (find_all_path F cp (dijkstra cp from to))"

definition update_path :: "'f float_ops \<Rightarrow> 'f dijkstra \<Rightarrow> token_in_account \<Rightarrow> token_out_account option \<Rightarrow>
    'f cached_path \<Rightarrow> ((graph_error + token_out_account list) \<times> 'f cached_path) option" where
  "update_path F dijkstra start goal cp =
     (case (goal, cp_cached cp start) of
        (None, Some m) \<Rightarrow> Some (Inr (map fst m), cp)
      | _ \<Rightarrow> (case node_index cp (in_inner start) of
          Inl e \<Rightarrow> Some (Inl e, cp)
        | Inr from \<Rightarrow> (case goal of
            None \<Rightarrow> map_option (\<lambda>(outs, cp'). (Inr outs, cp'))
              (search_and_store F dijkstra start from None cp)
          | Some o' \<Rightarrow> (case node_index cp (out_inner o') of
              Inl e \<Rightarrow> Some (Inl e, cp)
            | Inr to \<Rightarrow> map_option (\<lambda>(outs, cp'). (Inr outs, cp'))
                (search_and_store F dijkstra start from (Some to) cp)))))"

fun reversible_goals :: "'f float_ops \<Rightarrow> 'f dijkstra \<Rightarrow> token_in_account \<Rightarrow> token_out_account list \<Rightarrow>
    'f cached_path \<Rightarrow> ((graph_error + token_out_account list) \<times> 'f cached_path) option" where
  "reversible_goals F dijkstra start [] cp = Some (Inr [], cp)"
| "reversible_goals F dijkstra start (goal # outs) cp =
     (case update_path F dijkstra (as_in goal) (Some (as_out start)) cp of
        None \<Rightarrow> None
      | Some (Inl e, cp') \<Rightarrow> Some (Inl e, cp')
      | Some (Inr reversed, cp') \<Rightarrow>
          map_option (\<lambda>(r, cp''). (rbind r (\<lambda>goals. Inr (if reversed = [] then goals else goal # goals)), cp''))
            (reversible_goals F dijkstra start outs cp'))"

definition update_graph :: "'f float_ops \<Rightarrow> 'f dijkstra \<Rightarrow> 'f token_graph \<Rightarrow> token_in_account \<Rightarrow>
    ((graph_error + token_out_account list) \<times> 'f token_graph) option" where
  "update_graph F dijkstra g start = (case update_path F dijkstra start None (tg_graph g) of
     None \<Rightarrow> None
   | Some (Inl e, cp) \<Rightarrow> Some (Inl e, g\<lparr>tg_graph := cp\<rparr>)
   | Some (Inr outs, cp) \<Rightarrow>
       map_option (\<lambda>(r, cp'). (r, g\<lparr>tg_graph := cp'\<rparr>)) (reversible_goals F dijkstra start outs cp))"

section \<open>Every edge is a pair of its two tokens\<close>

text \<open>The pool list finds each of its pools under its number.\<close>

definition pools_indexed :: "pool_info_list \<Rightarrow> bool" where
  "pools_indexed pools \<longleftrightarrow> (\<forall>p \<in> set (pool_list pools). by_id pools (pool_number p) = Some p)"

text \<open>A pair from token \<open>a\<close> to token \<open>b\<close> that the pool list hands out under its identifier.\<close>

definition pair_between :: "pool_info_list \<Rightarrow> token_account \<Rightarrow> token_account \<Rightarrow> token_pair \<Rightarrow> bool" where
  "pair_between pools a b t \<longleftrightarrow> pools_get_pair pools (pair_id t) = Inr t \<and>
     pair_token_in_id t = Some (to_in a) \<and> pair_token_out_id t = Some (to_out b)"

lemma position_Some: "position x xs = Some i \<Longrightarrow> i < length xs \<and> xs ! i = x"
  by (induction xs arbitrary: i) (auto split: if_splits)

lemma get_by_ids_pair:
  assumes "get_by_ids B p (to_in a) (to_out b) = Inr e"
  shows "pool_get_pair p (pair_in (edge_pair e)) (pair_out (edge_pair e)) = Inr (edge_pair e)"
    and "pair_pool (edge_pair e) = p"
    and "pair_token_in_id (edge_pair e) = Some (to_in a)"
    and "pair_token_out_id (edge_pair e) = Some (to_out b)"
proof -
  from assms obtain i j where ij: "get_token_id p a = Some i" "get_token_id p b = Some j"
    and e: "edge_get B p (TokenIn i) (TokenOut j) = Inr e"
    by (auto simp: get_by_ids_def to_in_def to_out_def split: option.splits)
  from e have pr: "pool_get_pair p (TokenIn i) (TokenOut j) = Inr (edge_pair e)"
    by (auto simp: edge_get_def split: sum.splits)
  then have t: "edge_pair e = \<lparr>pair_pool = p, pair_in = TokenIn i, pair_out = TokenOut j\<rparr>"
    by (simp add: pool_get_pair_Inr_iff)
  show "pool_get_pair p (pair_in (edge_pair e)) (pair_out (edge_pair e)) = Inr (edge_pair e)"
    "pair_pool (edge_pair e) = p" using pr by (simp_all add: t)
  from ij obtain m n where "i = TokenIndex m" "j = TokenIndex n"
    "position a (token_account_ids (bare p)) = Some m"
    "position b (token_account_ids (bare p)) = Some n"
    by (auto simp: get_token_id_def)
  then show "pair_token_in_id (edge_pair e) = Some (to_in a)"
    "pair_token_out_id (edge_pair e) = Some (to_out b)"
    using position_Some [of a _ m] position_Some [of b _ n]
    by (auto simp: t pair_token_in_id_def pair_token_out_id_def pool_token_def get_opt_def
        ok_or_def to_in_def to_out_def)
qed

lemma get_by_ids_between:
  assumes "pools_indexed pools" "p \<in> set (pool_list pools)"
    and "get_by_ids B p (to_in a) (to_out b) = Inr e"
  shows "pair_between pools a b (edge_pair e)"
  using assms get_by_ids_pair [OF assms(3)]
  by (simp add: pair_between_def pools_get_pair_def pair_id_def pools_get_def pools_indexed_def
      ok_or_def)

definition groups_ok :: "pool_info_list \<Rightarrow> token_account \<Rightarrow> (token_account, path_edges) btree_map \<Rightarrow> bool" where
  "groups_ok pools a groups \<longleftrightarrow> btree_invar groups \<and> (\<forall>b g. map_of groups b = Some g \<longrightarrow>
     token_in_out g = (to_in a, to_out b) \<and> heap g \<noteq> [] \<and>
     (\<forall>e \<in> set (heap g). pair_between pools a b (edge_pair e)))"

lemma add_to_group_ok:
  assumes "pools_indexed pools" "p \<in> set (pool_list pools)" and g: "groups_ok pools a groups"
  shows "\<exists>groups'. add_to_group B a p b groups = Some groups' \<and> groups_ok pools a groups'"
proof (cases "get_by_ids B p (to_in a) (to_out b)")
  case (Inl x)
  with g show ?thesis by (simp add: add_to_group_def)
next
  case (Inr e)
  note e = get_by_ids_pair [OF Inr]
  let ?g = "case map_of groups b of Some g \<Rightarrow> g | None \<Rightarrow> path_edges_new (to_in a) (to_out b)"
  have io: "token_in_out ?g = (to_in a, to_out b)"
    and old: "\<forall>x \<in> set (heap ?g). pair_between pools a b (edge_pair x)"
    using g by (auto simp: groups_ok_def path_edges_new_def split: option.splits)
  have push: "path_edges_push ?g e = Some (Inr (?g\<lparr>heap := e # heap ?g\<rparr>))"
    unfolding path_edges_push_def using e(3,4) io by simp
  have inv: "btree_invar groups" using g by (simp add: groups_ok_def)
  have "groups_ok pools a (btree_insert b (?g\<lparr>heap := e # heap ?g\<rparr>) groups)"
    unfolding groups_ok_def
  proof (intro conjI allI impI)
    show "btree_invar (btree_insert b (?g\<lparr>heap := e # heap ?g\<rparr>) groups)"
      using inv by (rule btree_insert_invar)
    fix b' g' assume "map_of (btree_insert b (?g\<lparr>heap := e # heap ?g\<rparr>) groups) b' = Some g'"
    then have "(if b' = b then Some (?g\<lparr>heap := e # heap ?g\<rparr>) else map_of groups b') = Some g'"
      by (simp add: btree.get_insert [OF inv])
    then show "token_in_out g' = (to_in a, to_out b')" "heap g' \<noteq> []"
      "\<forall>x \<in> set (heap g'). pair_between pools a b' (edge_pair x)"
      using io old g get_by_ids_between [OF assms(1,2) Inr]
      by (auto simp: groups_ok_def split: if_splits)
  qed
  then show ?thesis
    unfolding add_to_group_def using Inr push by simp
qed

lemma group_pool_ok:
  assumes "pools_indexed pools" "p \<in> set (pool_list pools)" "groups_ok pools a groups"
  shows "\<exists>groups'. group_pool B a p ts groups = Some groups' \<and> groups_ok pools a groups'"
  using assms(3)
proof (induction ts arbitrary: groups)
  case (Cons t ts)
  show ?case
  proof (cases "t = a")
    case False
    from add_to_group_ok [OF assms(1,2) Cons.prems] obtain g where
      "add_to_group B a p t groups = Some g" "groups_ok pools a g" by blast
    with Cons.IH [of g] False show ?thesis by simp
  qed (use Cons in simp)
qed simp

lemma group_pools_ok:
  assumes "pools_indexed pools" "set ps \<subseteq> set (pool_list pools)" "groups_ok pools a groups"
  shows "\<exists>groups'. group_pools B a ps groups = Some groups' \<and> groups_ok pools a groups'"
  using assms(2,3)
proof (induction ps arbitrary: groups)
  case (Cons p ps)
  then have p: "p \<in> set (pool_list pools)" and ps: "set ps \<subseteq> set (pool_list pools)" by auto
  from group_pool_ok [OF assms(1) p Cons.prems(2)] obtain g where
    "group_pool B a p (token_account_ids (bare p)) groups = Some g" "groups_ok pools a g" by blast
  with Cons.IH [OF ps] show ?case by simp
qed simp

definition by_token_ok :: "pool_info_list \<Rightarrow> (token_account, pool_info list) btree_map \<Rightarrow> bool" where
  "by_token_ok pools m \<longleftrightarrow> btree_invar m \<and>
     (\<forall>a ps. map_of m a = Some ps \<longrightarrow> set ps \<subseteq> set (pool_list pools))"

lemma insert_pool_ok:
  assumes "p \<in> set (pool_list pools)" "by_token_ok pools m"
  shows "by_token_ok pools (insert_pool p t m)"
proof -
  from assms(2) have inv: "btree_invar m" by (simp add: by_token_ok_def)
  show ?thesis
    using assms unfolding by_token_ok_def insert_pool_def
    by (cases "map_of m t") (auto simp: btree.get_insert [OF inv] btree_insert_invar split: if_splits)
qed

lemma insert_pools_ok:
  "p \<in> set (pool_list pools) \<Longrightarrow> by_token_ok pools m \<Longrightarrow> by_token_ok pools (fold (insert_pool p) ts m)"
  by (induction ts arbitrary: m) (simp_all add: insert_pool_ok)

lemma fold_insert_pools_ok:
  "set ps \<subseteq> set (pool_list pools) \<Longrightarrow> by_token_ok pools m \<Longrightarrow>
   by_token_ok pools (fold (\<lambda>p m. fold (insert_pool p) (token_account_ids (bare p)) m) ps m)"
  by (induction ps arbitrary: m) (simp_all add: insert_pools_ok)

lemma pools_by_token_ok: "by_token_ok pools (pools_by_token_new pools)"
  unfolding pools_by_token_new_def
  by (rule fold_insert_pools_ok) (auto simp: by_token_ok_def btree_invar_def)

lemma group_by_out_ok:
  assumes "pools_indexed pools" "by_token_ok pools by_in"
  shows "\<exists>groups. group_by_out B by_in a = Some groups \<and> groups_ok pools a groups"
proof -
  have empty: "groups_ok pools a []" by (simp add: groups_ok_def btree_invar_def)
  show ?thesis
    using assms(2) group_pools_ok [OF assms(1) _ empty] empty
    by (auto simp: group_by_out_def by_token_ok_def split: option.split)
qed

definition edge_ok :: "pool_info_list \<Rightarrow> token_account \<times> token_account \<times> 'f edge_weight \<Rightarrow> bool" where
  "edge_ok pools = (\<lambda>(a, b, w). \<exists>t. weight_pair_id w = Some (pair_id t) \<and> pair_between pools a b t)"

lemma max_edge_mem: "max_edge e es \<in> set (e # es)"
proof (induction es arbitrary: e)
  case (Cons x xs)
  have "max_edge (if edge_estimated_return e < edge_estimated_return x then x else e) xs
      \<in> set ((if edge_estimated_return e < edge_estimated_return x then x else e) # xs)"
    by (rule Cons.IH)
  then show ?case by (auto split: if_splits)
qed simp

lemma max_edge_ge: "x \<in> set (e # es) \<Longrightarrow> edge_estimated_return x \<le> edge_estimated_return (max_edge e es)"
proof (induction es arbitrary: x e)
  case (Cons y ys)
  define m where "m = (if edge_estimated_return e < edge_estimated_return y then y else e)"
  have le: "edge_estimated_return e \<le> edge_estimated_return m" "edge_estimated_return y \<le> edge_estimated_return m"
    by (auto simp: m_def)
  have "edge_estimated_return m \<le> edge_estimated_return (max_edge m ys)"
    by (rule Cons.IH) simp
  moreover have "x \<in> set ys \<Longrightarrow> edge_estimated_return x \<le> edge_estimated_return (max_edge m ys)"
    by (rule Cons.IH) simp
  ultimately show ?case using Cons.prems le by (fastforce simp: m_def [symmetric] intro: order_trans)
qed simp

lemma edges_to_ok:
  assumes "groups_ok pools a groups"
  shows "\<forall>x \<in> set (edges_to F nodes a groups). edge_ok pools x"
proof
  fix x assume "x \<in> set (edges_to F nodes a groups)"
  then obtain b es e where be: "(b, es) \<in> set groups" and top: "at_top es = Some e"
    and x: "x = (a, b, edge_weight_of F e)"
    by (fastforce simp: edges_to_def split: option.splits if_splits dest: sym)
  from be assms have "map_of groups b = Some es"
    using btree.entries_get [of groups b es] by (simp add: groups_ok_def)
  then have all: "\<forall>e \<in> set (heap es). pair_between pools a b (edge_pair e)"
    using assms by (simp add: groups_ok_def)
  from top have "e \<in> set (heap es)"
    using max_edge_mem by (auto simp: at_top_def split: list.splits simp del: max_edge.simps)
  with all show "edge_ok pools x"
    by (auto simp: edge_ok_def x edge_weight_of_def edge_weight_new_def)
qed

lemma edges_from_ok:
  assumes "pools_indexed pools" "by_token_ok pools by_in"
  shows "\<exists>es. edges_from F B by_in nodes ts = Some es \<and> (\<forall>x \<in> set es. edge_ok pools x)"
proof (induction ts)
  case (Cons t ts)
  from group_by_out_ok [OF assms, of B t] obtain groups where
    g: "group_by_out B by_in t = Some groups" "groups_ok pools t groups" by blast
  with Cons edges_to_ok [OF g(2), of F nodes] show ?case by auto
qed simp

definition graph_ok :: "'f token_graph \<Rightarrow> bool" where
  "graph_ok g \<longleftrightarrow> (\<forall>x \<in> set (cp_edges (tg_graph g)). edge_ok (tg_pools g) x)"

lemma token_graph_new_ok:
  assumes "pools_indexed pools"
  shows "\<exists>g. token_graph_new F B pools = Some g \<and> tg_pools g = pools \<and> graph_ok g \<and>
    cp_cached (tg_graph g) = Map.empty"
  using edges_from_ok [OF assms pools_by_token_ok [of pools]]
  by (fastforce simp: token_graph_new_def cached_path_new_def Let_def graph_ok_def)

section \<open>Paths are walks\<close>

text \<open>A walk goes from token to token along pairs; every pair is the one the pool list holds.\<close>

fun walk :: "pool_info_list \<Rightarrow> token_account \<Rightarrow> token_pair list \<Rightarrow> token_account \<Rightarrow> bool" where
  "walk pools a [] b \<longleftrightarrow> a = b"
| "walk pools a (t # ts) b \<longleftrightarrow> (\<exists>c. pair_between pools a c t \<and> walk pools c ts b)"

lemma walk_append: "walk pools a ts b \<Longrightarrow> walk pools b us c \<Longrightarrow> walk pools a (ts @ us) c"
  by (induction pools a ts b rule: walk.induct) auto

lemma walk_connected: "walk pools a ts b \<Longrightarrow> connected a ts"
  by (induction pools a ts b rule: walk.induct) (auto simp: pair_between_def to_in_def to_out_def)

lemma get_weight_ok:
  assumes "\<forall>x \<in> set (cp_edges cp). edge_ok pools x" "get_weight cp i j = Inr w"
  shows "edge_ok pools (in_inner i, out_inner j, w)"
proof -
  from assms(2) obtain a b where
    "List.find (\<lambda>(a', b', w). a' = in_inner i \<and> b' = out_inner j) (cp_edges cp) = Some (a, b, w)"
    by (auto simp: get_weight_def node_index_def split: if_splits option.splits)
  then have "(a, b, w) \<in> set (cp_edges cp)" "a = in_inner i" "b = out_inner j"
    by (auto simp: find_Some_iff in_set_conv_nth)
  with assms(1) show ?thesis by blast
qed

text \<open>The pairs behind the weights of a path make a walk along it.\<close>

lemma get_edges_loop_walk:
  assumes ok: "\<forall>x \<in> set (cp_edges cp). edge_ok pools x"
    and "get_edges_loop cp i ts j = Inr ws"
  shows "\<exists>path. weights_to_pairs pools ws = Some (Inr path) \<and> length path = Suc (length ts) \<and>
    walk pools (in_inner i) path (out_inner j)"
  using assms
proof (induction cp i ts j arbitrary: ws rule: get_edges_loop.induct)
  case (1 cp prev goal)
  from "1.prems"(2) obtain w where w: "get_weight cp prev goal = Inr w" "ws = [w]"
    by (auto simp: rbind_Inr_iff)
  from get_weight_ok [OF "1.prems"(1) w(1)] obtain t where
    "weight_pair_id w = Some (pair_id t)" "pair_between pools (in_inner prev) (out_inner goal) t"
    by (auto simp: edge_ok_def)
  then show ?case by (auto simp: w(2) pair_between_def)
next
  case (2 cp prev t ts goal)
  from "2.prems"(2) obtain w vs where w: "get_weight cp prev (to_out t) = Inr w"
    and vs: "get_edges_loop cp (to_in t) ts goal = Inr vs" and ws: "ws = w # vs"
    by (auto simp: rbind_Inr_iff)
  from get_weight_ok [OF "2.prems"(1) w] obtain r where
    r: "weight_pair_id w = Some (pair_id r)" "pair_between pools (in_inner prev) t r"
    by (auto simp: edge_ok_def to_out_def)
  from "2.IH" [OF "2.prems"(1) vs] obtain path where
    "weights_to_pairs pools vs = Some (Inr path)" "length path = Suc (length ts)"
    "walk pools t path (out_inner goal)"
    by (auto simp: to_in_def)
  with r show ?case by (auto simp: ws pair_between_def)
qed

lemma graph_get_path_walk:
  assumes "graph_ok g"
  shows "\<exists>r. graph_get_path g start goal = Some r \<and> (\<forall>path. r = Inr path \<longrightarrow>
    path \<noteq> [] \<and> walk (tg_pools g) (in_inner start) path (out_inner goal))"
proof (cases "get_edges (tg_graph g) start goal")
  case (Inl e)
  then show ?thesis by (simp add: graph_get_path_def)
next
  case (Inr ws)
  then obtain ts where ts: "get_edges_loop (tg_graph g) start ts goal = Inr ws"
    by (auto simp: get_edges_def rbind_Inr_iff)
  show ?thesis
    using get_edges_loop_walk [OF _ ts, of "tg_pools g"] assms Inr
    by (fastforce simp: graph_get_path_def graph_ok_def)
qed

section \<open>Updates keep the graph\<close>

lemma search_and_store_same:
  "search_and_store F dijkstra start from to cp = Some (outs, cp') \<Longrightarrow>
   cp_nodes cp' = cp_nodes cp \<and> cp_edges cp' = cp_edges cp"
  by (auto simp: search_and_store_def Let_def split: if_splits)

lemma update_path_same:
  "update_path F dijkstra start goal cp = Some (r, cp') \<Longrightarrow>
   cp_nodes cp' = cp_nodes cp \<and> cp_edges cp' = cp_edges cp"
  by (auto simp: update_path_def split: option.splits sum.splits dest!: search_and_store_same)

lemma reversible_goals_same:
  "reversible_goals F dijkstra start outs cp = Some (r, cp') \<Longrightarrow>
   cp_nodes cp' = cp_nodes cp \<and> cp_edges cp' = cp_edges cp"
proof (induction F dijkstra start outs cp arbitrary: r cp' rule: reversible_goals.induct)
  case (2 F dijkstra start goal outs cp)
  from "2.prems" obtain q cp1 where
    u: "update_path F dijkstra (as_in goal) (Some (as_out start)) cp = Some (q, cp1)"
    by (auto split: option.splits)
  note s = update_path_same [OF u]
  show ?case
  proof (cases q)
    case (Inl e)
    with "2.prems" u s show ?thesis by simp
  next
    case (Inr reversed)
    with "2.prems" u obtain r' where "reversible_goals F dijkstra start outs cp1 = Some (r', cp')"
      by auto
    from "2.IH" [OF u refl Inr this] s show ?thesis by simp
  qed
qed simp

lemma update_graph_same:
  assumes "update_graph F dijkstra g start = Some (r, g')"
  shows "tg_pools g' = tg_pools g \<and> cp_nodes (tg_graph g') = cp_nodes (tg_graph g) \<and>
    cp_edges (tg_graph g') = cp_edges (tg_graph g)"
proof -
  from assms obtain q cp where u: "update_path F dijkstra start None (tg_graph g) = Some (q, cp)"
    by (auto simp: update_graph_def split: option.splits)
  show ?thesis
    using assms u update_path_same [OF u]
    by (cases q) (auto simp: update_graph_def dest: reversible_goals_same)
qed

text \<open>The graphs a run can have: a new one, and what updates make of it.\<close>

inductive graph_reach :: "'f float_ops \<Rightarrow> 'f dijkstra \<Rightarrow> 'f token_graph \<Rightarrow> 'f token_graph \<Rightarrow> bool"
  for F dijkstra g where
  fresh: "graph_reach F dijkstra g g"
| updated: "graph_reach F dijkstra g h \<Longrightarrow> update_graph F dijkstra h start = Some (r, h') \<Longrightarrow>
    graph_reach F dijkstra g h'"

lemma graph_reach_ok:
  "graph_reach F dijkstra g h \<Longrightarrow> graph_ok g \<Longrightarrow> graph_ok h \<and> tg_pools h = tg_pools g"
  by (induction rule: graph_reach.induct) (auto simp: graph_ok_def dest!: update_graph_same)

end
