(* ===== verification/Path_Search.thy ===== *)
theory Path_Search
  imports Token_Graph
begin

text \<open>
  What the searches of \<^verbatim>\<open>graph.rs\<close> find. The chains of predecessors that \<^verbatim>\<open>GraphPath\<close> rebuilds
  from the scores of Dijkstra's algorithm, the paths \<^verbatim>\<open>update_path\<close> stores for them, and the
  properties of the graph as a whole, with a small market on which they are evaluated.
\<close>

section \<open>Rebuilding the paths of a search\<close>

text \<open>
  The chain of predecessors of a node, down to a node without one. When the scores have such
  a chain for every node, \<open>find_path\<close> ends and returns it, and its memo holds the chains of
  the nodes it passed.
\<close>

inductive pred_chain :: "'f float_ops \<Rightarrow> 'f cached_path \<Rightarrow> (token_account \<times> 'f edge_weight) list \<Rightarrow>
    token_account \<Rightarrow> token_account list \<Rightarrow> bool"
  for F cp goals where
  root: "find_prev F cp goals t = None \<Longrightarrow> pred_chain F cp goals t []"
| step: "find_prev F cp goals t = Some q \<Longrightarrow> pred_chain F cp goals q p \<Longrightarrow> pred_chain F cp goals t (t # p)"

inductive_cases chain_NilE: "pred_chain F cp goals t []"
inductive_cases chain_ConsE: "pred_chain F cp goals t (s # p)"

lemma chain_unique: "pred_chain F cp goals t p \<Longrightarrow> pred_chain F cp goals t q \<Longrightarrow> p = q"
proof (induction arbitrary: q rule: pred_chain.induct)
  case (root t)
  from root.prems root.hyps show ?case by (cases rule: pred_chain.cases) auto
next
  case (step t r p)
  from step.prems step.hyps(1) obtain p' where "q = t # p'" "pred_chain F cp goals r p'"
    by (cases rule: pred_chain.cases) simp_all
  with step.IH show ?case by blast
qed

lemma map_of_assoc_insert [simp]: "map_of (assoc_insert k v m) = (map_of m)(k \<mapsto> v)"
proof -
  have "map_of (filter (\<lambda>(k', _). k' \<noteq> k) m) x = (if x = k then None else map_of m x)" for x
    by (induction m) auto
  then show ?thesis by (auto simp: assoc_insert_def)
qed

lemma distinct_assoc_insert: "distinct (map fst m) \<Longrightarrow> distinct (map fst (assoc_insert k v m))"
  by (auto simp: assoc_insert_def distinct_map_filter)

lemma dom_assoc_insert: "dom (map_of (assoc_insert k v m)) = insert k (dom (map_of m))"
  by auto

definition memo_ok :: "'f float_ops \<Rightarrow> 'f cached_path \<Rightarrow> (token_account \<times> 'f edge_weight) list \<Rightarrow>
    (token_account \<times> token_account list) list \<Rightarrow> bool" where
  "memo_ok F cp goals paths \<longleftrightarrow> distinct (map fst paths) \<and>
     (\<forall>k p. map_of paths k = Some p \<longrightarrow> pred_chain F cp goals k p \<and> p \<noteq> [] \<and> set p \<subseteq> dom (map_of paths))"

lemma find_path_chain:
  assumes "pred_chain F cp goals t p" "memo_ok F cp goals paths"
  shows "\<exists>paths'. find_path F cp goals paths t = Some (p, paths') \<and> memo_ok F cp goals paths' \<and>
    dom (map_of paths') = dom (map_of paths) \<union> set p"
  using assms
proof (induction rule: pred_chain.induct)
  case (root t)
  have "map_of paths t = None"
  proof (rule ccontr)
    assume "map_of paths t \<noteq> None"
    then obtain p where "map_of paths t = Some p" by blast
    then have c: "pred_chain F cp goals t p" and ne: "p \<noteq> []"
      using root.prems unfolding memo_ok_def by blast+
    from chain_unique [OF pred_chain.root [OF root.hyps] c] ne show False by simp
  qed
  then have "find_path F cp goals paths t = Some ([], paths)"
    using root.hyps by (subst find_path.simps) simp
  with root.prems show ?case by simp
next
  case (step t q p)
  have ch: "pred_chain F cp goals t (t # p)" using step.hyps by (rule pred_chain.step)
  show ?case
  proof (cases "map_of paths t")
    case (Some r)
    with step.prems have c: "pred_chain F cp goals t r" and sub: "set r \<subseteq> dom (map_of paths)"
      unfolding memo_ok_def by blast+
    from chain_unique [OF ch c] have r: "t # p = r" .
    with Some have "find_path F cp goals paths t = Some (t # p, paths)"
      by (subst find_path.simps) simp
    with step.prems sub r show ?thesis by (intro exI [of _ paths]) auto
  next
    case None
    from step.IH [OF step.prems] obtain m where m: "find_path F cp goals paths q = Some (p, m)"
      "memo_ok F cp goals m" "dom (map_of m) = dom (map_of paths) \<union> set p" by blast
    have eq: "find_path F cp goals paths t = Some (t # p, assoc_insert t (t # p) m)"
      using None step.hyps(1) m(1) by (subst find_path.simps) simp
    have "memo_ok F cp goals (assoc_insert t (t # p) m)"
      unfolding memo_ok_def
    proof (intro conjI allI impI)
      show "distinct (map fst (assoc_insert t (t # p) m))"
        using m(2) unfolding memo_ok_def by (blast intro: distinct_assoc_insert)
      fix k r assume kr: "map_of (assoc_insert t (t # p) m) k = Some r"
      have "pred_chain F cp goals k r \<and> r \<noteq> [] \<and> set r \<subseteq> insert t (dom (map_of m))"
      proof (cases "k = t")
        case True
        with kr have "r = t # p" by simp
        with True ch m(3) show ?thesis by auto
      next
        case False
        with kr have "map_of m k = Some r" by simp
        then show ?thesis using m(2) unfolding memo_ok_def by blast
      qed
      then show "pred_chain F cp goals k r" "r \<noteq> []" "set r \<subseteq> dom (map_of (assoc_insert t (t # p) m))"
        by simp_all
    qed
    with eq show ?thesis
      by (intro exI [of _ "assoc_insert t (t # p) m"]) (auto simp only: dom_assoc_insert m(3) set_simps)
  qed
qed

lemma find_paths_chain:
  assumes "\<forall>t \<in> set ts. pred_chain F cp goals t (c t)" "memo_ok F cp goals paths"
  shows "\<exists>paths'. find_paths F cp goals paths ts = Some paths' \<and> memo_ok F cp goals paths' \<and>
    dom (map_of paths') = dom (map_of paths) \<union> (\<Union>t \<in> set ts. set (c t))"
  using assms
proof (induction ts arbitrary: paths)
  case (Cons t ts)
  from Cons.prems have "pred_chain F cp goals t (c t)" by simp
  from find_path_chain [OF this Cons.prems(2)] obtain m where
    m: "find_path F cp goals paths t = Some (c t, m)" "memo_ok F cp goals m"
      "dom (map_of m) = dom (map_of paths) \<union> set (c t)" by blast
  with Cons.IH [of m] Cons.prems(1) show ?case by (auto simp: Un_assoc)
qed simp

text \<open>Scores that describe a tree of paths from the start: the start has no predecessor, and
  every other scored node has one that the search reached earlier.\<close>

definition score_tree :: "'f float_ops \<Rightarrow> 'f cached_path \<Rightarrow> token_account \<Rightarrow>
    (token_account \<times> 'f edge_weight) list \<Rightarrow> bool" where
  "score_tree F cp from goals \<longleftrightarrow> distinct (map fst goals) \<and> from \<in> set (map fst goals) \<and>
     find_prev F cp goals from = None \<and>
     (\<exists>rank :: token_account \<Rightarrow> nat. \<forall>t \<in> set (map fst goals). t \<noteq> from \<longrightarrow>
        (\<exists>q. find_prev F cp goals t = Some q \<and> rank q < rank t))"

lemma find_prev_Some:
  assumes "find_prev F cp goals t = Some q"
  shows "\<exists>w. (q, t, w) \<in> set (cp_edges cp)" "q \<in> set (map fst goals)" "t \<in> set (map fst goals)"
proof -
  from assms obtain d where d: "map_of goals t = Some d"
    by (auto simp: find_prev_def split: option.splits)
  with assms obtain w where w: "(q, t, w) \<in> set (cp_edges cp)" "map_of goals q \<noteq> None"
    by (auto simp: find_prev_def find_Some_iff Let_def split: option.splits) (metis nth_mem)
  then show "\<exists>w. (q, t, w) \<in> set (cp_edges cp)" "q \<in> set (map fst goals)"
    by (auto simp: map_of_eq_None_iff)
  from d have "map_of goals t \<noteq> None" by simp
  then show "t \<in> set (map fst goals)" by (simp add: map_of_eq_None_iff)
qed

lemma score_tree_chain:
  assumes "score_tree F cp from goals" "t \<in> set (map fst goals)"
  shows "\<exists>p. pred_chain F cp goals t p"
proof -
  from assms(1) obtain rank :: "token_account \<Rightarrow> nat" where
    rank: "\<forall>t \<in> set (map fst goals). t \<noteq> from \<longrightarrow> (\<exists>q. find_prev F cp goals t = Some q \<and> rank q < rank t)"
    and root: "find_prev F cp goals from = None"
    by (auto simp: score_tree_def)
  from assms(2) show ?thesis
  proof (induction "rank t" arbitrary: t rule: less_induct)
    case less
    show ?case
    proof (cases "t = from")
      case True
      with root show ?thesis by (blast intro: pred_chain.root)
    next
      case False
      with rank less.prems obtain q where q: "find_prev F cp goals t = Some q" "rank q < rank t" by blast
      from less.hyps [OF q(2) find_prev_Some(2) [OF q(1)]] q(1) show ?thesis
        by (blast intro: pred_chain.step)
    qed
  qed
qed

definition cp_closed :: "'f cached_path \<Rightarrow> bool" where
  "cp_closed cp \<longleftrightarrow> (\<forall>(a, b, w) \<in> set (cp_edges cp). a \<in> set (cp_nodes cp) \<and> b \<in> set (cp_nodes cp))"

lemma get_weight_exists:
  assumes "(a, b, w) \<in> set (cp_edges cp)" "cp_closed cp"
  shows "\<exists>v. get_weight cp (to_in a) (to_out b) = Inr v"
proof -
  have nodes: "a \<in> set (cp_nodes cp)" "b \<in> set (cp_nodes cp)"
    using assms by (auto simp: cp_closed_def)
  have "List.find (\<lambda>(a', b', w). a' = a \<and> b' = b) (cp_edges cp) \<noteq> None"
    using assms(1) by (auto simp: find_None_iff)
  then obtain a' b' v where "List.find (\<lambda>(a', b', w). a' = a \<and> b' = b) (cp_edges cp) = Some (a', b', v)"
    by auto
  with nodes show ?thesis by (simp add: get_weight_def node_index_def to_in_def to_out_def)
qed

lemma get_edges_loop_snoc:
  "get_edges_loop cp i (ts @ [t]) j =
     rbind (get_edges_loop cp i ts (to_out t)) (\<lambda>ws. rbind (get_weight cp (to_in t) j) (\<lambda>w. Inr (ws @ [w])))"
proof (induction ts arbitrary: i)
  case Nil
  then show ?case by (cases "get_weight cp i (to_out t)"; cases "get_weight cp (to_in t) j") simp_all
next
  case (Cons s ts)
  then show ?case
    by (cases "get_weight cp i (to_out s)"; cases "get_edges_loop cp (to_in s) ts (to_out t)";
        cases "get_weight cp (to_in t) j") simp_all
qed

text \<open>Along a chain that ends at the start, every hop has an edge.\<close>

lemma chain_edges:
  assumes "pred_chain F cp goals t p" "p \<noteq> []" "cp_closed cp"
    and root: "\<forall>t \<in> set (map fst goals). t \<noteq> from \<longrightarrow> find_prev F cp goals t \<noteq> None"
  shows "\<exists>ws. get_edges_loop cp (to_in from) (rev (tl p)) (to_out t) = Inr ws"
  using assms(1,2)
proof (induction rule: pred_chain.induct)
  case (step t q p)
  from find_prev_Some [OF step.hyps(1)] obtain w where
    e: "(q, t, w) \<in> set (cp_edges cp)" and q: "q \<in> set (map fst goals)" by blast
  from get_weight_exists [OF e assms(3)] obtain v where v: "get_weight cp (to_in q) (to_out t) = Inr v" ..
  show ?case
  proof (cases p)
    case Nil
    with step.hyps(2) have "find_prev F cp goals q = None" by (auto elim: chain_NilE)
    with root q have "q = from" by blast
    with v Nil show ?thesis by simp
  next
    case (Cons s p')
    with step.hyps(2) have s: "s = q" by (auto elim: chain_ConsE)
    from step.IH Cons obtain ws where "get_edges_loop cp (to_in from) (rev p') (to_out q) = Inr ws"
      by auto
    with v Cons s show ?thesis by (simp add: get_edges_loop_snoc)
  qed
qed simp

lemma chain_hd: "pred_chain F cp goals t p \<Longrightarrow> p \<noteq> [] \<Longrightarrow> hd p = t"
  by (cases rule: pred_chain.cases) auto

lemma chain_sub: "pred_chain F cp goals t p \<Longrightarrow> s \<in> set p \<Longrightarrow> find_prev F cp goals s \<noteq> None"
  by (induction rule: pred_chain.induct) auto

text \<open>What the paths of a search are: one for every scored node but the start, each the reverse
  of the chain of its node.\<close>

lemma find_all_path_tree:
  assumes tree: "score_tree F cp from goals"
  shows "\<exists>paths. find_all_path F cp goals = Some (map (rev \<circ> snd) paths) \<and>
    memo_ok F cp goals paths \<and> fst ` set paths = set (map fst goals) - {from}"
proof -
  define c where "c t = (SOME p. pred_chain F cp goals t p)" for t
  have c: "\<forall>t \<in> set (map fst goals). pred_chain F cp goals t (c t)"
    using score_tree_chain [OF tree] unfolding c_def by (blast intro: someI_ex)
  have "memo_ok F cp goals []" by (simp add: memo_ok_def)
  from find_paths_chain [OF c this] obtain paths where
    p: "find_paths F cp goals [] (map fst goals) = Some paths" "memo_ok F cp goals paths"
    and d: "dom (map_of paths) = (\<Union>t \<in> set (map fst goals). set (c t))" by auto
  have root: "find_prev F cp goals from = None"
    and prev: "t \<in> set (map fst goals) \<Longrightarrow> t \<noteq> from \<Longrightarrow> find_prev F cp goals t \<noteq> None" for t
    using tree by (auto simp: score_tree_def)
  have "(\<Union>t \<in> set (map fst goals). set (c t)) = set (map fst goals) - {from}"
  proof (intro equalityI subsetI)
    fix s assume "s \<in> (\<Union>t \<in> set (map fst goals). set (c t))"
    then obtain t where "t \<in> set (map fst goals)" "s \<in> set (c t)" by blast
    with c have "find_prev F cp goals s \<noteq> None" by (blast dest: chain_sub)
    with root show "s \<in> set (map fst goals) - {from}" using find_prev_Some(3) by fastforce
  next
    fix s assume "s \<in> set (map fst goals) - {from}"
    then have s: "s \<in> set (map fst goals)" and "find_prev F cp goals s \<noteq> None" using prev by auto
    with c have ch: "pred_chain F cp goals s (c s)" by blast
    then have "s \<in> set (c s)"
      by (cases rule: pred_chain.cases) (use \<open>find_prev F cp goals s \<noteq> None\<close> in auto)
    with s show "s \<in> (\<Union>t \<in> set (map fst goals). set (c t))" by blast
  qed
  with p d show ?thesis by (auto simp: find_all_path_def dom_map_of_conv_image_fst)
qed

lemma path_to_outs_eq:
  assumes "memo_ok F cp goals paths"
  shows "map (\<lambda>p. (to_out (last p), butlast p)) (filter (\<lambda>p. p \<noteq> []) (map (rev \<circ> snd) paths)) =
    map (\<lambda>(k, p). (to_out k, rev (tl p))) paths"
proof -
  have entry: "p \<noteq> [] \<and> hd p = k" if "(k, p) \<in> set paths" for k p
  proof -
    from assms that have "map_of paths k = Some p" by (simp add: memo_ok_def)
    with assms have "pred_chain F cp goals k p" "p \<noteq> []" unfolding memo_ok_def by blast+
    with chain_hd show ?thesis by blast
  qed
  have *: "p \<noteq> [] \<Longrightarrow> last (rev p) = hd p \<and> butlast (rev p) = rev (tl p)" for p :: "token_account list"
    by (cases p) simp_all
  have "filter (\<lambda>p. p \<noteq> []) (map (rev \<circ> snd) paths) = map (rev \<circ> snd) paths"
    using entry by (auto simp: filter_id_conv)
  then show ?thesis using entry * by (auto simp del: last_rev)
qed

lemma update_path_tree:
  fixes F :: "'f float_ops"
  assumes "from \<in> set (cp_nodes cp)" "cp_closed cp" "cp_cached cp (to_in from) = None"
    and tree: "score_tree F cp from (dijkstra cp from None)"
  shows "\<exists>outs cp'. update_path F dijkstra (to_in from) None cp = Some (Inr outs, cp') \<and>
    distinct outs \<and> set outs = to_out ` (set (map fst (dijkstra cp from None)) - {from}) \<and>
    (\<forall>goal \<in> set outs. \<exists>ws. get_edges cp' (to_in from) goal = Inr ws)"
proof -
  let ?goals = "dijkstra cp from None"
  from find_all_path_tree [OF tree] obtain paths where
    all: "find_all_path F cp ?goals = Some (map (rev \<circ> snd) paths)"
    and memo: "memo_ok F cp ?goals paths"
    and keys: "fst ` set paths = set (map fst ?goals) - {from}" by blast
  define m where "m = map (\<lambda>(k, p). (to_out k, rev (tl p))) paths"
  define cp' where "cp' = (if m = [] then cp else cp\<lparr>cp_cached := (cp_cached cp)(to_in from \<mapsto> m)\<rparr>)"
  have upd: "update_path F dijkstra (to_in from) None cp = Some (Inr (map fst m), cp')"
  proof -
    have "search_and_store F dijkstra (to_in from) from None cp = Some (map fst m, cp')"
      unfolding search_and_store_def all option.map Let_def path_to_outs_eq [OF memo]
        m_def [symmetric] cp'_def ..
    with assms(1,3) show ?thesis by (simp add: update_path_def node_index_def)
  qed
  have outs: "map fst m = map to_out (map fst paths)" by (auto simp: m_def)
  have d: "distinct (map fst paths)" using memo unfolding memo_ok_def by blast
  have dm: "distinct (map fst m)"
    unfolding outs using d by (subst distinct_map) (auto simp: to_out_def inj_on_def)
  have root: "\<forall>t \<in> set (map fst ?goals). t \<noteq> from \<longrightarrow> find_prev F cp ?goals t \<noteq> None"
    using tree by (auto simp: score_tree_def)
  have "\<exists>ws. get_edges cp' (to_in from) goal = Inr ws" if "goal \<in> set (map fst m)" for goal
  proof -
    from that obtain k p where kp: "(k, p) \<in> set paths" and goal: "goal = to_out k"
      by (auto simp: m_def)
    then have g: "map_of m goal = Some (rev (tl p))" and ne: "m \<noteq> []"
      using dm by (auto simp: m_def intro!: map_of_is_SomeI)
    from kp d have "map_of paths k = Some p" by simp
    with memo have "pred_chain F cp ?goals k p" "p \<noteq> []" unfolding memo_ok_def by blast+
    from chain_edges [OF this assms(2) root] obtain ws where
      "get_edges_loop cp (to_in from) (rev (tl p)) (to_out k) = Inr ws" ..
    moreover have "get_edges_loop cp' i ts j = get_edges_loop cp i ts j" for i ts j
      by (induction ts arbitrary: i) (simp_all add: cp'_def get_weight_def node_index_def)
    ultimately show ?thesis
      using g ne by (simp add: get_edges_def cp_get_path_def cp'_def ok_or_def goal)
  qed
  moreover have "set (map fst m) = to_out ` (set (map fst ?goals) - {from})"
  proof -
    have "set (map fst m) = to_out ` fst ` set paths" unfolding outs by (simp add: image_image)
    then show ?thesis by (simp only: keys)
  qed
  ultimately show ?thesis using upd dm by blast
qed

section \<open>A small market\<close>

text \<open>Rates computed exactly, and two pools without fee between two tokens whose prices
  disagree: two \<open>a\<close> buy three \<open>b\<close> in the first, and three \<open>b\<close> buy two \<open>a\<close> in the second.\<close>

definition rat_ops :: "rat float_ops" where
  "rat_ops = \<lparr>f_of_u128 = (\<lambda>n. of_nat (unat n)), f_div = (/), f_mul = (*), f_neg = uminus,
     f_zero = 0, f_one = 1, f_eq = (=)\<rparr>"

definition tok_a :: token_account where "tok_a = TokenAccount ''a''"
definition tok_b :: token_account where "tok_b = TokenAccount ''b''"

definition sample_market :: "u32 \<Rightarrow> u128 \<Rightarrow> u128 \<Rightarrow> pool_info" where
  "sample_market n x y = \<lparr>pool_number = n, bare = \<lparr>pool_kind = ''SIMPLE_POOL'',
     token_account_ids = [tok_a, tok_b], amounts = [x, y],
     total_fee = 0, shares_total_supply = 0, amp = 0\<rparr>, timestamp = 0\<rparr>"

definition two_pools :: "pool_info list" where
  "two_pools = [sample_market 0 4 9, sample_market 1 6 6]"

lemma tok_order: "tok_a < tok_b" "\<not> tok_b < tok_a" "tok_a \<noteq> tok_b" "tok_b \<noteq> tok_a"
  by (simp_all add: tok_a_def tok_b_def less_token_account_def less_list_code)

lemma two_pools_by_token:
  "pools_by_token_new (pool_info_list_new two_pools) = [(tok_a, two_pools), (tok_b, two_pools)]"
  by (simp add: pools_by_token_new_def pool_info_list_new_def two_pools_def sample_market_def
      is_simple_def POOL_KIND_SIMPLE_def insert_pool_def tok_order)

definition sample_edge :: "pool_info \<Rightarrow> nat \<Rightarrow> nat \<Rightarrow> u128 \<Rightarrow> u128 \<Rightarrow> edge" where
  "sample_edge p i j x y =
     \<lparr>edge_pair = \<lparr>pair_pool = p, pair_in = TokenIn (TokenIndex i), pair_out = TokenOut (TokenIndex j)\<rparr>,
      edge_input_value = x, edge_estimated_return = y\<rparr>"

lemmas edge_eval = get_by_ids_def get_token_id_def to_in_def to_out_def edge_get_def
  pool_get_pair_def estimate_normal_return_def pool_amount_def get_opt_def ok_or_def
  pool_estimate_return_def Let_def pool_len_def exact_decimal_def FEE_DIVISOR_def bd_of_def
  tok_order sample_market_def sample_edge_def

lemma market_edges:
  "get_by_ids exact_decimal (sample_market 0 4 9) (to_in tok_a) (to_out tok_b) =
     Inr (sample_edge (sample_market 0 4 9) 0 1 2 3)"
  "get_by_ids exact_decimal (sample_market 1 6 6) (to_in tok_a) (to_out tok_b) =
     Inr (sample_edge (sample_market 1 6 6) 0 1 3 2)"
  "get_by_ids exact_decimal (sample_market 0 4 9) (to_in tok_b) (to_out tok_a) =
     Inr (sample_edge (sample_market 0 4 9) 1 0 4 1)"
  "get_by_ids exact_decimal (sample_market 1 6 6) (to_in tok_b) (to_out tok_a) =
     Inr (sample_edge (sample_market 1 6 6) 1 0 3 2)"
proof -
  have "\<lfloor>16 / 13 :: rat\<rfloor> = 1" by (simp add: floor_eq_iff)
  then show
    "get_by_ids exact_decimal (sample_market 0 4 9) (to_in tok_a) (to_out tok_b) =
       Inr (sample_edge (sample_market 0 4 9) 0 1 2 3)"
    "get_by_ids exact_decimal (sample_market 1 6 6) (to_in tok_a) (to_out tok_b) =
       Inr (sample_edge (sample_market 1 6 6) 0 1 3 2)"
    "get_by_ids exact_decimal (sample_market 0 4 9) (to_in tok_b) (to_out tok_a) =
       Inr (sample_edge (sample_market 0 4 9) 1 0 4 1)"
    "get_by_ids exact_decimal (sample_market 1 6 6) (to_in tok_b) (to_out tok_a) =
       Inr (sample_edge (sample_market 1 6 6) 1 0 3 2)"
    by (simp_all add: edge_eval)
qed

text \<open>The graph has one edge each way, of rates \<open>-3/2\<close> and \<open>-2/3\<close>.\<close>

definition sample_weight :: "u32 \<Rightarrow> nat \<Rightarrow> nat \<Rightarrow> rat \<Rightarrow> rat edge_weight" where
  "sample_weight n i j r = \<lparr>weight_pair_id = Some \<lparr>pid_pool = n, pid_in = TokenIn (TokenIndex i),
     pid_out = TokenOut (TokenIndex j)\<rparr>, estimated_rate = r\<rparr>"

lemma market_names: "token_account_ids (bare (sample_market n x y)) = [tok_a, tok_b]"
  by (simp add: sample_market_def)

lemma market_ends:
  "pair_token_in_id (edge_pair (sample_edge (sample_market n x y) 0 1 u v)) = Some (to_in tok_a)"
  "pair_token_out_id (edge_pair (sample_edge (sample_market n x y) 0 1 u v)) = Some (to_out tok_b)"
  "pair_token_in_id (edge_pair (sample_edge (sample_market n x y) 1 0 u v)) = Some (to_in tok_b)"
  "pair_token_out_id (edge_pair (sample_edge (sample_market n x y) 1 0 u v)) = Some (to_out tok_a)"
  by (simp_all add: sample_edge_def pair_token_in_id_def pair_token_out_id_def pool_token_def get_opt_def
      ok_or_def market_names to_in_def to_out_def)

lemmas sample_graph_eval = by_token_tokens_def edges_to_def at_top_def edge_weight_of_def
  edge_weight_new_def sample_weight_def calc_rate_def rat_ops_def pair_id_def sample_edge_def
  pair_pool_id_def sample_market_def

lemma two_pools_graph:
  "cached_path_new rat_ops exact_decimal (pool_info_list_new two_pools) =
     Some \<lparr>cp_nodes = [tok_a, tok_b],
       cp_edges = [(tok_a, tok_b, sample_weight 0 0 1 (- 3 / 2)), (tok_b, tok_a, sample_weight 1 1 0 (- 2 / 3))],
       cp_cached = Map.empty\<rparr>"
proof -
  have groups:
    "group_by_out exact_decimal [(tok_a, two_pools), (tok_b, two_pools)] tok_a = Some [(tok_b,
       \<lparr>token_in_out = (to_in tok_a, to_out tok_b),
        heap = [sample_edge (sample_market 1 6 6) 0 1 3 2, sample_edge (sample_market 0 4 9) 0 1 2 3]\<rparr>)]"
    "group_by_out exact_decimal [(tok_a, two_pools), (tok_b, two_pools)] tok_b = Some [(tok_a,
       \<lparr>token_in_out = (to_in tok_b, to_out tok_a),
        heap = [sample_edge (sample_market 1 6 6) 1 0 3 2, sample_edge (sample_market 0 4 9) 1 0 4 1]\<rparr>)]"
    using market_ends
    by (simp_all add: group_by_out_def two_pools_def market_names add_to_group_def market_edges
        path_edges_push_def path_edges_new_def tok_order)
  show ?thesis
    unfolding cached_path_new_def Let_def two_pools_by_token
    by (simp add: groups sample_graph_eval)
qed

text \<open>With the second pool alone the rates are \<open>-2/3\<close> both ways.\<close>

definition one_pool :: "pool_info list" where
  "one_pool = [sample_market 1 6 6]"

definition one_pool_path :: "rat cached_path" where
  "one_pool_path = \<lparr>cp_nodes = [tok_a, tok_b],
     cp_edges = [(tok_a, tok_b, sample_weight 1 0 1 (- 2 / 3)), (tok_b, tok_a, sample_weight 1 1 0 (- 2 / 3))],
     cp_cached = Map.empty\<rparr>"

lemma one_pool_graph:
  "token_graph_new rat_ops exact_decimal (pool_info_list_new one_pool) =
     Some \<lparr>tg_pools = pool_info_list_new one_pool, tg_graph = one_pool_path\<rparr>"
proof -
  have by_token: "pools_by_token_new (pool_info_list_new one_pool) = [(tok_a, one_pool), (tok_b, one_pool)]"
    by (simp add: pools_by_token_new_def pool_info_list_new_def one_pool_def sample_market_def
        is_simple_def POOL_KIND_SIMPLE_def insert_pool_def tok_order)
  have groups:
    "group_by_out exact_decimal [(tok_a, one_pool), (tok_b, one_pool)] tok_a = Some [(tok_b,
       \<lparr>token_in_out = (to_in tok_a, to_out tok_b), heap = [sample_edge (sample_market 1 6 6) 0 1 3 2]\<rparr>)]"
    "group_by_out exact_decimal [(tok_a, one_pool), (tok_b, one_pool)] tok_b = Some [(tok_a,
       \<lparr>token_in_out = (to_in tok_b, to_out tok_a), heap = [sample_edge (sample_market 1 6 6) 1 0 3 2]\<rparr>)]"
    using market_ends
    by (simp_all add: group_by_out_def one_pool_def market_names add_to_group_def market_edges
        path_edges_push_def path_edges_new_def tok_order)
  show ?thesis
    unfolding token_graph_new_def cached_path_new_def Let_def by_token
    by (simp add: groups sample_graph_eval one_pool_path_def)
qed

text \<open>The scores of a search: the start has the default weight, the other token the product.\<close>

definition sample_scores :: "rat \<Rightarrow> rat dijkstra" where
  "sample_scores r = (\<lambda>cp from to. [(from, edge_weight_default rat_ops),
     (if from = tok_a then tok_b else tok_a, \<lparr>weight_pair_id = None, estimated_rate = r\<rparr>)])"

lemma sample_score_tree:
  "score_tree rat_ops one_pool_path tok_a (sample_scores (- 2 / 3) one_pool_path tok_a None)"
  unfolding score_tree_def
proof (intro conjI exI [of _ "\<lambda>t. if t = tok_a then 0 else Suc 0"])
qed (simp_all add: sample_scores_def one_pool_path_def find_prev_def tok_order sample_weight_def
    edge_weight_default_def edge_weight_add_def edge_weight_eq_def rat_ops_def)

section \<open>Properties\<close>

lemma pools_indexed_new: "distinct (map pool_number src) \<Longrightarrow> pools_indexed (pool_info_list_new src)"
  by (simp add: pools_indexed_def pool_info_list_new_def fold_by_id filter_unique)

text \<open>C11. A path the graph returns can be swapped along. For pools with distinct numbers the graph
  is built without a panic, and after any updates a requested path is either an error or a
  walk from the start to the goal: every hop is a pair that the pool list holds, begins at the
  token where the previous hop ended, and the path with return leads back to the start.\<close>

theorem graph_paths_are_walks:
  assumes "distinct (map pool_number src)"
  shows "\<exists>g0. token_graph_new F B (pool_info_list_new src) = Some g0 \<and>
    (\<forall>g. graph_reach F dijkstra g0 g \<longrightarrow>
      (\<exists>r. graph_get_path g start goal = Some r \<and> (\<forall>path. r = Inr path \<longrightarrow>
         path \<noteq> [] \<and> walk (pool_info_list_new src) (in_inner start) path (out_inner goal))) \<and>
      (\<exists>r. get_path_with_return g start goal = Some r \<and> (\<forall>path. r = Inr path \<longrightarrow>
         path \<noteq> [] \<and> walk (pool_info_list_new src) (in_inner start) path (in_inner start))))"
proof -
  from token_graph_new_ok [OF pools_indexed_new [OF assms], of F B] obtain g0 where
    g0: "token_graph_new F B (pool_info_list_new src) = Some g0" "tg_pools g0 = pool_info_list_new src"
      "graph_ok g0" by blast
  have "(\<exists>r. graph_get_path g start goal = Some r \<and> (\<forall>path. r = Inr path \<longrightarrow>
         path \<noteq> [] \<and> walk (pool_info_list_new src) (in_inner start) path (out_inner goal))) \<and>
      (\<exists>r. get_path_with_return g start goal = Some r \<and> (\<forall>path. r = Inr path \<longrightarrow>
         path \<noteq> [] \<and> walk (pool_info_list_new src) (in_inner start) path (in_inner start)))"
    if "graph_reach F dijkstra g0 g" for g
  proof -
    from graph_reach_ok [OF that g0(3)] g0(2) have ok: "graph_ok g" and p: "tg_pools g = pool_info_list_new src"
      by simp_all
    note go = graph_get_path_walk [OF ok, of start goal, unfolded p]
    note ret = graph_get_path_walk [OF ok, of "as_in goal" "as_out start", unfolded p]
    have "in_inner (as_in goal) = out_inner goal" "out_inner (as_out start) = in_inner start"
      by (simp_all add: as_in_def as_out_def)
    with go ret show ?thesis
      by (fastforce simp: get_path_with_return_def rbind_def split: sum.split intro: walk_append)
  qed
  with g0(1) show ?thesis by blast
qed

theorem graph_paths_are_walks_witness:
  "\<exists>r. graph_get_path \<lparr>tg_pools = pool_info_list_new one_pool, tg_graph = one_pool_path\<rparr>
      (to_in tok_a) (to_out tok_b) = Some r \<and>
     (\<forall>path. r = Inr path \<longrightarrow> path \<noteq> [] \<and> walk (pool_info_list_new one_pool) tok_a path tok_b)"
proof -
  have "distinct (map pool_number one_pool)" by (simp add: one_pool_def)
  from graph_paths_are_walks [OF this, of rat_ops exact_decimal "sample_scores (- 2 / 3)" "to_in tok_a" "to_out tok_b"]
  show ?thesis by (simp add: one_pool_graph graph_reach.fresh)
qed

lemma edges_from_ends:
  "edges_from F B by_in nodes ts = Some es \<Longrightarrow> (a, b, w) \<in> set es \<Longrightarrow> a \<in> set ts \<and> b \<in> set nodes"
  by (induction ts arbitrary: es)
    (auto simp: edges_to_def split: option.splits if_splits dest: sym simp: bind_eq_Some_conv)

lemma token_graph_new_closed:
  "token_graph_new F B pools = Some g \<Longrightarrow> cp_closed (tg_graph g)"
  by (auto simp: token_graph_new_def cached_path_new_def Let_def cp_closed_def dest: edges_from_ends)

lemma graph_reach_closed:
  "graph_reach F dijkstra g h \<Longrightarrow> cp_closed (tg_graph g) \<Longrightarrow> cp_closed (tg_graph h)"
  by (induction rule: graph_reach.induct)
    (auto simp: cp_closed_def dest!: update_graph_same)



text \<open>Two nodes that are each other's predecessors send \<open>find_path\<close> back and forth.\<close>

lemma find_path_cycle:
  assumes "find_prev F cp goals a = Some b" "find_prev F cp goals b = Some a"
  shows "find_path F cp goals [] a = None"
proof -
  define P where "P F' cp' goals' (paths :: (token_account \<times> token_account list) list) goal (r :: token_account list \<times> (token_account \<times> token_account list) list) \<longleftrightarrow>
    \<not> (F' = F \<and> cp' = cp \<and> goals' = goals \<and> paths = [] \<and> goal \<in> {a, b})" for F' cp' goals' paths goal r
  have "P F' cp' goals' paths goal r" if "find_path F' cp' goals' paths goal = Some r"
    for F' cp' goals' paths goal r
  proof (rule find_path.raw_induct [of P, OF _ that])
    fix fp F' cp' goals' paths goal r
    assume IH: "\<And>F' cp' goals' paths goal r. fp F' cp' goals' paths goal = Some r \<Longrightarrow> P F' cp' goals' paths goal r"
      and body: "(case map_of paths goal of
          None \<Rightarrow> (case find_prev F' cp' goals' goal of None \<Rightarrow> Some ([], paths)
            | Some prev \<Rightarrow> Option.bind (fp F' cp' goals' paths prev)
                (\<lambda>(more, paths'). Some (goal # more, assoc_insert goal (goal # more) paths')))
        | Some r \<Rightarrow> Some (r, paths)) = Some r"
    show "P F' cp' goals' paths goal r"
      unfolding P_def
    proof
      assume h: "F' = F \<and> cp' = cp \<and> goals' = goals \<and> paths = [] \<and> goal \<in> {a, b}"
      then obtain prev where prev: "find_prev F cp goals goal = Some prev" "prev \<in> {a, b}"
        using assms by auto
      with h body obtain q where "fp F cp goals [] prev = Some q" by (auto simp: bind_eq_Some_conv)
      from IH [OF this] prev(2) show False by (simp add: P_def)
    qed
  qed
  then have "find_path F cp goals [] a \<noteq> Some r" for r by (fastforce simp: P_def)
  then show ?thesis by (cases "find_path F cp goals [] a") blast+
qed


definition value_of :: "bigdecimal \<Rightarrow> (token_out_account \<Rightarrow> (graph_error + token_pair list) option) \<Rightarrow>
    u128 \<Rightarrow> token_out_account \<Rightarrow> u128 option" where
  "value_of B path_to initial goal = (case path_to goal of
     Some (Inr path) \<Rightarrow> (case calc_value B path initial of Inr v \<Rightarrow> Some v | Inl _ \<Rightarrow> None)
   | _ \<Rightarrow> None)"

lemma estimated_values_spec:
  assumes "\<forall>goal \<in> set goals. path_to goal \<noteq> None" "distinct (map fst acc)"
  shows "\<exists>vs. estimated_values B path_to initial goals acc = Some vs \<and> distinct (map fst vs) \<and>
    map_of vs = (\<lambda>goal. if goal \<in> set goals \<and> value_of B path_to initial goal \<noteq> None
      then value_of B path_to initial goal else map_of acc goal)"
  using assms
proof (induction goals arbitrary: acc)
  case Nil
  then show ?case by simp
next
  case (Cons goal goals)
  from Cons.prems(1) obtain r where r: "path_to goal = Some r" by auto
  have rest: "\<forall>goal \<in> set goals. path_to goal \<noteq> None" using Cons.prems(1) by simp
  show ?case
  proof (cases "value_of B path_to initial goal")
    case None
    then have "estimated_values B path_to initial (goal # goals) acc = estimated_values B path_to initial goals acc"
      by (auto simp: r value_of_def split: sum.splits)
    moreover have "(\<lambda>x. if x \<in> set (goal # goals) \<and> value_of B path_to initial x \<noteq> None
        then value_of B path_to initial x else map_of acc x) =
      (\<lambda>x. if x \<in> set goals \<and> value_of B path_to initial x \<noteq> None
        then value_of B path_to initial x else map_of acc x)" using None by (intro ext) auto
    ultimately show ?thesis using Cons.IH [OF rest Cons.prems(2)] by simp
  next
    case (Some v)
    then have step: "estimated_values B path_to initial (goal # goals) acc =
      estimated_values B path_to initial goals (assoc_insert goal v acc)"
      by (auto simp: r value_of_def split: sum.splits)
    from Cons.IH [OF rest distinct_assoc_insert [OF Cons.prems(2), of goal v]] obtain vs where
      vs: "estimated_values B path_to initial goals (assoc_insert goal v acc) = Some vs"
        "distinct (map fst vs)"
        "map_of vs = (\<lambda>x. if x \<in> set goals \<and> value_of B path_to initial x \<noteq> None
          then value_of B path_to initial x else map_of (assoc_insert goal v acc) x)" by blast
    have "map_of vs = (\<lambda>x. if x \<in> set (goal # goals) \<and> value_of B path_to initial x \<noteq> None
        then value_of B path_to initial x else map_of acc x)"
      unfolding vs(3) using Some by (intro ext) auto
    with step vs(1,2) show ?thesis by (intro exI [of _ vs] conjI) simp_all
  qed
qed

lemma list_returns_spec:
  assumes ok: "graph_ok g"
  shows "\<exists>vs. list_returns B g initial start goals = Some vs \<and> distinct (map fst vs) \<and>
    sorted_wrt (\<ge>) (map snd vs) \<and>
    set vs = {(goal, v). goal \<in> set goals \<and> (\<exists>path. get_path_with_return g start goal = Some (Inr path) \<and>
      calc_value B path initial = Inr v)}"
proof -
  let ?to = "\<lambda>goal. get_path_with_return g start goal"
  have "get_path_with_return g start goal \<noteq> None" for goal
    using graph_get_path_walk [OF ok, of start goal]
      graph_get_path_walk [OF ok, of "as_in goal" "as_out start"]
    by (auto simp: get_path_with_return_def split: sum.split)
  then have total: "\<forall>goal \<in> set goals. ?to goal \<noteq> None" by blast
  from estimated_values_spec [OF total, of "[]" B initial] obtain vs where
    vs: "estimated_values B ?to initial goals [] = Some vs" "distinct (map fst vs)"
    and m: "map_of vs = (\<lambda>goal. if goal \<in> set goals \<and> value_of B ?to initial goal \<noteq> None
      then value_of B ?to initial goal else map_of [] goal)" by auto
  define out where "out = rev (sort_key snd vs)"
  have eq: "list_returns B g initial start goals = Some out"
    by (simp add: list_returns_def list_estimated_values_def vs(1) out_def)
  have "mset out = mset vs" by (simp add: out_def)
  then have d: "distinct (map fst out)" and set_out: "set out = set vs"
    using vs(2) by (metis mset_map mset_eq_imp_distinct_iff, metis set_mset_mset)
  have sorted: "sorted_wrt (\<ge>) (map snd out)"
    using sorted_sort_key [of snd vs] by (simp add: out_def sorted_wrt_rev flip: rev_map)
  have "(goal, v) \<in> set vs \<longleftrightarrow> goal \<in> set goals \<and>
      (\<exists>path. ?to goal = Some (Inr path) \<and> calc_value B path initial = Inr v)" for goal v
  proof -
    have "(goal, v) \<in> set vs \<longleftrightarrow> map_of vs goal = Some v" using vs(2) by simp
    also have "\<dots> \<longleftrightarrow> goal \<in> set goals \<and> value_of B ?to initial goal = Some v"
      unfolding m by auto
    also have "value_of B ?to initial goal = Some v \<longleftrightarrow>
        (\<exists>path. ?to goal = Some (Inr path) \<and> calc_value B path initial = Inr v)"
      by (auto simp: value_of_def split: option.splits sum.splits)
    finally show ?thesis .
  qed
  with eq d sorted set_out show ?thesis by auto
qed

text \<open>The round trips a graph offers are ranked completely and correctly: \<^verbatim>\<open>list_returns\<close> does
  not panic, lists every requested goal whose path out and back has a value, once and with that
  value, nothing else, and the largest value first.\<close>

theorem list_returns_ranked:
  assumes "distinct (map pool_number src)"
    and "token_graph_new F B (pool_info_list_new src) = Some g0"
    and "graph_reach F dijkstra g0 g"
  shows "\<exists>vs. list_returns B g initial start goals = Some vs \<and> distinct (map fst vs) \<and>
    sorted_wrt (\<ge>) (map snd vs) \<and>
    set vs = {(goal, v). goal \<in> set goals \<and> (\<exists>path. get_path_with_return g start goal = Some (Inr path) \<and>
      calc_value B path initial = Inr v)}"
proof -
  have "graph_ok g"
    using token_graph_new_ok [OF pools_indexed_new [OF assms(1)], of F B] assms(2)
      graph_reach_ok [OF assms(3)] by auto
  then show ?thesis by (rule list_returns_spec)
qed

theorem list_returns_ranked_witness:
  "\<exists>vs. list_returns exact_decimal \<lparr>tg_pools = pool_info_list_new one_pool, tg_graph = one_pool_path\<rparr>
     100 (to_in tok_a) [to_out tok_b] = Some vs \<and> distinct (map fst vs) \<and> sorted_wrt (\<ge>) (map snd vs)"
proof -
  have "distinct (map pool_number one_pool)" by (simp add: one_pool_def)
  from list_returns_ranked [OF this one_pool_graph graph_reach.fresh, of 100 "to_in tok_a" "[to_out tok_b]"]
  show ?thesis by blast
qed

end
