(* ===== verification/Database.thy ===== *)
theory Database
  imports Effects "HOL-Library.Multiset"
begin

text \<open>
  The database as the crate \<^verbatim>\<open>persistence\<close> uses it. A query is a call of \<^verbatim>\<open>diesel\<close> on a
  pooled connection; the tables live in the world of the effects. A table is a record of the
  statements the crate issues, a parameter of every definition that uses it; \<open>table_spec\<close> states
  what SQL promises of them. A statement can fail, and then it changes nothing.
\<close>

section \<open>Database actions\<close>

type_synonym ('w, 'a) db = "'w \<Rightarrow> (error + 'a) \<times> 'w"

definition db_return :: "'a \<Rightarrow> ('w, 'a) db" where
  "db_return x w = (Inr x, w)"

definition db_fail :: "error \<Rightarrow> ('w, 'a) db" where
  "db_fail e w = (Inl e, w)"

definition db_bind :: "('w, 'a) db \<Rightarrow> ('a \<Rightarrow> ('w, 'b) db) \<Rightarrow> ('w, 'b) db" where
  "db_bind m f w = (case m w of (Inl e, w') \<Rightarrow> (Inl e, w') | (Inr x, w') \<Rightarrow> f x w')"

definition db_of :: "error + 'a \<Rightarrow> ('w, 'a) db" where
  "db_of r w = (r, w)"

text \<open>A statement on a connection of the pool: failing to get one or an error of the statement.\<close>

definition db_call :: "('w \<Rightarrow> (string + 'a) \<times> 'w) \<Rightarrow> ('w, 'a) db" where
  "db_call f w = (case f w of (Inl e, w') \<Rightarrow> (Inl (Db_Error e), w') | (Inr x, w') \<Rightarrow> (Inr x, w'))"

text \<open>A database action within an asynchronous function; it leaves no event.\<close>

definition io_db :: "('w, 'a) db \<Rightarrow> ('w, 'a) io" where
  "io_db m s = (case m (world s) of
     (Inl e, w) \<Rightarrow> (Err e, s\<lparr>world := w\<rparr>) | (Inr x, w) \<Rightarrow> (Ok x, s\<lparr>world := w\<rparr>))"

lemma emits_db [emits_intros]:
  "(\<And>x. Q [] (Ok x)) \<Longrightarrow> (\<And>e. Q [] (Err e)) \<Longrightarrow> emits (io_db m) Q"
  by (rule emitsI) (auto simp: io_db_def split: prod.splits sum.splits)

text \<open>The same rule with what the action returned.\<close>

lemma emits_db_result:
  "(\<And>x w w'. m w = (Inr x, w') \<Longrightarrow> Q [] (Ok x)) \<Longrightarrow> (\<And>e. Q [] (Err e)) \<Longrightarrow> emits (io_db m) Q"
  by (rule emitsI) (auto simp: io_db_def split: prod.splits sum.splits)

lemma db_bind_Inr_iff:
  "db_bind m f w = (Inr y, w') \<longleftrightarrow> (\<exists>x w1. m w = (Inr x, w1) \<and> f x w1 = (Inr y, w'))"
  by (auto simp: db_bind_def split: prod.splits sum.splits)

lemma db_simps [simp]:
  "db_return x w = (Inr x, w)" "db_fail e w = (Inl e, w)" "db_of r w = (r, w)"
  "db_bind (db_return x) f w = f x w" "db_bind (db_fail e) g w = (Inl e, w)"
  by (simp_all add: db_return_def db_fail_def db_of_def db_bind_def)

text \<open>Converting a list stops at the first error.\<close>

fun rmapM :: "('a \<Rightarrow> 'e + 'b) \<Rightarrow> 'a list \<Rightarrow> 'e + 'b list" where
  "rmapM f [] = Inr []"
| "rmapM f (x # xs) = rbind (f x) (\<lambda>y. rbind (rmapM f xs) (\<lambda>ys. Inr (y # ys)))"

lemma rmapM_Inr_iff: "rmapM f xs = Inr ys \<longleftrightarrow> list_all2 (\<lambda>x y. f x = Inr y) xs ys"
  by (induction xs arbitrary: ys) (auto simp: rbind_Inr_iff list_all2_Cons1)

lemma rmapM_InlD: "rmapM f xs = Inl e \<Longrightarrow> \<exists>x \<in> set xs. f x = Inl e"
  by (induction xs) (auto simp: rbind_Inl_iff)

section \<open>Tables\<close>

record ('w, 'r, 'n) table =
  t_load :: "('r \<Rightarrow> bool) \<Rightarrow> ('r \<Rightarrow> 'r \<Rightarrow> bool) \<Rightarrow> 'w \<Rightarrow> (string + 'r list) \<times> 'w"
  t_insert :: "'n list \<Rightarrow> 'w \<Rightarrow> (string + 'r list) \<times> 'w"
  t_update :: "('r \<Rightarrow> bool) \<Rightarrow> ('r \<Rightarrow> 'r) \<Rightarrow> 'w \<Rightarrow> (string + 'r list) \<times> 'w"
  t_delete :: "('r \<Rightarrow> bool) \<Rightarrow> 'w \<Rightarrow> (string + nat) \<times> 'w"

text \<open>The orders of \<^verbatim>\<open>ORDER BY\<close>.\<close>

definition unordered :: "'r \<Rightarrow> 'r \<Rightarrow> bool" where
  "unordered a b = True"

definition asc :: "('r \<Rightarrow> 'k::linorder) \<Rightarrow> 'r \<Rightarrow> 'r \<Rightarrow> bool" where
  "asc key a b \<longleftrightarrow> key a \<le> key b"

definition desc :: "('r \<Rightarrow> 'k::linorder) \<Rightarrow> 'r \<Rightarrow> 'r \<Rightarrow> bool" where
  "desc key a b \<longleftrightarrow> key b \<le> key a"

definition then_by :: "('r \<Rightarrow> 'r \<Rightarrow> bool) \<Rightarrow> ('r \<Rightarrow> 'r \<Rightarrow> bool) \<Rightarrow> 'r \<Rightarrow> 'r \<Rightarrow> bool" where
  "then_by le le' a b \<longleftrightarrow> le a b \<and> (le b a \<longrightarrow> le' a b)"

definition query_order :: "('r \<Rightarrow> 'r \<Rightarrow> bool) \<Rightarrow> bool" where
  "query_order le \<longleftrightarrow> (\<forall>x y z. le x y \<longrightarrow> le y z \<longrightarrow> le x z) \<and> (\<forall>x y. le x y \<or> le y x)"

named_theorems orderings \<open>the orders a query may ask for\<close>

lemma query_order_unordered [orderings]: "query_order unordered"
  by (simp add: query_order_def unordered_def)

lemma query_order_asc [orderings]: "query_order (asc key)"
  by (auto simp: query_order_def asc_def)

lemma query_order_desc [orderings]: "query_order (desc key)"
  by (auto simp: query_order_def desc_def)

lemma query_order_then_by [orderings]: "query_order le \<Longrightarrow> query_order le' \<Longrightarrow> query_order (then_by le le')"
  unfolding query_order_def then_by_def by blast

text \<open>\<^verbatim>\<open>first()\<close> is the first row of the result, and \<^verbatim>\<open>DISTINCT ON\<close> keeps of the ordered rows
  the first with each key.\<close>

definition db_load :: "('w, 'r, 'n) table \<Rightarrow> ('r \<Rightarrow> bool) \<Rightarrow> ('r \<Rightarrow> 'r \<Rightarrow> bool) \<Rightarrow> ('w, 'r list) db" where
  "db_load T P le = db_call (t_load T P le)"

definition db_first :: "('w, 'r, 'n) table \<Rightarrow> ('r \<Rightarrow> bool) \<Rightarrow> ('r \<Rightarrow> 'r \<Rightarrow> bool) \<Rightarrow> ('w, 'r option) db" where
  "db_first T P le = db_bind (db_load T P le)
     (\<lambda>rows. db_return (case rows of [] \<Rightarrow> None | r # _ \<Rightarrow> Some r))"

fun distinct_on :: "('r \<Rightarrow> 'k) \<Rightarrow> 'r list \<Rightarrow> 'r list" where
  "distinct_on key [] = []"
| "distinct_on key (r # rows) = r # distinct_on key (filter (\<lambda>x. key x \<noteq> key r) rows)"

text \<open>What SQL promises of a table, in terms of the rows a world holds and of when a row holds
  the values that were inserted.\<close>

definition table_spec :: "('w, 'r, 'n) table \<Rightarrow> ('w \<Rightarrow> 'r list) \<Rightarrow> ('n \<Rightarrow> 'r \<Rightarrow> bool) \<Rightarrow> bool" where
  "table_spec T rows holds \<longleftrightarrow>
     (\<forall>P le w r w'. t_load T P le w = (r, w') \<longrightarrow> rows w' = rows w \<and>
        (\<forall>xs. r = Inr xs \<longrightarrow> mset xs = mset (filter P (rows w)) \<and> (query_order le \<longrightarrow> sorted_wrt le xs))) \<and>
     (\<forall>ns w r w'. t_insert T ns w = (r, w') \<longrightarrow>
        (\<forall>e. r = Inl e \<longrightarrow> rows w' = rows w) \<and>
        (\<forall>xs. r = Inr xs \<longrightarrow> list_all2 holds ns xs \<and> mset (rows w') = mset (rows w) + mset xs)) \<and>
     (\<forall>P f w r w'. t_update T P f w = (r, w') \<longrightarrow>
        (\<forall>e. r = Inl e \<longrightarrow> rows w' = rows w) \<and>
        (\<forall>xs. r = Inr xs \<longrightarrow> mset xs = image_mset f (mset (filter P (rows w))) \<and>
          mset (rows w') = image_mset (\<lambda>x. if P x then f x else x) (mset (rows w)))) \<and>
     (\<forall>P w r w'. t_delete T P w = (r, w') \<longrightarrow>
        (\<forall>e. r = Inl e \<longrightarrow> rows w' = rows w) \<and>
        (\<forall>n. r = Inr n \<longrightarrow> mset (rows w') = mset (filter (\<lambda>x. \<not> P x) (rows w))))"

lemma t_loadD:
  assumes "table_spec T rows holds" "t_load T P le w = (r, w')"
  shows "rows w' = rows w \<and> (\<forall>xs. r = Inr xs \<longrightarrow> mset xs = mset (filter P (rows w)) \<and>
    (query_order le \<longrightarrow> sorted_wrt le xs))"
  by (rule assms(1) [unfolded table_spec_def, THEN conjunct1, THEN spec, THEN spec, THEN spec, THEN spec, THEN spec, THEN mp, OF assms(2)])

lemma t_insertD:
  assumes "table_spec T rows holds" "t_insert T ns w = (r, w')"
  shows "(\<forall>e. r = Inl e \<longrightarrow> rows w' = rows w) \<and>
    (\<forall>xs. r = Inr xs \<longrightarrow> list_all2 holds ns xs \<and> mset (rows w') = mset (rows w) + mset xs)"
  by (rule assms(1) [unfolded table_spec_def, THEN conjunct2, THEN conjunct1, THEN spec, THEN spec, THEN spec, THEN spec, THEN mp, OF assms(2)])

lemma t_deleteD:
  assumes "table_spec T rows holds" "t_delete T P w = (r, w')"
  shows "(\<forall>e. r = Inl e \<longrightarrow> rows w' = rows w) \<and>
    (\<forall>n. r = Inr n \<longrightarrow> mset (rows w') = mset (filter (\<lambda>x. \<not> P x) (rows w)))"
  by (rule assms(1) [unfolded table_spec_def, THEN conjunct2, THEN conjunct2, THEN conjunct2, THEN spec, THEN spec, THEN spec, THEN spec, THEN mp, OF assms(2)])

lemma db_load_InrD:
  assumes "table_spec T rows holds" "db_load T P le w = (Inr xs, w')"
  shows "rows w' = rows w" "mset xs = mset (filter P (rows w))" "query_order le \<Longrightarrow> sorted_wrt le xs"
proof -
  obtain r where r: "t_load T P le w = (r, w')" and "r = Inr xs"
    using assms(2) by (auto simp: db_load_def db_call_def split: prod.splits sum.splits)
  with t_loadD [OF assms(1) r] show "rows w' = rows w" "mset xs = mset (filter P (rows w))"
    "query_order le \<Longrightarrow> sorted_wrt le xs" by simp_all
qed

text \<open>The first row of an ordered query is a least one of those asked for.\<close>

lemma db_first_InrD:
  assumes "table_spec T rows holds" "query_order le" "db_first T P le w = (Inr r, w')"
  shows "rows w' = rows w"
    and "r = None \<Longrightarrow> \<forall>x \<in> set (rows w). \<not> P x"
    and "r = Some x \<Longrightarrow> x \<in> set (rows w) \<and> P x \<and> (\<forall>y \<in> set (rows w). P y \<longrightarrow> le x y)"
proof -
  from assms(3) obtain xs where xs: "db_load T P le w = (Inr xs, w')"
    and r: "r = (case xs of [] \<Rightarrow> None | y # _ \<Rightarrow> Some y)"
    by (auto simp: db_first_def db_bind_Inr_iff)
  note L = db_load_InrD [OF assms(1) xs]
  have set: "set xs = {y \<in> set (rows w). P y}" using L(2) by (metis set_filter set_mset_mset)
  have refl: "le y y" for y using assms(2) by (auto simp: query_order_def)
  show "rows w' = rows w" by (rule L(1))
  show "\<forall>x \<in> set (rows w). \<not> P x" if "r = None" using that set r by (auto split: list.splits)
  show "x \<in> set (rows w) \<and> P x \<and> (\<forall>y \<in> set (rows w). P y \<longrightarrow> le x y)" if "r = Some x"
  proof -
    from that r obtain ys where ys: "xs = x # ys" by (auto split: list.splits)
    have mem: "y \<in> set xs" if "y \<in> set (rows w)" "P y" for y using that set by blast
    have "x \<in> set xs" by (simp add: ys)
    moreover have "le x y" if "y \<in> set xs" for y
      using L(3) [OF assms(2)] that refl by (auto simp: ys)
    ultimately show ?thesis using set mem by blast
  qed
qed

lemma distinct_on_keys: "distinct (map key (distinct_on key xs))"
  "set (map key (distinct_on key xs)) = set (map key xs)" "set (distinct_on key xs) \<subseteq> set xs"
proof (induction key xs rule: distinct_on.induct)
  case (2 key r rows)
  {
    case 1
    show ?case using "2.IH"(1,2) by auto
  next
    case 2
    show ?case using "2.IH"(2) by auto
  next
    case 3
    show ?case using "2.IH"(3) by auto
  }
qed simp_all

text \<open>Of the rows with one key, the one kept comes first in the order of the query.\<close>

lemma distinct_on_first:
  assumes "sorted_wrt le xs" "\<forall>x. le x x" "x \<in> set (distinct_on key xs)" "y \<in> set xs" "key y = key x"
  shows "le x y"
  using assms
proof (induction key xs rule: distinct_on.induct)
  case (2 key r rows)
  have sorted: "sorted_wrt le (filter (\<lambda>x. key x \<noteq> key r) rows)"
    using "2.prems"(1) by (simp add: sorted_wrt_filter)
  show ?case
  proof (cases "x = r")
    case True
    with "2.prems" show ?thesis by auto
  next
    case False
    with "2.prems"(3) have x: "x \<in> set (distinct_on key (filter (\<lambda>x. key x \<noteq> key r) rows))" by simp
    with distinct_on_keys(3) have "key x \<noteq> key r" by fastforce
    with "2.prems"(4,5) have "y \<in> set (filter (\<lambda>x. key x \<noteq> key r) rows)" by auto
    from "2.IH" [OF sorted "2.prems"(2) x this "2.prems"(5)] show ?thesis .
  qed
qed simp

section \<open>A table as a list\<close>

text \<open>The rows in the order of their insertion, numbered from one; such a table satisfies the
  specification.\<close>

fun insort_by :: "('r \<Rightarrow> 'r \<Rightarrow> bool) \<Rightarrow> 'r \<Rightarrow> 'r list \<Rightarrow> 'r list" where
  "insort_by le x [] = [x]"
| "insort_by le x (y # ys) = (if le x y then x # y # ys else y # insort_by le x ys)"

definition sort_by :: "('r \<Rightarrow> 'r \<Rightarrow> bool) \<Rightarrow> 'r list \<Rightarrow> 'r list" where
  "sort_by le xs = foldr (insort_by le) xs []"

definition list_table :: "(nat \<Rightarrow> 'n \<Rightarrow> 'r) \<Rightarrow> ('r list, 'r, 'n) table" where
  "list_table row = \<lparr>
     t_load = (\<lambda>P le w. (Inr (sort_by le (filter P w)), w)),
     t_insert = (\<lambda>ns w. let new = map (\<lambda>(i, n). row (Suc (length w + i)) n) (enumerate 0 ns)
       in (Inr new, w @ new)),
     t_update = (\<lambda>P f w. (Inr (map f (filter P w)), map (\<lambda>x. if P x then f x else x) w)),
     t_delete = (\<lambda>P w. (Inr (length (filter P w)), filter (\<lambda>x. \<not> P x) w))\<rparr>"

lemma mset_insort_by [simp]: "mset (insort_by le x xs) = add_mset x (mset xs)"
  by (induction xs) auto

lemma sorted_insort_by:
  assumes "query_order le" "sorted_wrt le xs"
  shows "sorted_wrt le (insort_by le x xs)"
  using assms(2)
proof (induction xs)
  case (Cons y ys)
  have set: "set (insort_by le x ys) = insert x (set ys)"
    by (metis mset_insort_by set_mset_add_mset_insert set_mset_mset)
  show ?case
  proof (cases "le x y")
    case True
    with Cons.prems assms(1) show ?thesis by (auto simp: query_order_def)
  next
    case False
    with assms(1) have "le y x" by (auto simp: query_order_def)
    with False Cons set show ?thesis by auto
  qed
qed simp

lemma mset_sort_by [simp]: "mset (sort_by le xs) = mset xs"
  by (induction xs) (simp_all add: sort_by_def)

lemma sorted_sort_by: "query_order le \<Longrightarrow> sorted_wrt le (sort_by le xs)"
  by (induction xs) (simp_all add: sort_by_def sorted_insort_by)

lemma list_table_spec:
  assumes "\<And>i n. holds n (row i n)"
  shows "table_spec (list_table row) (\<lambda>w. w) holds"
proof -
  have "list_all2 holds ns (map (\<lambda>(i, n). row (Suc (k + i)) n) (enumerate 0 ns))" for ns k
    by (auto simp: list_all2_conv_all_nth nth_enumerate_eq assms)
  then show ?thesis
    by (auto simp: table_spec_def list_table_def Let_def sorted_sort_by mset_map)
qed

section \<open>Retention\<close>

text \<open>\<^verbatim>\<open>TimeDelta::days\<close> in microseconds.\<close>

definition days_us :: "u32 \<Rightarrow> int" where
  "days_us d = uint d * 86400000000"

lemma days_us_mono: "a \<le> b \<Longrightarrow> days_us a \<le> days_us b"
  by (simp add: days_us_def word_le_def)

text \<open>The contract of the cleanups of the stores: zero days skip the cleanup, and otherwise one
  statement deletes the rows whose time is before the retention period, which is never shorter
  than a minimum.\<close>

locale retention =
  fixes cleanup :: "('w, 'r, 'n) table \<Rightarrow> ('w \<Rightarrow> int) \<Rightarrow> u32 \<Rightarrow> ('w, unit) db"
    and stamp :: "'r \<Rightarrow> int"
    and min_days :: u32
  assumes cleanup_zero: "cleanup T clock 0 w = (Inr (), w)"
    and cleanup_deletes: "days \<noteq> 0 \<Longrightarrow> cleanup T clock days w =
      db_bind (db_call (t_delete T (\<lambda>r. stamp r < clock w - days_us (max days min_days))))
        (\<lambda>_. db_return ()) w"
begin

text \<open>A cleanup that fails or is skipped changes no row; one that succeeds leaves exactly the rows
  of the retention period.\<close>

lemma cleanup_effect:
  assumes "table_spec T rows holds" "cleanup T clock days w = (r, w')"
  shows "mset (rows w') = (if days \<noteq> 0 \<and> r = Inr ()
    then filter_mset (\<lambda>x. clock w - days_us (max days min_days) \<le> stamp x) (mset (rows w))
    else mset (rows w))"
proof (cases "days = 0")
  case True
  with assms(2) show ?thesis by (simp add: cleanup_zero)
next
  case False
  obtain q w1 where q: "t_delete T (\<lambda>r. stamp r < clock w - days_us (max days min_days)) w = (q, w1)"
    by (cases "t_delete T (\<lambda>r. stamp r < clock w - days_us (max days min_days)) w")
  note D = t_deleteD [OF assms(1) q]
  show ?thesis
  proof (cases q)
    case (Inl e)
    with D q assms(2) False show ?thesis by (auto simp: cleanup_deletes db_bind_def db_call_def)
  next
    case (Inr n)
    then have "r = Inr ()" "w' = w1" using q assms(2) False
      by (auto simp: cleanup_deletes db_bind_def db_call_def)
    with D Inr False show ?thesis by (simp add: mset_filter not_less)
  qed
qed

lemma cleanup_keeps_recent:
  assumes "table_spec T rows holds" "cleanup T clock days w = (r, w')"
    and "clock w - days_us min_days \<le> stamp x"
  shows "count (mset (rows w')) x = count (mset (rows w)) x"
proof -
  have "clock w - days_us (max days min_days) \<le> stamp x"
    using assms(3) days_us_mono [of min_days "max days min_days"] by simp
  then show ?thesis using cleanup_effect [OF assms(1,2)] by simp
qed

end

end
