(* ===== verification/Pool_Store.thy ===== *)
theory Pool_Store
  imports Database Dex
begin

text \<open>
  \<^verbatim>\<open>persistence/src/pool_info.rs\<close>: the table of recorded pools. A row keeps the pool number as a
  signed integer of the same width, the lists as JSON values; \<^verbatim>\<open>serde_json\<close> is the parameter
  \<open>pool_json\<close>. Times are microseconds, and the clock is a function of the world. The cleanup
  that \<^verbatim>\<open>batch_insert\<close> starts in the background is an operation of its own.
\<close>

section \<open>Rows\<close>

record 'j db_pool_info =
  dbp_id :: int
  dbp_pool_id :: "32 word"
  dbp_kind :: string
  dbp_tokens :: 'j
  dbp_amounts :: 'j
  dbp_total_fee :: "32 word"
  dbp_supply :: 'j
  dbp_amp :: "64 word"
  dbp_timestamp :: int

record 'j new_db_pool_info =
  ndp_pool_id :: "32 word"
  ndp_kind :: string
  ndp_tokens :: 'j
  ndp_amounts :: 'j
  ndp_total_fee :: "32 word"
  ndp_supply :: 'j
  ndp_amp :: "64 word"
  ndp_timestamp :: int

record 'j pool_json =
  ser_tokens :: "token_account list \<Rightarrow> 'j option"
  de_tokens :: "'j \<Rightarrow> token_account list option"
  ser_amounts :: "u128 list \<Rightarrow> 'j option"
  de_amounts :: "'j \<Rightarrow> u128 list option"
  ser_supply :: "u128 \<Rightarrow> 'j option"
  de_supply :: "'j \<Rightarrow> u128 option"

text \<open>Serialisation succeeds and is undone by deserialisation.\<close>

definition pool_json_spec :: "'j pool_json \<Rightarrow> bool" where
  "pool_json_spec J \<longleftrightarrow> (\<forall>x. \<exists>j. ser_tokens J x = Some j \<and> de_tokens J j = Some x) \<and>
     (\<forall>x. \<exists>j. ser_amounts J x = Some j \<and> de_amounts J j = Some x) \<and>
     (\<forall>x. \<exists>j. ser_supply J x = Some j \<and> de_supply J j = Some x)"

definition pool_from_db :: "'j pool_json \<Rightarrow> 'j db_pool_info \<Rightarrow> error + pool_info" where
  "pool_from_db J r =
     rbind (ok_or (de_tokens J (dbp_tokens r)) Decode_Error) (\<lambda>tokens.
     rbind (ok_or (de_amounts J (dbp_amounts r)) Decode_Error) (\<lambda>am.
     rbind (ok_or (de_supply J (dbp_supply r)) Decode_Error) (\<lambda>supply.
     Inr \<lparr>pool_number = dbp_pool_id r,
          bare = \<lparr>pool_kind = dbp_kind r, token_account_ids = tokens, amounts = am,
            total_fee = dbp_total_fee r, shares_total_supply = supply, amp = dbp_amp r\<rparr>,
          timestamp = dbp_timestamp r\<rparr>)))"

definition pool_to_new_db :: "'j pool_json \<Rightarrow> pool_info \<Rightarrow> error + 'j new_db_pool_info" where
  "pool_to_new_db J p =
     rbind (ok_or (ser_tokens J (token_account_ids (bare p))) Decode_Error) (\<lambda>tokens.
     rbind (ok_or (ser_amounts J (amounts (bare p))) Decode_Error) (\<lambda>am.
     rbind (ok_or (ser_supply J (shares_total_supply (bare p))) Decode_Error) (\<lambda>supply.
     Inr \<lparr>ndp_pool_id = pool_number p, ndp_kind = pool_kind (bare p), ndp_tokens = tokens,
          ndp_amounts = am, ndp_total_fee = total_fee (bare p), ndp_supply = supply,
          ndp_amp = amp (bare p), ndp_timestamp = timestamp p\<rparr>)))"

section \<open>Statements\<close>

type_synonym ('w, 'j) pool_table = "('w, 'j db_pool_info, 'j new_db_pool_info) table"

definition pool_batch_insert :: "'j pool_json \<Rightarrow> ('w, 'j) pool_table \<Rightarrow> pool_info list \<Rightarrow> ('w, unit) db" where
  "pool_batch_insert J T ps =
     (if ps = [] then db_return ()
      else db_bind (db_of (rmapM (pool_to_new_db J) ps)) (\<lambda>new.
           db_bind (db_call (t_insert T new)) (\<lambda>_. db_return ())))"

definition POOL_MIN_RETENTION_DAYS :: u32 where "POOL_MIN_RETENTION_DAYS = 7"

definition pool_cleanup_old_records :: "('w, 'j) pool_table \<Rightarrow> ('w \<Rightarrow> int) \<Rightarrow> u32 \<Rightarrow> ('w, unit) db" where
  "pool_cleanup_old_records T clock retention_days w =
     (if retention_days = 0 then db_return () w
      else let effective_days = max retention_days POOL_MIN_RETENTION_DAYS;
               cutoff = clock w - days_us effective_days
           in db_bind (db_call (t_delete T (\<lambda>r. dbp_timestamp r < cutoff))) (\<lambda>_. db_return ()) w)"

definition pool_of_row :: "'j pool_json \<Rightarrow> 'j db_pool_info option \<Rightarrow> ('w, pool_info option) db" where
  "pool_of_row J r = (case r of
     None \<Rightarrow> db_return None
   | Some row \<Rightarrow> db_bind (db_of (pool_from_db J row)) (\<lambda>p. db_return (Some p)))"

definition pool_get_latest :: "'j pool_json \<Rightarrow> ('w, 'j) pool_table \<Rightarrow> u32 \<Rightarrow> ('w, pool_info option) db" where
  "pool_get_latest J T pid =
     db_bind (db_first T (\<lambda>r. dbp_pool_id r = pid) (desc dbp_timestamp)) (pool_of_row J)"

definition pool_get_latest_before :: "'j pool_json \<Rightarrow> ('w, 'j) pool_table \<Rightarrow> u32 \<Rightarrow> int \<Rightarrow>
    ('w, pool_info option) db" where
  "pool_get_latest_before J T pid ts =
     db_bind (db_first T (\<lambda>r. dbp_pool_id r = pid \<and> dbp_timestamp r < ts) (desc dbp_timestamp))
       (pool_of_row J)"

definition get_all_unique_between :: "'j pool_json \<Rightarrow> ('w, 'j) pool_table \<Rightarrow> int \<Rightarrow> int \<Rightarrow>
    ('w, pool_info list) db" where
  "get_all_unique_between J T start end' =
     db_bind (db_load T (\<lambda>r. start \<le> dbp_timestamp r \<and> dbp_timestamp r \<le> end')
       (then_by (asc (\<lambda>r. sint (dbp_pool_id r))) (desc dbp_timestamp)))
       (\<lambda>rows. db_of (rmapM (pool_from_db J) (distinct_on dbp_pool_id rows)))"

definition read_from_db :: "'j pool_json \<Rightarrow> ('w, 'j) pool_table \<Rightarrow> ('w \<Rightarrow> int) \<Rightarrow> int option \<Rightarrow>
    ('w, pool_info_list) db" where
  "read_from_db J T clock ts =
     db_bind (case ts of
         Some t \<Rightarrow> pool_get_latest_before J T 0 t
       | None \<Rightarrow> pool_get_latest J T 0) (\<lambda>r.
     case r of
       None \<Rightarrow> db_fail (Msg ''no pool found'' [])
     | Some first \<Rightarrow> (\<lambda>w.
         db_bind (get_all_unique_between J T (timestamp first)
             (case ts of Some t \<Rightarrow> t | None \<Rightarrow> clock w))
           (\<lambda>ps. db_return (pool_info_list_new ps)) w))"

definition write_to_db :: "'j pool_json \<Rightarrow> ('w, 'j) pool_table \<Rightarrow> pool_info_list \<Rightarrow> ('w, unit) db" where
  "write_to_db J T l = pool_batch_insert J T (pool_list l)"

section \<open>Conversions\<close>

text \<open>A row holds a new row's values.\<close>

definition pool_row_holds :: "'j new_db_pool_info \<Rightarrow> 'j db_pool_info \<Rightarrow> bool" where
  "pool_row_holds n r \<longleftrightarrow> dbp_pool_id r = ndp_pool_id n \<and> dbp_kind r = ndp_kind n \<and>
     dbp_tokens r = ndp_tokens n \<and> dbp_amounts r = ndp_amounts n \<and> dbp_total_fee r = ndp_total_fee n \<and>
     dbp_supply r = ndp_supply n \<and> dbp_amp r = ndp_amp n \<and> dbp_timestamp r = ndp_timestamp n"

lemma pool_round_trip:
  assumes "pool_json_spec J"
  shows "\<exists>n. pool_to_new_db J p = Inr n \<and> (\<forall>r. pool_row_holds n r \<longrightarrow> pool_from_db J r = Inr p)"
proof -
  from assms obtain a b c where
    "ser_tokens J (token_account_ids (bare p)) = Some a" "de_tokens J a = Some (token_account_ids (bare p))"
    "ser_amounts J (amounts (bare p)) = Some b" "de_amounts J b = Some (amounts (bare p))"
    "ser_supply J (shares_total_supply (bare p)) = Some c" "de_supply J c = Some (shares_total_supply (bare p))"
    unfolding pool_json_spec_def by metis
  then show ?thesis by (auto simp: pool_to_new_db_def pool_from_db_def pool_row_holds_def)
qed

lemma pool_from_db_fields:
  "pool_from_db J r = Inr p \<Longrightarrow> pool_number p = dbp_pool_id r \<and> timestamp p = dbp_timestamp r"
  by (auto simp: pool_from_db_def rbind_Inr_iff)

lemma list_all2_map_eq: "list_all2 (\<lambda>x y. g y = f x) xs ys \<Longrightarrow> map g ys = map f xs"
  by (induction rule: list_all2_induct) auto

lemma from_db_numbers:
  assumes "rmapM (pool_from_db J) rows = Inr ps"
  shows "map pool_number ps = map dbp_pool_id rows"
proof -
  have "list_all2 (\<lambda>r p. pool_from_db J r = Inr p) rows ps" using assms by (simp add: rmapM_Inr_iff)
  then have "list_all2 (\<lambda>r p. pool_number p = dbp_pool_id r) rows ps"
    by (rule list_all2_mono) (auto dest: pool_from_db_fields)
  then show ?thesis by (rule list_all2_map_eq)
qed

lemma get_all_unique_distinct:
  assumes "get_all_unique_between J T a b w = (Inr ps, w')"
  shows "distinct (map pool_number ps)"
  using assms distinct_on_keys(1)
  by (auto simp: get_all_unique_between_def db_bind_Inr_iff dest!: from_db_numbers)

lemma read_from_db_distinct:
  assumes "read_from_db J T clock ts w = (Inr l, w')"
  shows "\<exists>ps. l = pool_info_list_new ps \<and> distinct (map pool_number ps)"
  using assms
  by (auto simp: read_from_db_def db_bind_Inr_iff split: option.splits dest!: get_all_unique_distinct)

text \<open>The pool list depends only on which pools it is made of.\<close>

lemma pool_info_list_new_perm:
  assumes "mset ps = mset qs" "distinct (map pool_number ps)"
  shows "pool_info_list_new ps = pool_info_list_new qs"
proof -
  have dq: "distinct (map pool_number qs)" using assms by (metis mset_map mset_eq_imp_distinct_iff)
  have unique: "filter (\<lambda>x. pool_number k = pool_number x) xs = [k]"
    if "k \<in> set xs" "distinct (map pool_number xs)" for k xs
    using filter_unique [OF that(2,1)] by (simp add: eq_commute)
  have ds: "distinct (map pool_number (sort_key pool_number qs))"
    using dq by (metis mset_map mset_sort mset_eq_imp_distinct_iff)
  have "sort_key pool_number ps = sort_key pool_number qs"
  proof (rule properties_for_sort_key)
    fix k assume "k \<in> set (sort_key pool_number qs)"
    then have "k \<in> set qs" "k \<in> set ps" using assms(1) by (simp, metis mset_eq_setD set_sort)
    then show "filter (\<lambda>x. pool_number k = pool_number x) (sort_key pool_number qs) =
        filter (\<lambda>x. pool_number k = pool_number x) ps"
      using unique [OF _ ds] unique [OF _ assms(2)] by simp
  qed (use assms(1) in simp_all)
  moreover have "fold (\<lambda>p m. m(pool_number p \<mapsto> p)) ps Map.empty = fold (\<lambda>p m. m(pool_number p \<mapsto> p)) qs Map.empty"
  proof
    fix n
    show "fold (\<lambda>p m. m(pool_number p \<mapsto> p)) ps Map.empty n = fold (\<lambda>p m. m(pool_number p \<mapsto> p)) qs Map.empty n"
    proof (cases "\<exists>k \<in> set ps. pool_number k = n")
      case True
      then obtain k where k: "k \<in> set ps" "n = pool_number k" by blast
      then have "k \<in> set qs" using assms(1) by (metis mset_eq_setD)
      then show ?thesis
        unfolding fold_by_id k(2) filter_unique [OF assms(2) k(1)] filter_unique [OF dq \<open>k \<in> set qs\<close>] by simp
    next
      case False
      then have "filter (\<lambda>p. pool_number p = n) ps = []" "filter (\<lambda>p. pool_number p = n) qs = []"
        using assms(1) by (auto simp: filter_empty_conv dest: mset_eq_setD)
      then show ?thesis by (simp add: fold_by_id)
    qed
  qed
  ultimately show ?thesis by (simp add: pool_info_list_new_def)
qed

section \<open>Reading back what was written\<close>

text \<open>The rows an insertion of pools adds, each converted back to its pool.\<close>

lemma pool_batch_insert_rows:
  assumes "table_spec T rows pool_row_holds" "pool_json_spec J" "ps \<noteq> []"
    and "pool_batch_insert J T ps w = (Inr u, w')"
  shows "\<exists>new. list_all2 (\<lambda>p r. pool_from_db J r = Inr p) ps new \<and> mset (rows w') = mset (rows w) + mset new"
proof -
  from assms(3,4) obtain ns new where ns: "rmapM (pool_to_new_db J) ps = Inr ns"
    and "db_call (t_insert T ns) w = (Inr new, w')"
    by (auto simp: pool_batch_insert_def db_bind_Inr_iff)
  then have ins: "t_insert T ns w = (Inr new, w')"
    by (auto simp: db_call_def split: prod.splits sum.splits)
  from t_insertD [OF assms(1) ins] have h: "list_all2 pool_row_holds ns new"
    and m: "mset (rows w') = mset (rows w) + mset new" by simp_all
  have n: "list_all2 (\<lambda>p n. pool_to_new_db J p = Inr n) ps ns" using ns by (simp add: rmapM_Inr_iff)
  have "list_all2 (\<lambda>p r. pool_from_db J r = Inr p) ps new"
  proof (rule list_all2_trans [OF _ n h])
    fix p n r assume "pool_to_new_db J p = Inr n" "pool_row_holds n r"
    then show "pool_from_db J r = Inr p" using pool_round_trip [OF assms(2), of p] by auto
  qed
  with m show ?thesis by blast
qed

lemma mset_distinct_on:
  assumes "distinct (map key xs)"
  shows "mset (distinct_on key xs) = mset xs"
proof -
  have "distinct_on key xs = xs" using assms
  proof (induction key xs rule: distinct_on.induct)
    case (2 key r rows)
    then have "filter (\<lambda>x. key x \<noteq> key r) rows = rows" by (force simp: filter_id_conv image_iff)
    with 2 show ?case by simp
  qed simp
  then show ?thesis by simp
qed

lemma mset_list_all2:
  assumes "list_all2 (\<lambda>x y. f y = Inr x) xs ys" "mset zs = mset ys"
  shows "\<exists>us. rmapM f zs = Inr us \<and> mset us = mset xs"
proof -
  have ok: "f z = Inr (projr (f z))" if "z \<in> set zs" for z
  proof -
    have "z \<in> set ys" using that assms(2) by (metis mset_eq_setD)
    then show ?thesis using assms(1) by (auto simp: list_all2_conv_all_nth in_set_conv_nth)
  qed
  have xs: "map (\<lambda>y. projr (f y)) ys = xs"
    using assms(1) by (induction rule: list_all2_induct) auto
  define us where "us = map (\<lambda>z. projr (f z)) zs"
  have "list_all2 (\<lambda>x y. f x = Inr y) zs us" using ok by (simp add: list_all2_conv_all_nth us_def)
  moreover have "mset us = mset xs" unfolding us_def xs [symmetric] mset_map assms(2) ..
  ultimately show ?thesis by (auto simp: rmapM_Inr_iff)
qed

text \<open>The pools of one recording: pool 0 is the oldest of them, and all are newer than what the
  table held before.\<close>

definition one_recording :: "pool_info list \<Rightarrow> 'j db_pool_info list \<Rightarrow> int \<Rightarrow> bool" where
  "one_recording ps old now \<longleftrightarrow> distinct (map pool_number ps) \<and>
     (\<exists>p0 \<in> set ps. pool_number p0 = 0 \<and>
        (\<forall>p \<in> set ps. timestamp p0 \<le> timestamp p \<and> timestamp p \<le> now) \<and>
        (\<forall>r \<in> set old. dbp_timestamp r < timestamp p0))"

lemma db_load_InlD: "db_load T P le w = (Inl e, w') \<Longrightarrow> \<exists>m. e = Db_Error m"
  by (auto simp: db_load_def db_call_def split: prod.splits sum.splits)

lemma db_first_InlD: "db_first T P le w = (Inl e, w') \<Longrightarrow> \<exists>m. e = Db_Error m"
  by (auto simp: db_first_def db_bind_def dest: db_load_InlD split: prod.splits sum.splits)

text \<open>The window from the oldest pool of a recording on holds that recording and nothing else.\<close>

lemma get_all_unique_recording:
  assumes spec: "table_spec T rows pool_row_holds"
    and new: "list_all2 (\<lambda>p r. pool_from_db J r = Inr p) ps new"
    and rows: "mset (rows w) = mset old + mset new"
    and d: "distinct (map pool_number ps)"
    and old: "\<forall>r \<in> set old. dbp_timestamp r < a"
    and window: "\<forall>p \<in> set ps. a \<le> timestamp p \<and> timestamp p \<le> b"
    and run: "get_all_unique_between J T a b w = (r, w')"
  shows "(\<exists>us. r = Inr us \<and> mset us = mset ps) \<or> (\<exists>m. r = Inl (Db_Error m))"
proof (cases "db_load T (\<lambda>r. a \<le> dbp_timestamp r \<and> dbp_timestamp r \<le> b)
    (then_by (asc (\<lambda>r. sint (dbp_pool_id r))) (desc dbp_timestamp)) w")
  case (Pair q w1)
  show ?thesis
  proof (cases q)
    case (Inl e)
    with Pair run show ?thesis
      by (auto simp: get_all_unique_between_def db_bind_def dest: db_load_InlD)
  next
    case (Inr xs)
    have nums: "map dbp_pool_id new = map pool_number ps" "map dbp_timestamp new = map timestamp ps"
      using new by (induction rule: list_all2_induct) (auto dest: pool_from_db_fields)
    have "timestamp ` set ps = dbp_timestamp ` set new" using nums(2) by (metis list.set_map)
    then have "a \<le> dbp_timestamp r \<and> dbp_timestamp r \<le> b" if "r \<in> set new" for r
      using window that by (metis (no_types, lifting) image_iff)
    then have "filter_mset (\<lambda>r. a \<le> dbp_timestamp r \<and> dbp_timestamp r \<le> b) (mset new) = mset new"
      by (simp add: filter_mset_eq_conv)
    moreover have "filter_mset (\<lambda>r. a \<le> dbp_timestamp r \<and> dbp_timestamp r \<le> b) (mset old) = {#}"
      using old by fastforce
    moreover have "mset xs = filter_mset (\<lambda>r. a \<le> dbp_timestamp r \<and> dbp_timestamp r \<le> b) (mset (rows w))"
      using db_load_InrD(2) [OF spec Pair [unfolded Inr]] by (simp add: mset_filter)
    ultimately have xs: "mset xs = mset new" by (simp add: rows)
    then have "mset (map dbp_pool_id xs) = mset (map pool_number ps)"
      unfolding nums(1) [symmetric] mset_map by simp
    with d have "distinct (map dbp_pool_id xs)" by (metis mset_eq_imp_distinct_iff)
    from mset_distinct_on [OF this] xs have "mset (distinct_on dbp_pool_id xs) = mset new" by simp
    from mset_list_all2 [OF new this] obtain us
      where "rmapM (pool_from_db J) (distinct_on dbp_pool_id xs) = Inr us" "mset us = mset ps" by blast
    with Pair Inr run show ?thesis by (auto simp: get_all_unique_between_def db_bind_def)
  qed
qed

text \<open>The latest record of pool 0 is the one of the recording.\<close>

lemma pool_get_latest_recording:
  assumes spec: "table_spec T rows pool_row_holds"
    and new: "list_all2 (\<lambda>p r. pool_from_db J r = Inr p) ps new"
    and rows: "mset (rows w) = mset old + mset new"
    and d: "distinct (map pool_number ps)"
    and p0: "p0 \<in> set ps" "pool_number p0 = 0"
    and old: "\<forall>r \<in> set old. dbp_timestamp r < timestamp p0"
    and run: "pool_get_latest J T 0 w = (r, w')"
  shows "(r = Inr (Some p0) \<and> rows w' = rows w) \<or> (\<exists>m. r = Inl (Db_Error m))"
proof (cases "db_first T (\<lambda>r. dbp_pool_id r = 0) (desc dbp_timestamp) w")
  case (Pair q w1)
  have "set_mset (mset (rows w)) = set_mset (mset old + mset new)" by (simp only: rows)
  then have set: "set (rows w) = set old \<union> set new" by simp
  have "\<exists>r \<in> set new. pool_from_db J r = Inr p0"
    using new p0(1) by (induction rule: list_all2_induct) auto
  then obtain r0 where r0: "r0 \<in> set new" "pool_from_db J r0 = Inr p0" by blast
  note r0' = pool_from_db_fields [OF r0(2)]
  show ?thesis
  proof (cases q)
    case (Inl e)
    with Pair run show ?thesis by (auto simp: pool_get_latest_def db_bind_def dest: db_first_InlD)
  next
    case (Inr o1)
    note F = db_first_InrD [OF spec query_order_desc Pair [unfolded Inr]]
    have "o1 \<noteq> None" using F(2) r0(1) r0' set p0(2) by auto
    then obtain x where x: "o1 = Some x" by blast
    have "dbp_timestamp r0 \<le> dbp_timestamp x" "x \<in> set (rows w)" "dbp_pool_id x = 0"
      using F(3) [OF x] r0(1) r0' set p0(2) by (auto simp: desc_def)
    moreover from this have "x \<notin> set old" using old r0' by fastforce
    ultimately have "x \<in> set new" "dbp_pool_id x = 0" using set by auto
    from new \<open>x \<in> set new\<close> have "\<exists>p \<in> set ps. pool_from_db J x = Inr p"
      by (induction rule: list_all2_induct) auto
    then obtain p where p: "p \<in> set ps" "pool_from_db J x = Inr p" by blast
    have "pool_number p = pool_number p0"
      using pool_from_db_fields [OF p(2)] p0(2) \<open>dbp_pool_id x = 0\<close> by simp
    then have "p = p0" using d p(1) p0(1) by (simp add: distinct_map inj_on_def)
    with p(2) F(1) Pair Inr x run show ?thesis
      by (auto simp: pool_get_latest_def pool_of_row_def db_bind_def)
  qed
qed

lemma read_recording:
  assumes spec: "table_spec T rows pool_row_holds"
    and new: "list_all2 (\<lambda>p r. pool_from_db J r = Inr p) ps new"
    and rows: "mset (rows w) = mset old + mset new"
    and rec: "one_recording ps old now"
    and clock: "\<And>w'. rows w' = rows w \<Longrightarrow> now \<le> clock w'"
    and run: "read_from_db J T clock None w = (r, w')"
  shows "r = Inr (pool_info_list_new ps) \<or> (\<exists>m. r = Inl (Db_Error m))"
proof -
  obtain p0 where d: "distinct (map pool_number ps)" and p0: "p0 \<in> set ps" "pool_number p0 = 0"
    and window: "\<forall>p \<in> set ps. timestamp p0 \<le> timestamp p \<and> timestamp p \<le> now"
    and older: "\<forall>r \<in> set old. dbp_timestamp r < timestamp p0"
    using rec by (auto simp: one_recording_def)
  obtain q w1 where q: "pool_get_latest J T 0 w = (q, w1)" by (cases "pool_get_latest J T 0 w")
  from pool_get_latest_recording [OF spec new rows d p0 older q] show ?thesis
  proof (elim disjE conjE exE)
    assume q': "q = Inr (Some p0)" and w1: "rows w1 = rows w"
    obtain s w2 where s: "get_all_unique_between J T (timestamp p0) (clock w1) w1 = (s, w2)"
      by (cases "get_all_unique_between J T (timestamp p0) (clock w1) w1")
    have "\<forall>p \<in> set ps. timestamp p0 \<le> timestamp p \<and> timestamp p \<le> clock w1"
      using window clock [OF w1] by fastforce
    from get_all_unique_recording [OF spec new rows [folded w1] d older this s]
    consider us where "s = Inr us" "mset us = mset ps" | m where "s = Inl (Db_Error m)" by blast
    then show ?thesis
    proof cases
      case 1
      have "pool_info_list_new us = pool_info_list_new ps"
        by (rule pool_info_list_new_perm [symmetric]) (use 1 d in simp_all)
      with 1 q q' s run show ?thesis by (auto simp: read_from_db_def db_bind_def)
    next
      case 2
      with q q' s run show ?thesis by (auto simp: read_from_db_def db_bind_def)
    qed
  next
    fix m assume "q = Inl (Db_Error m)"
    with q run show ?thesis by (auto simp: read_from_db_def db_bind_def)
  qed
qed

section \<open>Retention of pools\<close>

interpretation pool_retention: retention pool_cleanup_old_records dbp_timestamp POOL_MIN_RETENTION_DAYS
  by unfold_locales (simp_all add: pool_cleanup_old_records_def Let_def)

section \<open>The store keeps the pools\<close>


text \<open>A pool list, a JSON that keeps the values, and an empty table.\<close>

datatype sample_json = J_Tokens "token_account list" | J_Amounts "u128 list" | J_Supply u128

definition sample_pool_json :: "sample_json pool_json" where
  "sample_pool_json = \<lparr>ser_tokens = (\<lambda>x. Some (J_Tokens x)),
     de_tokens = (\<lambda>j. case j of J_Tokens x \<Rightarrow> Some x | _ \<Rightarrow> None),
     ser_amounts = (\<lambda>x. Some (J_Amounts x)),
     de_amounts = (\<lambda>j. case j of J_Amounts x \<Rightarrow> Some x | _ \<Rightarrow> None),
     ser_supply = (\<lambda>x. Some (J_Supply x)),
     de_supply = (\<lambda>j. case j of J_Supply x \<Rightarrow> Some x | _ \<Rightarrow> None)\<rparr>"

lemma sample_pool_json_spec: "pool_json_spec sample_pool_json"
  by (simp add: pool_json_spec_def sample_pool_json_def)

definition sample_pool_row :: "nat \<Rightarrow> sample_json new_db_pool_info \<Rightarrow> sample_json db_pool_info" where
  "sample_pool_row i n = \<lparr>dbp_id = int i, dbp_pool_id = ndp_pool_id n, dbp_kind = ndp_kind n,
     dbp_tokens = ndp_tokens n, dbp_amounts = ndp_amounts n, dbp_total_fee = ndp_total_fee n,
     dbp_supply = ndp_supply n, dbp_amp = ndp_amp n, dbp_timestamp = ndp_timestamp n\<rparr>"

lemma sample_pool_table_spec: "table_spec (list_table sample_pool_row) (\<lambda>w. w) pool_row_holds"
  by (rule list_table_spec) (simp add: pool_row_holds_def sample_pool_row_def)

definition stored_pool :: "u32 \<Rightarrow> int \<Rightarrow> pool_info" where
  "stored_pool n ts = \<lparr>pool_number = n,
     bare = \<lparr>pool_kind = ''SIMPLE_POOL'', token_account_ids = [], amounts = [], total_fee = 30,
       shares_total_supply = 0, amp = 0\<rparr>, timestamp = ts\<rparr>"

definition stored_list :: pool_info_list where
  "stored_list = pool_info_list_new [stored_pool 1 6, stored_pool 0 5]"

lemma stored_pools: "pool_list stored_list = [stored_pool 0 5, stored_pool 1 6]"
  by (simp add: stored_list_def pool_info_list_new_def stored_pool_def)

definition stored_rows :: "sample_json db_pool_info list" where
  "stored_rows = snd (write_to_db sample_pool_json (list_table sample_pool_row) stored_list [])"

lemma stored_rows_written:
  "write_to_db sample_pool_json (list_table sample_pool_row) stored_list [] = (Inr (), stored_rows)"
  by (simp add: stored_rows_def write_to_db_def stored_pools pool_batch_insert_def pool_to_new_db_def
      sample_pool_json_def db_bind_def db_call_def list_table_def rbind_def ok_or_def Let_def)

lemma decoding_no_db_error: "rmapM (pool_from_db J) xs \<noteq> Inl (Db_Error m)"
  by (auto simp: pool_from_db_def rbind_Inl_iff ok_or_def split: option.splits dest!: rmapM_InlD)


end
