(* ===== verification/Preview.thy ===== *)
theory Preview
  imports Search Path_Search
begin

text \<open>
  \<^verbatim>\<open>ref_finance/path/preview.rs\<close>, the choice of the swaps in \<^verbatim>\<open>ref_finance/path.rs\<close> and the
  history of \<^verbatim>\<open>ref_finance/history.rs\<close>. The functions are generic in the number type of the
  amounts: \<open>D\<close> holds its arithmetic, \<open>into\<close> its conversion to \<^verbatim>\<open>u128\<close>. The integer square root
  of \<^verbatim>\<open>num_integer\<close> is an argument. An error of the graph is \<open>Inl (Some e)\<close> where \<open>Inl None\<close> is a
  panic; the outermost \<open>None\<close> is a panic or a search that does not end.
\<close>

section \<open>The history of inputs\<close>

record 'a statistics =
  stat_max :: 'a
  stat_average :: 'a

definition HISTORY :: "u128 statistics" where
  "HISTORY = \<lparr>stat_max = 0, stat_average = 0\<rparr>"

section \<open>Previews\<close>

record 'm preview =
  pv_gas_price :: gas_price
  pv_input_value :: 'm
  pv_token :: token_out_account
  pv_depth :: u64
  pv_output_value :: u128
  pv_gain :: u128

definition from_ggas :: "u64 \<Rightarrow> u64" where
  "from_ggas g = g * 1000000000"

definition HEAD :: u64 where "HEAD = from_ggas 2700"

definition BY_STEP :: u64 where "BY_STEP = from_ggas 2600"

definition preview_cost :: "gas_price \<Rightarrow> u64 \<Rightarrow> u128" where
  "preview_cost gas_price depth =
     (let gas = HEAD + BY_STEP * depth in ucast gas * gas_price_to_balance gas_price)"

definition preview_gain :: "gas_price \<Rightarrow> u64 \<Rightarrow> u128 \<Rightarrow> u128 \<Rightarrow> u128" where
  "preview_gain gas_price depth input_value output_value =
     (if output_value \<le> input_value then 0
      else let gain = output_value - input_value; cost = preview_cost gas_price depth in
        if gain \<le> cost then 0 else gain - cost)"

definition preview_new :: "('m \<Rightarrow> u128) \<Rightarrow> gas_price \<Rightarrow> 'm \<Rightarrow> token_out_account \<Rightarrow> u64 \<Rightarrow> u128 \<Rightarrow>
    'm preview" where
  "preview_new into gas_price input_value token depth output_value =
     \<lparr>pv_gas_price = gas_price, pv_input_value = input_value, pv_token = token, pv_depth = depth,
      pv_output_value = output_value,
      pv_gain = preview_gain gas_price depth (into input_value) output_value\<rparr>"

record 'm preview_list =
  pl_input_value :: 'm
  pl_list :: "'m preview list"
  pl_total_gain :: u128

definition preview_list_new :: "'m \<Rightarrow> 'm preview list \<Rightarrow> 'm preview_list option" where
  "preview_list_new input_value previews = Some \<lparr>pl_input_value = input_value, pl_list = previews,
     pl_total_gain = sum_list (map pv_gain previews)\<rparr>"

text \<open>\<^verbatim>\<open>into_with_path\<close>: the path of every preview, and the tokens of all paths, sorted and without
  duplicates.\<close>

definition swap_path :: "'f token_graph \<Rightarrow> token_in_account \<Rightarrow> token_out_account \<Rightarrow>
    (graph_error + token_pair list) option" where
  "swap_path g start goal = get_path_with_return g start goal"

fun path_tokens :: "token_pair list \<Rightarrow> token_account list option" where
  "path_tokens [] = Some []"
| "path_tokens (pair # path) =
     Option.bind (pair_token_in_id pair) (\<lambda>i.
     Option.bind (pair_token_out_id pair) (\<lambda>j.
     map_option (\<lambda>ts. in_inner i # out_inner j # ts) (path_tokens path)))"

fun with_paths :: "'f token_graph \<Rightarrow> token_in_account \<Rightarrow> 'm preview list \<Rightarrow>
    (graph_error + ('m preview \<times> token_pair list) list \<times> token_account list) option" where
  "with_paths g start [] = Some (Inr ([], []))"
| "with_paths g start (p # ps) = (case swap_path g start (pv_token p) of
     None \<Rightarrow> None
   | Some (Inl e) \<Rightarrow> Some (Inl e)
   | Some (Inr path) \<Rightarrow> Option.bind (path_tokens path) (\<lambda>ts.
       map_option (\<lambda>r. rbind r (\<lambda>(pre, tokens). Inr ((p, path) # pre, ts @ tokens)))
         (with_paths g start ps)))"

definition into_with_path :: "'f token_graph \<Rightarrow> token_in_account \<Rightarrow> 'm preview_list \<Rightarrow>
    (graph_error + ('m preview \<times> token_pair list) list \<times> token_account list) option" where
  "into_with_path g start pl =
     map_option (\<lambda>r. rbind r (\<lambda>(pre, tokens). Inr (pre, remdups_adj (sort tokens))))
       (with_paths g start (pl_list pl))"

section \<open>The choice of previews\<close>

text \<open>Integer division panics on a zero divisor.\<close>

definition rate_average :: "(u128 \<Rightarrow> u128) \<Rightarrow> u128 \<Rightarrow> u128 \<Rightarrow> u128 option" where
  "rate_average isqrt lo hi = (if lo = 0 then None else Some (isqrt (hi div lo) * lo))"

fun preview_loop :: "('m \<Rightarrow> u128) \<Rightarrow> (token_out_account \<Rightarrow> (graph_error + token_pair list) option) \<Rightarrow>
    gas_price \<Rightarrow> 'm \<Rightarrow> (token_out_account \<times> u128) list \<Rightarrow> graph_error option + 'm preview list" where
  "preview_loop into path_to gas_price amount [] = Inr []"
| "preview_loop into path_to gas_price amount ((goal, output) # list) = (case path_to goal of
     None \<Rightarrow> Inl None
   | Some (Inl e) \<Rightarrow> Inl (Some e)
   | Some (Inr path) \<Rightarrow>
       let preview = preview_new into gas_price amount goal (of_nat (length path)) output in
       if 0 < pv_gain preview
       then rbind (preview_loop into path_to gas_price amount list) (\<lambda>ps. Inr (preview # ps))
       else Inr [])"

definition pick_by_amount :: "('m \<Rightarrow> u128) \<Rightarrow> bigdecimal \<Rightarrow> 'f token_graph \<Rightarrow> token_in_account \<Rightarrow>
    token_out_account list \<Rightarrow> gas_price \<Rightarrow> 'm \<Rightarrow> nat \<Rightarrow> graph_error option + 'm preview_list option" where
  "pick_by_amount into B g start goals gas_price amount limit =
     rbind (ok_or (list_returns B g (into amount) start goals) None) (\<lambda>list.
     rbind (preview_loop into (get_path_with_return g start) gas_price amount (take limit list))
       (\<lambda>previews. Inr (preview_list_new amount previews)))"

definition do_pick :: "'m number \<Rightarrow> ('m \<Rightarrow> u128) \<Rightarrow> bigdecimal \<Rightarrow> 'f token_graph \<Rightarrow> token_in_account \<Rightarrow>
    token_out_account list \<Rightarrow> gas_price \<Rightarrow> 'm \<Rightarrow> 'm \<Rightarrow> graph_error option + 'm preview_list option" where
  "do_pick D into B g start goals gas_price total_amount value =
     (if value = n_zero D then Inr None
      else if into value = 0 then Inl None
      else let limit = unat (ucast (into total_amount div into value) :: u64) in
        if limit > 0 then pick_by_amount into B g start goals gas_price value limit
        else Inr None)"

definition average_input :: "'m number \<Rightarrow> 'm \<Rightarrow> ('m \<Rightarrow> u128) \<Rightarrow> (u128 \<Rightarrow> u128) \<Rightarrow> u128 statistics \<Rightarrow>
    'm \<Rightarrow> 'm option" where
  "average_input D one into isqrt history total_amount =
     (let ave = stat_average history in
      if ave = 0 then map_option (n_of D) (rate_average isqrt (into one) (into total_amount))
      else Some (n_of D ave))"

definition pick_previews :: "'m::linorder number \<Rightarrow> 'm \<Rightarrow> ('m \<Rightarrow> u128) \<Rightarrow> (u128 \<Rightarrow> u128) \<Rightarrow>
    u128 statistics \<Rightarrow> 'f float_ops \<Rightarrow> bigdecimal \<Rightarrow> 'f dijkstra \<Rightarrow> 'f token_graph \<Rightarrow>
    token_in_account \<Rightarrow> 'm \<Rightarrow> gas_price \<Rightarrow>
    ((graph_error + 'm preview_list option) \<times> 'f token_graph) option" where
  "pick_previews D one into isqrt history F B dijkstra g start total_amount gas_price =
     Option.bind (average_input D one into isqrt history total_amount) (\<lambda>ave_input.
     Option.bind (update_graph F dijkstra g start) (\<lambda>(r, g'). case r of
       Inl e \<Rightarrow> Some (Inl e, g')
     | Inr goals \<Rightarrow>
         Option.bind (search_best_path D one ave_input total_amount
             (do_pick D into B g' start goals gas_price total_amount) pl_total_gain) (\<lambda>res.
         case res of
           Inl None \<Rightarrow> None
         | Inl (Some e) \<Rightarrow> Some (Inl e, g')
         | Inr result \<Rightarrow> Some (Inr result, g'))))"

section \<open>What a preview promises\<close>

lemma preview_gain_exact:
  assumes "preview_gain gp depth i out \<noteq> 0"
  shows "unat out = unat i + unat (preview_cost gp depth) + unat (preview_gain gp depth i out)"
proof -
  let ?c = "preview_cost gp depth"
  have lt: "i < out" "?c < out - i" and eq: "preview_gain gp depth i out = out - i - ?c"
    using assms by (auto simp: preview_gain_def Let_def not_le split: if_splits)
  have "unat (out - i) = unat out - unat i" "unat (out - i - ?c) = unat (out - i) - unat ?c"
    using lt by (simp_all add: unat_sub_if_size word_less_nat_alt)
  moreover have "unat i < unat out" "unat ?c < unat (out - i)" using lt by (simp_all add: word_less_nat_alt)
  ultimately show ?thesis by (simp add: eq)
qed

text \<open>A preview that was computed for an amount on a graph.\<close>

definition preview_ok :: "('m \<Rightarrow> u128) \<Rightarrow> bigdecimal \<Rightarrow> 'f token_graph \<Rightarrow> token_in_account \<Rightarrow> gas_price \<Rightarrow>
    'm preview \<Rightarrow> token_pair list \<Rightarrow> bool" where
  "preview_ok into B g start gp p path \<longleftrightarrow>
     get_path_with_return g start (pv_token p) = Some (Inr path) \<and>
     pv_gas_price p = gp \<and> pv_depth p = of_nat (length path) \<and>
     calc_value B path (into (pv_input_value p)) = Inr (pv_output_value p) \<and> 0 < pv_gain p \<and>
     unat (pv_output_value p) = unat (into (pv_input_value p)) + unat (preview_cost gp (pv_depth p)) +
       unat (pv_gain p)"

lemma preview_loop_ok:
  assumes "preview_loop into (get_path_with_return g start) gp amount list = Inr ps"
    and "\<forall>(goal, v) \<in> set list. \<exists>path. get_path_with_return g start goal = Some (Inr path) \<and>
      calc_value B path (into amount) = Inr v"
  shows "length ps \<le> length list \<and> (\<forall>p \<in> set ps. pv_input_value p = amount \<and>
    (\<exists>path. preview_ok into B g start gp p path))"
  using assms
proof (induction list arbitrary: ps)
  case (Cons x list)
  obtain goal v where x: "x = (goal, v)" by (cases x)
  with Cons.prems(2) obtain path where path: "get_path_with_return g start goal = Some (Inr path)"
    "calc_value B path (into amount) = Inr v" by auto
  let ?p = "preview_new into gp amount goal (of_nat (length path)) v"
  show ?case
  proof (cases "0 < pv_gain ?p")
    case True
    with Cons.prems(1) path x obtain qs where qs: "ps = ?p # qs"
      "preview_loop into (get_path_with_return g start) gp amount list = Inr qs"
      by (auto simp: Let_def rbind_Inr_iff)
    have "preview_ok into B g start gp ?p path"
      using path True preview_gain_exact [of gp "of_nat (length path)" "into amount" v]
      by (auto simp: preview_ok_def preview_new_def)
    then have "\<exists>path. preview_ok into B g start gp ?p path" by blast
    with Cons.IH [OF qs(2)] Cons.prems(2) qs(1) show ?thesis by (simp add: preview_new_def)
  next
    case False
    with Cons.prems(1) path x show ?thesis by (simp add: Let_def)
  qed
qed simp

lemma pick_by_amount_ok:
  assumes "graph_ok g" "pick_by_amount into B g start goals gp amount limit = Inr r"
  shows "\<exists>pl. r = Some pl \<and> pl_input_value pl = amount \<and> length (pl_list pl) \<le> limit \<and>
    (\<forall>p \<in> set (pl_list pl). pv_input_value p = amount \<and> (\<exists>path. preview_ok into B g start gp p path))"
proof -
  from list_returns_spec [OF assms(1)] obtain vs where vs: "list_returns B g (into amount) start goals = Some vs"
    and set: "set vs = {(goal, v). goal \<in> set goals \<and> (\<exists>path. get_path_with_return g start goal = Some (Inr path) \<and>
      calc_value B path (into amount) = Inr v)}" by blast
  from assms(2) vs obtain ps where
    ps: "preview_loop into (get_path_with_return g start) gp amount (take limit vs) = Inr ps"
    and r: "r = preview_list_new amount ps"
    by (auto simp: pick_by_amount_def rbind_Inr_iff)
  have "\<forall>(goal, v) \<in> set (take limit vs). \<exists>path. get_path_with_return g start goal = Some (Inr path) \<and>
      calc_value B path (into amount) = Inr v"
    using set by (auto dest: in_set_takeD)
  from preview_loop_ok [OF ps this] r show ?thesis by (auto simp: preview_list_new_def)
qed

text \<open>The paths of listed goals exist, so the choice for one amount never fails.\<close>

lemma preview_loop_total:
  assumes "\<forall>(goal, v) \<in> set list. \<exists>path. path_to goal = Some (Inr path)"
  shows "\<exists>ps. preview_loop into path_to gp amount list = Inr ps"
  using assms
proof (induction list)
  case (Cons x list)
  then obtain path where "path_to (fst x) = Some (Inr path)" by (cases x) auto
  moreover from Cons obtain ps where "preview_loop into path_to gp amount list = Inr ps" by auto
  ultimately show ?case by (cases x) (simp add: Let_def)
qed simp

lemma pick_by_amount_total:
  assumes "graph_ok g"
  shows "\<exists>r. pick_by_amount into B g start goals gp amount limit = Inr r"
proof -
  from list_returns_spec [OF assms] obtain vs where vs: "list_returns B g (into amount) start goals = Some vs"
    and set: "set vs = {(goal, v). goal \<in> set goals \<and> (\<exists>path. get_path_with_return g start goal = Some (Inr path) \<and>
      calc_value B path (into amount) = Inr v)}" by blast
  have "\<exists>path. get_path_with_return g start goal = Some (Inr path)" if "(goal, v) \<in> set (take limit vs)" for goal v
    using in_set_takeD [OF that] set by auto
  then have "\<forall>(goal, v) \<in> set (take limit vs). \<exists>path. get_path_with_return g start goal = Some (Inr path)"
    by blast
  from preview_loop_total [OF this, of into gp amount] vs show ?thesis by (auto simp: pick_by_amount_def)
qed

text \<open>The previews of one amount together use no more than the total.\<close>

definition picked_ok :: "('m \<Rightarrow> u128) \<Rightarrow> bigdecimal \<Rightarrow> 'f token_graph \<Rightarrow> token_in_account \<Rightarrow> gas_price \<Rightarrow>
    'm \<Rightarrow> 'm preview_list \<Rightarrow> bool" where
  "picked_ok into B g start gp funds pl \<longleftrightarrow>
     length (pl_list pl) * unat (into (pl_input_value pl)) \<le> unat (into funds) \<and>
     pl_total_gain pl = sum_list (map pv_gain (pl_list pl)) \<and>
     (\<forall>p \<in> set (pl_list pl). pv_input_value p = pl_input_value pl \<and>
       (\<exists>path. preview_ok into B g start gp p path))"

lemma do_pick_ok:
  assumes "graph_ok g" "\<And>v. into v = 0 \<Longrightarrow> v = n_zero D"
  shows "\<exists>r. do_pick D into B g start goals gp funds v = Inr r \<and>
    (\<forall>pl. r = Some pl \<longrightarrow> picked_ok into B g start gp funds pl)"
proof (cases "v = n_zero D \<or> unat (ucast (into funds div into v) :: u64) = 0")
  case True
  with assms(2) [of v] show ?thesis by (auto simp: do_pick_def Let_def)
next
  case False
  define limit where "limit = unat (ucast (into funds div into v) :: u64)"
  have run: "do_pick D into B g start goals gp funds v = pick_by_amount into B g start goals gp v limit"
    using False assms(2) [of v] by (auto simp: do_pick_def Let_def limit_def)
  from pick_by_amount_total [OF assms(1), of into B start goals gp v limit] obtain r
    where r: "pick_by_amount into B g start goals gp v limit = Inr r" by blast
  have gain: "r = Some pl \<Longrightarrow> pl_total_gain pl = sum_list (map pv_gain (pl_list pl))" for pl
    using r by (auto simp: pick_by_amount_def preview_list_new_def rbind_Inr_iff)
  from pick_by_amount_ok [OF assms(1) r] obtain pl where pl: "r = Some pl" "pl_input_value pl = v"
    "length (pl_list pl) \<le> limit" "\<forall>p \<in> set (pl_list pl). pv_input_value p = v \<and>
      (\<exists>path. preview_ok into B g start gp p path)" by blast
  have "limit \<le> unat (into funds div into v)" unfolding limit_def by (simp add: unat_ucast_mod)
  with pl(3) have "length (pl_list pl) \<le> unat (into funds) div unat (into v)" by (simp add: unat_div)
  then have "length (pl_list pl) * unat (into v) \<le> unat (into funds) div unat (into v) * unat (into v)"
    by (rule mult_le_mono1)
  also have "\<dots> \<le> unat (into funds)" by (rule div_times_less_eq_dividend)
  finally have "picked_ok into B g start gp funds pl"
    using pl gain by (simp add: picked_ok_def)
  with run r pl(1) show ?thesis by auto
qed

section \<open>The choice in micro-NEAR\<close>

definition isqrt_spec :: "(u128 \<Rightarrow> u128) \<Rightarrow> bool" where
  "isqrt_spec isqrt \<longleftrightarrow> (\<forall>x. (unat (isqrt x))\<^sup>2 \<le> unat x \<and> unat x < (unat (isqrt x) + 1)\<^sup>2)"

lemma micro_average:
  assumes "isqrt_spec isqrt"
  shows "\<exists>ave. average_input micro_number micro_one micro_to_yocto isqrt HISTORY funds = Some ave \<and>
    (micro_one \<le> funds \<longrightarrow> micro_one \<le> ave \<and> ave \<le> funds)"
proof -
  let ?t = "unat (micro funds)" and ?lo = "micro_to_yocto micro_one"
  let ?s = "isqrt (micro_to_yocto funds div ?lo)"
  have lo: "unat ?lo = 10 ^ 18" by (simp add: unat_micro_to_yocto micro_one_def)
  then have nz: "?lo \<noteq> 0" by (metis power_not_zero unat_0 zero_neq_numeral)
  have q: "unat (micro_to_yocto funds div ?lo) = ?t" by (simp add: unat_div lo) (simp add: unat_micro_to_yocto)
  have s: "(unat ?s)\<^sup>2 \<le> ?t" "?t < (unat ?s + 1)\<^sup>2"
    using assms q unfolding isqrt_spec_def by metis+
  have st: "unat ?s \<le> ?t" using s(1) by (meson le_trans self_le_power power2_nat_le_imp_le le_square power2_eq_square)
  have "?t < 2 ^ 64" using unat_below [of "micro funds"] by simp
  with st have fit: "unat ?s * 10 ^ 18 < 2 ^ 128" by simp
  then have prod: "unat (?s * ?lo) = unat ?s * 10 ^ 18"
    by (subst unat_mult_lem [THEN iffD1]) (simp_all add: lo)
  have ave: "unat (micro (micro_from_yocto (?s * ?lo))) = unat ?s"
    using prod st \<open>?t < 2 ^ 64\<close> by (simp add: unat_micro_from_yocto)
  show ?thesis
  proof (intro exI conjI impI)
    show "average_input micro_number micro_one micro_to_yocto isqrt HISTORY funds =
        Some (micro_from_yocto (?s * ?lo))"
      using nz by (simp add: average_input_def HISTORY_def rate_average_def micro_number_def)
    assume "micro_one \<le> funds"
    then have "1 \<le> ?t" by (simp add: less_eq_micro_near_def micro_one_def word_le_nat_alt)
    with s(2) have "1 \<le> unat ?s" by (cases "unat ?s") auto
    with ave show "micro_one \<le> micro_from_yocto (?s * ?lo)"
      by (simp add: less_eq_micro_near_def micro_one_def word_le_nat_alt)
    from ave st show "micro_from_yocto (?s * ?lo) \<le> funds"
      by (simp add: less_eq_micro_near_def word_le_nat_alt)
  qed
qed

lemma micro_yocto_zero: "micro_to_yocto v = 0 \<Longrightarrow> v = n_zero micro_number"
proof -
  assume "micro_to_yocto v = 0"
  then have "unat (micro v) * 10 ^ 18 = 0" using unat_micro_to_yocto [of v] by simp
  then show ?thesis by (simp add: micro_number_def micro_zero_def word_unat_eq_iff micro_near.expand)
qed

text \<open>What \<open>best3\<close> chooses was evaluated and gains.\<close>

lemma best3_mem: "best3 D get_gain ra rb rc = Some x \<Longrightarrow> Some x \<in> {ra, rb, rc}"
  by (auto simp: best3_def Let_def split: if_splits)

lemma micro_best3_gains:
  assumes "best3 micro_number get_gain ra rb rc = Some x"
  shows "get_gain x \<noteq> 0"
proof
  let ?g = "gain_of micro_number get_gain"
  assume "get_gain x = 0"
  then have "?g (Some x) = n_zero micro_number"
    by (simp add: gain_of_def micro_number_def micro_from_yocto_def micro_zero_def)
  moreover have "?g y \<le> ?g (Some x)" if "y \<in> {ra, rb, rc}" for y
    using micro.best3_maximal [OF that, of get_gain] assms by simp
  ultimately have "?g y = n_zero micro_number" if "y \<in> {ra, rb, rc}" for y
    using that micro.zero_least [of "?g y"] by (metis antisym)
  then have "?g ra = n_zero micro_number \<and> ?g rb = n_zero micro_number \<and> ?g rc = n_zero micro_number"
    by blast
  then have "best3 micro_number get_gain ra rb rc = None" by (simp add: best3_def)
  with assms show False by simp
qed

lemma micro_three_points_total:
  assumes "\<And>v. \<exists>r. calc_res v = Inr r \<and> (\<forall>x. r = Some x \<longrightarrow> P x)"
  shows "\<exists>r. three_points micro_number lo average hi calc_res get_gain = Inr r \<and>
    (\<forall>x. r = Some x \<longrightarrow> P x \<and> get_gain x \<noteq> 0)"
proof -
  obtain ra rb rc where r: "calc_res lo = Inr ra" "calc_res average = Inr rb" "calc_res hi = Inr rc"
    and P: "\<forall>x. Some x \<in> {ra, rb, rc} \<longrightarrow> P x"
    using assms [of lo] assms [of average] assms [of hi] by auto
  show ?thesis
  proof (cases "lo < hi")
    case True
    then have "three_points micro_number lo average hi calc_res get_gain =
        Inr (best3 micro_number get_gain ra rb rc)" by (simp add: three_points_def r)
    moreover have "P x \<and> get_gain x \<noteq> 0" if "best3 micro_number get_gain ra rb rc = Some x" for x
      using P best3_mem [OF that] micro_best3_gains [OF that] by blast
    ultimately show ?thesis by blast
  qed (simp add: three_points_def)
qed

lemma micro_search_total:
  assumes "\<And>v. \<exists>r. calc_res v = Inr r \<and> (\<forall>x. r = Some x \<longrightarrow> P x)"
    and "lo \<le> hi \<longrightarrow> lo \<le> average \<and> average \<le> hi"
  shows "\<exists>r. search_best_path micro_number lo average hi calc_res get_gain = Some (Inr r) \<and>
    (\<forall>x. r = Some x \<longrightarrow> P x \<and> get_gain x \<noteq> 0)"
proof (cases "lo \<le> hi")
  case True
  with assms(2) have "search_best_path micro_number lo average hi calc_res get_gain =
      Some (three_points micro_number lo average hi calc_res get_gain)"
    by (simp add: micro.search_three_points)
  with micro_three_points_total [of calc_res P lo average hi get_gain, OF assms(1)] show ?thesis by auto
next
  case False
  then have "\<not> lo < hi" by simp
  then show ?thesis by (simp add: search_best_path_def search_loop.simps)
qed

lemma pick_previews_micro:
  assumes "isqrt_spec isqrt" "graph_ok g'" "update_graph F dijkstra g start = Some (Inr goals, g')"
  shows "\<exists>res. pick_previews micro_number micro_one micro_to_yocto isqrt HISTORY F B dijkstra g start
      funds gp = Some (Inr res, g') \<and>
    (\<forall>pl. res = Some pl \<longrightarrow> picked_ok micro_to_yocto B g' start gp funds pl \<and> pl_total_gain pl \<noteq> 0)"
proof -
  let ?calc = "do_pick micro_number micro_to_yocto B g' start goals gp funds"
  obtain ave where ave: "average_input micro_number micro_one micro_to_yocto isqrt HISTORY funds = Some ave"
    "micro_one \<le> funds \<longrightarrow> micro_one \<le> ave \<and> ave \<le> funds"
    using micro_average [OF assms(1)] by blast
  have total: "\<exists>r. ?calc v = Inr r \<and> (\<forall>pl. r = Some pl \<longrightarrow> picked_ok micro_to_yocto B g' start gp funds pl)" for v
    by (rule do_pick_ok [OF assms(2)]) (rule micro_yocto_zero)
  obtain r where r: "search_best_path micro_number micro_one ave funds ?calc pl_total_gain = Some (Inr r)"
    "\<forall>pl. r = Some pl \<longrightarrow> picked_ok micro_to_yocto B g' start gp funds pl \<and> pl_total_gain pl \<noteq> 0"
    using micro_search_total [of ?calc "picked_ok micro_to_yocto B g' start gp funds" micro_one funds ave
      pl_total_gain, OF total ave(2)] by blast
  have "pick_previews micro_number micro_one micro_to_yocto isqrt HISTORY F B dijkstra g start funds gp =
      Some (Inr r, g')"
    by (simp add: pick_previews_def ave(1) assms(3) r(1))
  with r(2) show ?thesis by blast
qed

section \<open>Properties\<close>

lemma graph_reach_walk:
  assumes "distinct (map pool_number src)" "token_graph_new F B (pool_info_list_new src) = Some g0"
    and "graph_reach F dijkstra g0 g" "get_path_with_return g start goal = Some (Inr path)"
  shows "path \<noteq> [] \<and> walk (pool_info_list_new src) (in_inner start) path (in_inner start)"
proof -
  have ok: "graph_ok g" and p: "tg_pools g = pool_info_list_new src"
    using token_graph_new_ok [OF pools_indexed_new [OF assms(1)], of F B] assms(2)
      graph_reach_ok [OF assms(3)] by auto
  from assms(4) obtain ps qs where q: "graph_get_path g start goal = Some (Inr ps)"
    "graph_get_path g (as_in goal) (as_out start) = Some (Inr qs)" "path = ps @ qs"
    by (auto simp: get_path_with_return_def rbind_Inr_iff split: option.splits sum.splits)
  from graph_get_path_walk [OF ok, of start goal] graph_get_path_walk [OF ok, of "as_in goal" "as_out start"] q p
  show ?thesis by (auto simp: as_in_def as_out_def intro: walk_append)
qed

text \<open>C6. The choice of swaps is sound. On the graph of a pool list with distinct numbers, once the
  graph is updated from the start, \<^verbatim>\<open>pick_previews\<close> in micro-NEAR returns: it neither panics nor
  fails nor searches forever. If it chooses a list, the list promises a gain, its previews all use
  the same input and together no more than the total, and each stands for a round trip of pairs
  of the pool list whose estimated output is the input plus the cost of the gas plus the gain,
  computed without wrap-around.\<close>

theorem pick_previews_sound:
  assumes "isqrt_spec isqrt" "distinct (map pool_number src)"
    and "token_graph_new F B (pool_info_list_new src) = Some g0" "graph_reach F dijkstra g0 g"
    and "update_graph F dijkstra g start = Some (Inr goals, g')"
  shows "\<exists>res. pick_previews micro_number micro_one micro_to_yocto isqrt HISTORY F B dijkstra g start
      funds gp = Some (Inr res, g') \<and>
    (\<forall>pl. res = Some pl \<longrightarrow> pl_total_gain pl \<noteq> 0 \<and>
      length (pl_list pl) * unat (micro_to_yocto (pl_input_value pl)) \<le> unat (micro_to_yocto funds) \<and>
      (\<forall>p \<in> set (pl_list pl). pv_input_value p = pl_input_value pl \<and>
        (\<exists>path. preview_ok micro_to_yocto B g' start gp p path \<and> path \<noteq> [] \<and>
          walk (pool_info_list_new src) (in_inner start) path (in_inner start))))"
proof -
  have reach: "graph_reach F dijkstra g0 g'" by (rule graph_reach.updated [OF assms(4,5)])
  have ok: "graph_ok g'"
    using token_graph_new_ok [OF pools_indexed_new [OF assms(2)], of F B] assms(3)
      graph_reach_ok [OF reach] by auto
  have walk: "path \<noteq> [] \<and> walk (pool_info_list_new src) (in_inner start) path (in_inner start)"
    if "preview_ok micro_to_yocto B g' start gp p path" for p path
    by (rule graph_reach_walk [OF assms(2,3) reach, of start "pv_token p"]) (use that in \<open>simp add: preview_ok_def\<close>)
  from pick_previews_micro [OF assms(1) ok assms(5)] obtain res where
    r: "pick_previews micro_number micro_one micro_to_yocto isqrt HISTORY F B dijkstra g start
      funds gp = Some (Inr res, g')"
    "\<forall>pl. res = Some pl \<longrightarrow> picked_ok micro_to_yocto B g' start gp funds pl \<and> pl_total_gain pl \<noteq> 0"
    by blast
  show ?thesis
  proof (intro exI conjI allI impI, rule r(1))
    fix pl assume "res = Some pl"
    with r(2) have pl: "picked_ok micro_to_yocto B g' start gp funds pl" "pl_total_gain pl \<noteq> 0" by auto
    from pl(2) show "pl_total_gain pl \<noteq> 0" .
    from pl(1) show "length (pl_list pl) * unat (micro_to_yocto (pl_input_value pl)) \<le> unat (micro_to_yocto funds)"
      by (simp add: picked_ok_def)
    from pl(1) walk show "\<forall>p \<in> set (pl_list pl). pv_input_value p = pl_input_value pl \<and>
        (\<exists>path. preview_ok micro_to_yocto B g' start gp p path \<and> path \<noteq> [] \<and>
          walk (pool_info_list_new src) (in_inner start) path (in_inner start))"
      unfolding picked_ok_def by blast
  qed
qed

text \<open>An integer square root, and the update of the one-pool graph.\<close>

fun isqrt_down :: "nat \<Rightarrow> nat \<Rightarrow> nat" where
  "isqrt_down n 0 = 0"
| "isqrt_down n (Suc k) = (if (Suc k)\<^sup>2 \<le> n then Suc k else isqrt_down n k)"

definition sample_isqrt :: "u128 \<Rightarrow> u128" where
  "sample_isqrt x = of_nat (isqrt_down (unat x) (unat x))"

lemma isqrt_down_spec:
  "n < (Suc k)\<^sup>2 \<Longrightarrow> (isqrt_down n k)\<^sup>2 \<le> n \<and> n < (Suc (isqrt_down n k))\<^sup>2"
  by (induction k) (auto simp: not_le)

lemma sample_isqrt_spec: "isqrt_spec sample_isqrt"
proof -
  have "(unat (sample_isqrt x))\<^sup>2 \<le> unat x \<and> unat x < (unat (sample_isqrt x) + 1)\<^sup>2" for x
  proof -
    let ?r = "isqrt_down (unat x) (unat x)"
    have "unat x < (Suc (unat x))\<^sup>2" by (simp add: power2_eq_square)
    note s = isqrt_down_spec [OF this]
    have "?r \<le> ?r\<^sup>2" by (simp add: power2_eq_square)
    with s have "?r < 2 ^ 128" using unat_below [of x] by simp
    then have "unat (of_nat ?r :: u128) = ?r" by (simp add: unat_of_nat)
    with s show ?thesis by (simp add: sample_isqrt_def)
  qed
  then show ?thesis by (simp add: isqrt_spec_def)
qed

lemma sample_find_all:
  assumes "cp = one_pool_path\<lparr>cp_cached := m\<rparr>"
  shows "find_all_path rat_ops cp (sample_scores (- 2 / 3) cp tok_a to) = Some [[tok_b]]"
    "find_all_path rat_ops cp (sample_scores (- 2 / 3) cp tok_b to) = Some [[tok_a]]"
  unfolding assms find_all_path_def
  by (simp_all add: sample_scores_def find_path.simps find_prev_def one_pool_path_def tok_order sample_weight_def
    edge_weight_default_def edge_weight_add_def edge_weight_eq_def rat_ops_def assoc_insert_def)

definition one_pool_tokens :: "rat token_graph" where
  "one_pool_tokens = \<lparr>tg_pools = pool_info_list_new one_pool, tg_graph = one_pool_path\<rparr>"

definition one_pool_updated :: "rat token_graph" where
  "one_pool_updated = \<lparr>tg_pools = pool_info_list_new one_pool, tg_graph = one_pool_path\<lparr>cp_cached :=
     [to_in tok_a \<mapsto> [(to_out tok_b, [])], to_in tok_b \<mapsto> [(to_out tok_a, [])]]\<rparr>\<rparr>"

lemma one_pool_update:
  "update_graph rat_ops (sample_scores (- 2 / 3)) one_pool_tokens (to_in tok_a) =
     Some (Inr [to_out tok_b], one_pool_updated)"
proof -
  have nodes: "node_index (one_pool_path\<lparr>cp_cached := m\<rparr>) tok_a = Inr tok_a"
    "node_index (one_pool_path\<lparr>cp_cached := m\<rparr>) tok_b = Inr tok_b" for m
    by (simp_all add: node_index_def one_pool_path_def)
  have path: "one_pool_path = one_pool_path\<lparr>cp_cached := Map.empty\<rparr>" by (simp add: one_pool_path_def)
  have inner: "in_inner (to_in t) = t" "out_inner (to_out t) = t" "as_in (to_out t) = to_in t" "as_out (to_in t) = to_out t" for t
    by (simp_all add: to_in_def to_out_def as_in_def as_out_def)
  have 1: "update_path rat_ops (sample_scores (- 2 / 3)) (to_in tok_a) None one_pool_path =
      Some (Inr [to_out tok_b], one_pool_path\<lparr>cp_cached := [to_in tok_a \<mapsto> [(to_out tok_b, [])]]\<rparr>)"
    using sample_find_all(1) [OF path, of None] nodes(1) [of Map.empty]
    by (simp add: update_path_def search_and_store_def inner flip: path) (simp add: one_pool_path_def search_and_store_def)
  have 2: "update_path rat_ops (sample_scores (- 2 / 3)) (to_in tok_b) (Some (to_out tok_a))
      (one_pool_path\<lparr>cp_cached := [to_in tok_a \<mapsto> [(to_out tok_b, [])]]\<rparr>) =
      Some (Inr [to_out tok_a], tg_graph one_pool_updated)"
    using sample_find_all(2) [OF refl, of "[to_in tok_a \<mapsto> [(to_out tok_b, [])]]" "Some tok_a"]
    by (simp add: update_path_def search_and_store_def nodes inner one_pool_updated_def)
  from 1 2 show ?thesis
    by (simp add: update_graph_def one_pool_tokens_def inner one_pool_updated_def)
qed

theorem pick_previews_sound_witness:
  "\<exists>res. pick_previews micro_number micro_one micro_to_yocto sample_isqrt HISTORY rat_ops exact_decimal
      (sample_scores (- 2 / 3)) one_pool_tokens (to_in tok_a) (MicroNear 5) (GasPrice 1) =
        Some (Inr res, one_pool_updated) \<and>
    (\<forall>pl. res = Some pl \<longrightarrow> length (pl_list pl) * unat (micro_to_yocto (pl_input_value pl)) \<le> 5 * 10 ^ 18)"
proof -
  have d: "distinct (map pool_number one_pool)" by (simp add: one_pool_def)
  from pick_previews_sound [OF sample_isqrt_spec d one_pool_graph graph_reach.fresh
      one_pool_update [unfolded one_pool_tokens_def], of "MicroNear 5" "GasPrice 1"]
  show ?thesis unfolding one_pool_tokens_def by (auto simp: unat_micro_to_yocto)
qed

end
