(* ===== verification/Traces.thy ===== *)
theory Traces
  imports Storage Balances Database
begin

text \<open>
  Which methods of the contracts an operation can call. \<open>calls_only M m\<close> says that every
  transaction the computation \<open>m\<close> sends calls a method in \<open>M\<close>, whatever the client answers.
\<close>

definition calls_in :: "string set \<Rightarrow> event \<Rightarrow> bool" where
  "calls_in M e = (case e of Exec _ _ m _ _ _ \<Rightarrow> m \<in> M | _ \<Rightarrow> True)"

definition calls_only :: "string set \<Rightarrow> ('w, 'a) io \<Rightarrow> bool" where
  "calls_only M m \<longleftrightarrow> emits m (\<lambda>es r. \<forall>e \<in> set es. calls_in M e)"

named_theorems calls_only_intros \<open>which methods the operations call\<close>

lemma calls_in_simps [simp]:
  "calls_in M (Exec sg rc m args d r) \<longleftrightarrow> m \<in> M"
  "calls_in M (View rc m args v)" "calls_in M (Transfer sg rc a v)" "calls_in M (Wait_Success tx b)"
  "calls_in M (Wait_Executed tx b)" "calls_in M (Native_Amount acc n)" "calls_in M (Gas_Price n)"
  "calls_in M (Clock t)" "calls_in M (Sleep ns)"
  by (simp_all add: calls_in_def)

lemma calls_in_mono: "calls_in M e \<Longrightarrow> M \<subseteq> N \<Longrightarrow> calls_in N e"
  by (cases e) auto

lemma calls_only_mono: "calls_only M m \<Longrightarrow> M \<subseteq> N \<Longrightarrow> calls_only N m"
  unfolding calls_only_def by (erule emits_conseq) (blast intro: calls_in_mono)

lemma calls_only_bind [calls_only_intros]:
  assumes "calls_only M m" "\<And>x. calls_only M (f x)"
  shows "calls_only M (io_bind m f)"
  unfolding calls_only_def
  by (rule emits_seq [OF assms(1) [unfolded calls_only_def]])
    (auto intro: emits_conseq [OF assms(2) [unfolded calls_only_def]])

lemma calls_only_try [calls_only_intros]: "calls_only M m \<Longrightarrow> calls_only M (io_try m)"
  unfolding calls_only_def by (rule emits_try) (auto elim!: emits_conseq split: outcome.splits)

lemma calls_only_pure [calls_only_intros]:
  "calls_only M (io_return x)" "calls_only M (io_fail e)" "calls_only M (io_panic p)"
  "calls_only M (io_of r)" "calls_only M (io_option e o1)" "calls_only M (io_expect p o2)"
  "calls_only M (io_decode d c b)" "calls_only M (io_db q)" "calls_only M (io_sleep n)"
  "calls_only M (io_now c')" "calls_only M io_load_last_harvest" "calls_only M (io_store_last_harvest t)"
  "calls_only M (get_gas_price c2)" "calls_only M (get_native_amount c3 acc)"
  "calls_only M (view_contract c4 rc m args)" "calls_only M (wait_for_success c5 tx)"
  "calls_only M (transfer_native_token c6 sg rc2 amount)"
  unfolding calls_only_def by (intro emits_intros; simp)+

lemma calls_only_exec [calls_only_intros]: "m \<in> M \<Longrightarrow> calls_only M (exec_contract c sg rc m args d)"
  unfolding calls_only_def by (intro emits_intros) simp_all

lemma calls_only_and_wait [calls_only_intros]: "calls_only M m \<Longrightarrow> calls_only M (and_wait c m)"
  unfolding and_wait_def by (intro calls_only_intros)

lemma calls_only_when [calls_only_intros]: "calls_only M m \<Longrightarrow> calls_only M (io_when b m)"
  by (simp add: io_when_def calls_only_pure)

lemma calls_only_if [calls_only_intros]: "calls_only M m \<Longrightarrow> calls_only M n \<Longrightarrow> calls_only M (if b then m else n)"
  by simp

lemma calls_only_Let [calls_only_intros]: "calls_only M (f x) \<Longrightarrow> calls_only M (Let x f)"
  by simp

lemma calls_only_option [calls_only_intros]:
  "calls_only M m \<Longrightarrow> (\<And>x. calls_only M (f x)) \<Longrightarrow> calls_only M (case r of None \<Rightarrow> m | Some x \<Rightarrow> f x)"
  by (cases r) simp_all

lemma calls_only_sum [calls_only_intros]:
  "(\<And>e. calls_only M (f e)) \<Longrightarrow> (\<And>x. calls_only M (g x)) \<Longrightarrow> calls_only M (case r of Inl e \<Rightarrow> f e | Inr x \<Rightarrow> g x)"
  by (cases r) simp_all

lemma calls_only_prod [calls_only_intros]:
  "(\<And>x y. calls_only M (f x y)) \<Longrightarrow> calls_only M (case r of (x, y) \<Rightarrow> f x y)"
  by (cases r) simp_all

lemma calls_only_mapM [calls_only_intros]:
  "(\<And>x. calls_only M (f x)) \<Longrightarrow> calls_only M (io_mapM f xs)"
  by (induction xs) (auto intro!: calls_only_intros)

section \<open>The operations on deposits, storage and balances\<close>

abbreviation "storage_methods \<equiv> {''storage_deposit'', ''register_tokens'', ''unregister_tokens''}"

abbreviation "balance_methods \<equiv> {''near_deposit'', ''ft_transfer_call'', ''withdraw''}"

lemmas deposit_ops = wnear_balance_of_def wnear_wrap_def deposit_def get_deposits_def withdraw_def
  register_tokens_def unregister_tokens_def storage_deposit_def storage_balance_of_def check_bounds_def

lemma calls_only_plan [calls_only_intros]:
  "(\<And>a. calls_only M (f a)) \<Longrightarrow> (\<And>x y z. calls_only M (g x y z)) \<Longrightarrow>
    calls_only M (case p of InitialRegister a \<Rightarrow> f a | Normal x y z \<Rightarrow> g x y z)"
  by (cases p) simp_all

lemma setup_calls_only:
  "calls_only storage_methods (ensure_ref_storage_setup c w needed keep cap)"
  unfolding ensure_ref_storage_setup_def initial_deposit_def run_plan_def handle_initial_register_def
    handle_normal_plan_def unregister_stale_def unregister_verified_def top_up_and_register_def deposit_ops
  by (intro calls_only_intros) simp_all

lemma balances_calls_only:
  "calls_only balance_methods (balances_start B parse_account history_max c w token required cfg)"
  unfolding balances_start_def balance_of_start_token_def refill_def wrap_within_reserve_def harvest_def
    harvest_account_def is_time_to_harvest_def update_last_harvest_def deposit_ops
  by (intro calls_only_intros) simp_all

end
