(* ===== verification/Arbitrage.thy ===== *)
theory Arbitrage
  imports Traces Preview Swap Pool_Store
begin

text \<open>
  \<^verbatim>\<open>arbitrage/src/lib.rs\<close>: one round of the arbitrage engine and its main loop. What the round
  uses and the repository does not define is the record \<open>environment\<close>: decimals, floating
  point, Dijkstra's algorithm, the integer square root, the parsers of accounts and durations,
  JSON and the table of pools. A graph operation that panics or does not end is a panic of the
  round. The main loop runs forever; \<open>arbitrage_loop n\<close> is its first \<open>n\<close> rounds.
\<close>

section \<open>One round\<close>

record ('w, 'f, 'j) environment =
  env_decimal :: bigdecimal
  env_float :: "'f float_ops"
  env_dijkstra :: "'f dijkstra"
  env_isqrt :: "u128 \<Rightarrow> u128"
  env_account :: "string \<Rightarrow> account_id option"
  env_duration :: "string \<Rightarrow> nat option"
  env_json :: "'j pool_json"
  env_pools :: "('w, 'j) pool_table"
  env_clock :: "'w \<Rightarrow> int"

definition token_not_found_wait :: "('w, 'f, 'j) environment \<Rightarrow> config_stores \<Rightarrow> nat" where
  "token_not_found_wait E cfg = arbitrage_token_not_found_wait (env_duration E) cfg"

definition other_error_wait :: "('w, 'f, 'j) environment \<Rightarrow> config_stores \<Rightarrow> nat" where
  "other_error_wait E cfg = arbitrage_other_error_wait (env_duration E) cfg"

definition preview_not_found_wait :: "('w, 'f, 'j) environment \<Rightarrow> config_stores \<Rightarrow> nat" where
  "preview_not_found_wait E cfg = arbitrage_preview_not_found_wait (env_duration E) cfg"

definition is_needed :: "config_stores \<Rightarrow> bool" where
  "is_needed cfg = arbitrage_needed cfg"

definition graph_err :: "graph_error \<Rightarrow> error" where
  "graph_err e = (case e of Graph_Dex d \<Rightarrow> Dex_Error d | _ \<Rightarrow> Msg ''path'' [])"

definition io_graph :: "(graph_error + 'a) option \<Rightarrow> ('w, 'a) io" where
  "io_graph r = (case r of
     None \<Rightarrow> io_panic ''graph''
   | Some (Inl e) \<Rightarrow> io_fail (graph_err e)
   | Some (Inr x) \<Rightarrow> io_return x)"

definition preview_arg :: "('m \<Rightarrow> u128) \<Rightarrow> 'm preview \<Rightarrow> swap_arg" where
  "preview_arg into p = \<lparr>initial_in = into (pv_input_value p),
     min_out = saturating_sub (pv_output_value p) (pv_gain p)\<rparr>"

definition swap_each :: "bigdecimal \<Rightarrow> ('m \<Rightarrow> u128) \<Rightarrow> 'w client \<Rightarrow> wallet \<Rightarrow> 'm preview \<Rightarrow>
    token_pair list \<Rightarrow> ('w, unit) io" where
  "swap_each B into c w preview path =
     io_bind (run_swap B c w path (preview_arg into preview)) (\<lambda>(sent_tx, out).
     io_bind (wait_for_success c sent_tx) (\<lambda>_. io_return ()))"

text \<open>The swaps are tried one after the other until one succeeds.\<close>

fun swap_first :: "bigdecimal \<Rightarrow> ('m \<Rightarrow> u128) \<Rightarrow> 'w client \<Rightarrow> wallet \<Rightarrow>
    ('m preview \<times> token_pair list) list \<Rightarrow> ('w, unit) io" where
  "swap_first B into c w [] = io_return ()"
| "swap_first B into c w ((preview, path) # pre_path) =
     io_bind (io_try (swap_each B into c w preview path)) (\<lambda>r. case r of
       Inr _ \<Rightarrow> io_return ()
     | Inl _ \<Rightarrow> swap_first B into c w pre_path)"

fun validate_paths :: "('m preview \<times> token_pair list) list \<Rightarrow> error + unit" where
  "validate_paths [] = Inr ()"
| "validate_paths ((_, path) # pre_path) = (case validate_length path of
     Inl e \<Rightarrow> Inl (Dex_Error e)
   | Inr _ \<Rightarrow> validate_paths pre_path)"

text \<open>The part of the round after the previews were found.\<close>

definition swap_previews :: "('w, 'f, 'j) environment \<Rightarrow> 'w client \<Rightarrow> wallet \<Rightarrow> config_stores \<Rightarrow>
    'f token_graph \<Rightarrow> token_in_account \<Rightarrow> micro_near preview_list \<Rightarrow> ('w, unit) io" where
  "swap_previews E c w cfg graph start previews =
     io_bind (io_graph (into_with_path graph start previews)) (\<lambda>(pre_path, tokens).
     io_bind (io_of (validate_paths pre_path)) (\<lambda>_.
     io_bind (ensure_ref_storage_setup c w tokens (keep_wnear_only c) (max_top_up_from_config cfg)) (\<lambda>_.
     swap_first (env_decimal E) micro_to_yocto c w pre_path)))"

definition single_loop :: "('w, 'f, 'j) environment \<Rightarrow> 'w client \<Rightarrow> wallet \<Rightarrow> config_stores \<Rightarrow>
    ('w, unit) io" where
  "single_loop E c w cfg =
     io_bind (balances_start (env_decimal E) (env_account E) (stat_max HISTORY) c w (WNEAR_TOKEN c) None cfg)
       (\<lambda>balance.
     let start = to_in (WNEAR_TOKEN c); start_balance = micro_from_yocto balance in
     io_bind (io_db (read_from_db (env_json E) (env_pools E) (env_clock E) None)) (\<lambda>pools.
     io_bind (io_expect ''graph'' (token_graph_new (env_float E) (env_decimal E) pools)) (\<lambda>graph0.
     io_bind (get_gas_price c) (\<lambda>price.
     io_bind (io_expect ''graph'' (pick_previews micro_number micro_one micro_to_yocto (env_isqrt E) HISTORY
         (env_float E) (env_decimal E) (env_dijkstra E) graph0 start start_balance
         (gas_price_from_balance price))) (\<lambda>(picked, graph).
     io_bind (io_graph (Some picked)) (\<lambda>r. case r of
       Some previews \<Rightarrow> swap_previews E c w cfg graph start previews
     | None \<Rightarrow> io_sleep (preview_not_found_wait E cfg)))))))"

section \<open>The main loop\<close>

text \<open>Only a missing wrapped NEAR in the graph has the short wait.\<close>

definition error_wait :: "('w, 'f, 'j) environment \<Rightarrow> 'w client \<Rightarrow> config_stores \<Rightarrow> error \<Rightarrow> nat" where
  "error_wait E c cfg err =
     (if err = Dex_Error (TokenNotFound (as_account_id (WNEAR_TOKEN c)))
      then token_not_found_wait E cfg else other_error_wait E cfg)"

fun arbitrage_loop :: "nat \<Rightarrow> ('w, 'f, 'j) environment \<Rightarrow> 'w client \<Rightarrow> wallet \<Rightarrow> config_stores \<Rightarrow>
    ('w, unit) io" where
  "arbitrage_loop 0 E c w cfg = io_return ()"
| "arbitrage_loop (Suc n) E c w cfg =
     io_bind (io_try (single_loop E c w cfg)) (\<lambda>r. case r of
       Inr _ \<Rightarrow> arbitrage_loop n E c w cfg
     | Inl err \<Rightarrow> io_bind (io_sleep (error_wait E c cfg err)) (\<lambda>_. arbitrage_loop n E c w cfg))"

definition arbitrage_run :: "nat \<Rightarrow> ('w, 'f, 'j) environment \<Rightarrow> 'w client \<Rightarrow> wallet \<Rightarrow> config_stores \<Rightarrow>
    ('w, unit) io" where
  "arbitrage_run n E c w cfg = (if is_needed cfg then arbitrage_loop n E c w cfg else io_return ())"

section \<open>The swaps of a round\<close>

text \<open>A swap that pays for itself: the actions form a round trip of wrapped NEAR along a walk of
  recorded pools, at most \<open>MAX_HOPS\<close> long, and the last action demands what the first puts in
  plus the gas of that many hops.\<close>

definition paying_swap :: "'w client \<Rightarrow> wallet \<Rightarrow> gas_price \<Rightarrow> event \<Rightarrow> bool" where
  "paying_swap c w gp e = (case e of
     Exec signer receiver m args attach r \<Rightarrow>
       signer = w_signer w \<and> receiver = CONTRACT_ADDRESS c \<and> m = ''swap'' \<and> attach = 1 \<and>
       (\<exists>src path actions i o1. distinct (map pool_number src) \<and> path \<noteq> [] \<and> length path \<le> MAX_HOPS \<and>
         walk (pool_info_list_new src) (WNEAR_TOKEN c) path (WNEAR_TOKEN c) \<and>
         args = JObj [(''actions'', JList (map swap_action_json actions))] \<and>
         map sa_pool_id actions = map pair_pool_id path \<and>
         sa_token_in (hd actions) = as_account_id (WNEAR_TOKEN c) \<and> sa_amount_in (hd actions) = Some i \<and>
         sa_token_out (last actions) = as_account_id (WNEAR_TOKEN c) \<and> sa_min_amount_out (last actions) = o1 \<and>
         unat o1 = unat i + unat (preview_cost gp (of_nat (length path))))
   | _ \<Rightarrow> False)"

text \<open>The traces of one attempt.\<close>

definition attempt :: "(event \<Rightarrow> bool) \<Rightarrow> event list \<Rightarrow> bool \<Rightarrow> bool" where
  "attempt P es ok \<longleftrightarrow> es = [] \<and> \<not> ok \<or> (\<exists>e. es = [e] \<and> P e \<and> \<not> ok) \<or>
     (\<exists>e tx. es = [e, Wait_Success tx ok] \<and> P e)"

text \<open>Attempts in a row, of which only the last may have succeeded.\<close>

inductive attempts :: "(event \<Rightarrow> bool) \<Rightarrow> event list \<Rightarrow> bool" for P where
  no_attempt: "attempts P []"
| succeeded: "attempt P es True \<Longrightarrow> attempts P es"
| failed_then: "attempt P es False \<Longrightarrow> attempts P es' \<Longrightarrow> attempts P (es @ es')"

lemma walk_last:
  "walk pools a path b \<Longrightarrow> path \<noteq> [] \<Longrightarrow> pair_token_out_id (last path) = Some (to_out b)"
  by (induction pools a path b rule: walk.induct) (auto simp: pair_between_def)

lemma walk_hd:
  "walk pools a path b \<Longrightarrow> path \<noteq> [] \<Longrightarrow> pair_token_in_id (hd path) = Some (to_in a)"
  by (cases path) (auto simp: pair_between_def)

lemma actions_of_walk:
  assumes run: "pair_swap_actions B path arg = Some (Inr (actions, out))"
    and walk: "walk pools a path b" "path \<noteq> []"
  shows "map sa_pool_id actions = map pair_pool_id path"
    "sa_token_in (hd actions) = as_account_id a" "sa_amount_in (hd actions) = Some (initial_in arg)"
    "sa_token_out (last actions) = as_account_id b" "sa_min_amount_out (last actions) = min_out arg"
proof -
  note L = swap_actions_loop_Inr [OF pair_swap_actions_Inr [OF run walk(2)]]
  have len: "length actions = length path" and ne: "actions \<noteq> []" using L walk(2) by auto
  have at: "sa_pool_id (actions ! i) = pair_pool_id (path ! i)"
    "pair_token_in_id (path ! i) = Some (TokenInAccount (TokenAccount (sa_token_in (actions ! i))))"
    "pair_token_out_id (path ! i) = Some (TokenOutAccount (TokenAccount (sa_token_out (actions ! i))))"
    "sa_min_amount_out (actions ! i) = (if pair_pool_id (path ! i) = pair_pool_id (last path) then min_out arg else 0)"
    if "i < length path" for i using L that by blast+
  show "map sa_pool_id actions = map pair_pool_id path" using len at(1) by (simp add: list_eq_iff_nth_eq)
  show "sa_amount_in (hd actions) = Some (initial_in arg)" using L walk(2) by simp
  have "TokenInAccount (TokenAccount (sa_token_in (hd actions))) = to_in a"
    using at(2) [of 0] walk_hd [OF walk] walk(2) ne by (simp add: hd_conv_nth)
  then show "sa_token_in (hd actions) = as_account_id a" by (auto simp: to_in_def)
  have l: "path ! (length path - 1) = last path" "actions ! (length path - 1) = last actions"
    "length path - 1 < length path" using walk(2) ne len by (simp_all add: last_conv_nth)
  have "TokenOutAccount (TokenAccount (sa_token_out (last actions))) = to_out b"
    using at(3) [OF l(3)] walk_last [OF walk] l by simp
  then show "sa_token_out (last actions) = as_account_id b" by (auto simp: to_out_def)
  show "sa_min_amount_out (last actions) = min_out arg" using at(4) [OF l(3)] l by simp
qed

text \<open>The previews of a round with their paths.\<close>

definition planned :: "'w client \<Rightarrow> gas_price \<Rightarrow> micro_near preview \<times> token_pair list \<Rightarrow> bool" where
  "planned c gp x \<longleftrightarrow> (case x of (p, path) \<Rightarrow>
     (\<exists>src. distinct (map pool_number src) \<and>
       walk (pool_info_list_new src) (WNEAR_TOKEN c) path (WNEAR_TOKEN c)) \<and>
     path \<noteq> [] \<and> length path \<le> MAX_HOPS \<and>
     unat (pv_output_value p) = unat (micro_to_yocto (pv_input_value p)) +
       unat (preview_cost gp (of_nat (length path))) + unat (pv_gain p))"

lemma planned_swap_pays:
  assumes "planned c gp (p, path)"
    and "pair_swap_actions B path (preview_arg micro_to_yocto p) = Some (Inr (actions, out))"
  shows "paying_swap c w gp (Exec (w_signer w) (CONTRACT_ADDRESS c) ''swap''
    (JObj [(''actions'', JList (map swap_action_json actions))]) 1 r)"
proof -
  from assms(1) obtain src where src: "distinct (map pool_number src)"
      "walk (pool_info_list_new src) (WNEAR_TOKEN c) path (WNEAR_TOKEN c)"
    and path: "path \<noteq> []" "length path \<le> MAX_HOPS"
    and out: "unat (pv_output_value p) = unat (micro_to_yocto (pv_input_value p)) +
       unat (preview_cost gp (of_nat (length path))) + unat (pv_gain p)"
    by (auto simp: planned_def)
  note A = actions_of_walk [OF assms(2) src(2) path(1)]
  have "unat (min_out (preview_arg micro_to_yocto p)) =
      unat (initial_in (preview_arg micro_to_yocto p)) + unat (preview_cost gp (of_nat (length path)))"
    using out by (simp add: preview_arg_def unat_saturating_sub)
  note facts = src path A this
  show ?thesis unfolding paying_swap_def event.case
    by (intro conjI refl exI [of _ src], rule exI [of _ path], rule exI [of _ actions],
        rule exI [of _ "initial_in (preview_arg micro_to_yocto p)"],
        rule exI [of _ "min_out (preview_arg micro_to_yocto p)"])
      (simp add: facts)
qed

lemma emits_swap_each:
  assumes "planned c gp (p, path)"
  shows "emits (swap_each B micro_to_yocto c w p path)
    (\<lambda>es r. attempt (paying_swap c w gp) es (\<exists>x. r = Ok x))"
proof (cases "pair_swap_actions B path (preview_arg micro_to_yocto p)")
  case None
  then show ?thesis
    by (auto simp: swap_each_def run_swap_def attempt_def intro!: emits_intros)
next
  case (Some r)
  show ?thesis
  proof (cases r)
    case (Inl e)
    with Some show ?thesis
      by (auto simp: swap_each_def run_swap_def attempt_def intro!: emits_intros)
  next
    case (Inr x)
    obtain actions out where x: "x = (actions, out)" by (cases x)
    note pays = planned_swap_pays [OF assms Some [unfolded Inr x], of w]
    show ?thesis unfolding swap_each_def run_swap_def Some Inr x
      by (auto simp: attempt_def pays intro!: emits_intros)
  qed
qed

lemma emits_swap_first:
  assumes "\<forall>x \<in> set pre. planned c gp x"
  shows "emits (swap_first B micro_to_yocto c w pre) (\<lambda>es r. attempts (paying_swap c w gp) es)"
  using assms
proof (induction pre)
  case Nil
  show ?case by (auto intro!: emits_intros attempts.no_attempt)
next
  case (Cons x pre)
  obtain p path where x: "x = (p, path)" by (cases x)
  let ?P = "paying_swap c w gp"
  have rest: "emits (swap_first B micro_to_yocto c w pre) (\<lambda>es r. attempts ?P es)"
    using Cons by simp
  have each: "emits (swap_each B micro_to_yocto c w p path) (\<lambda>es r. attempt ?P es (\<exists>x. r = Ok x))"
    by (rule emits_swap_each) (use Cons.prems x in simp)
  have fail: "attempts ?P es" if "attempt ?P es False" for es
    using attempts.failed_then [OF that attempts.no_attempt] by simp
  show ?case unfolding x swap_first.simps
  proof (rule emits_bind, rule emits_try, rule emits_conseq [OF each])
    fix es and r :: "unit outcome"
    assume a: "attempt ?P es (\<exists>x. r = Ok x)"
    show "case r of
        Ok x \<Rightarrow> after (\<lambda>r. case r of Inl u \<Rightarrow> swap_first B micro_to_yocto c w pre | Inr u \<Rightarrow> io_return ())
          (\<lambda>es r. attempts ?P es) es (Ok (Inr x))
      | Err e \<Rightarrow> after (\<lambda>r. case r of Inl u \<Rightarrow> swap_first B micro_to_yocto c w pre | Inr u \<Rightarrow> io_return ())
          (\<lambda>es r. attempts ?P es) es (Ok (Inl e))
      | Panic m \<Rightarrow> after (\<lambda>r. case r of Inl u \<Rightarrow> swap_first B micro_to_yocto c w pre | Inr u \<Rightarrow> io_return ())
          (\<lambda>es r. attempts ?P es) es (Panic m)"
    proof (cases r)
      case (Ok u)
      with a show ?thesis by (auto intro!: emits_return attempts.succeeded)
    next
      case (Err e)
      with a have "attempt ?P es False" by simp
      then have "emits (swap_first B micro_to_yocto c w pre) (\<lambda>es' r'. attempts ?P (es @ es'))"
        by (intro emits_conseq [OF rest]) (rule attempts.failed_then)
      with Err show ?thesis by simp
    next
      case (Panic m)
      with a fail show ?thesis by simp
    qed
  qed
qed

lemma with_paths_Inr:
  assumes "with_paths g start ps = Some (Inr (pre, tokens))" "(p, path) \<in> set pre"
  shows "p \<in> set ps \<and> get_path_with_return g start (pv_token p) = Some (Inr path)"
  using assms
proof (induction ps arbitrary: pre tokens)
  case (Cons q ps)
  from Cons.prems(1) obtain path' ts pre' tokens' where
    q: "get_path_with_return g start (pv_token q) = Some (Inr path')"
    and rest: "with_paths g start ps = Some (Inr (pre', tokens'))" and pre: "pre = (q, path') # pre'"
    by (auto simp: swap_path_def bind_eq_Some_conv rbind_Inr_iff split: option.splits sum.splits)
  from Cons.IH [OF rest] Cons.prems(2) q pre show ?case by auto
qed simp

lemma validate_paths_Inr: "validate_paths pre = Inr () \<Longrightarrow> x \<in> set pre \<Longrightarrow> length (snd x) \<le> MAX_HOPS"
  by (induction pre rule: validate_paths.induct)
    (auto simp: validate_length_def split: sum.splits if_splits)

text \<open>A round: quiet preparations, then attempts at the gas price that was reported in them.\<close>

definition round_ok :: "'w client \<Rightarrow> wallet \<Rightarrow> event list \<Rightarrow> bool" where
  "round_ok c w es \<longleftrightarrow> (\<exists>pre att. es = pre @ att \<and>
     (\<forall>e \<in> set pre. calls_in (balance_methods \<union> storage_methods) e) \<and>
     (att = [] \<or> (\<exists>price. Gas_Price (Inr price) \<in> set pre \<and>
        attempts (paying_swap c w (gas_price_from_balance price)) att)))"

abbreviation "prepares es \<equiv> \<forall>e \<in> set es. calls_in (balance_methods \<union> storage_methods) e"

lemma round_ok_prepares: "prepares es \<Longrightarrow> round_ok c w es"
  unfolding round_ok_def by (rule exI [of _ es]) auto

lemma round_ok_prefix: "prepares es \<Longrightarrow> round_ok c w es' \<Longrightarrow> round_ok c w (es @ es')"
  unfolding round_ok_def
proof (elim exE conjE)
  fix pre att
  assume "prepares es" "es' = pre @ att" "prepares pre" and a: "att = [] \<or> (\<exists>price.
    Gas_Price (Inr price) \<in> set pre \<and> attempts (paying_swap c w (gas_price_from_balance price)) att)"
  then show "\<exists>pre att. es @ es' = pre @ att \<and> prepares pre \<and> (att = [] \<or> (\<exists>price.
    Gas_Price (Inr price) \<in> set pre \<and> attempts (paying_swap c w (gas_price_from_balance price)) att))"
    by (intro exI [of _ "es @ pre"] exI [of _ att]) auto
qed

lemma emits_round_bind:
  assumes "calls_only (balance_methods \<union> storage_methods) m"
    and "\<And>x. emits (f x) (\<lambda>es r. round_ok c w es)"
  shows "emits (io_bind m f) (\<lambda>es r. round_ok c w es)"
  by (rule emits_seq [OF assms(1) [unfolded calls_only_def]])
    (auto intro: round_ok_prepares intro!: emits_conseq [OF assms(2)] round_ok_prefix)

text \<open>After the gas price is known, the swaps have a shape of their own.\<close>

definition priced :: "'w client \<Rightarrow> wallet \<Rightarrow> gas_price \<Rightarrow> event list \<Rightarrow> bool" where
  "priced c w gp es \<longleftrightarrow> (\<exists>pre att. es = pre @ att \<and> prepares pre \<and> attempts (paying_swap c w gp) att)"

lemma priced_prepares: "prepares es \<Longrightarrow> priced c w gp es"
  unfolding priced_def by (rule exI [of _ es]) (auto intro: attempts.no_attempt)

lemma priced_attempts: "attempts (paying_swap c w gp) es \<Longrightarrow> priced c w gp es"
  unfolding priced_def by (rule exI [of _ "[]"]) auto

lemma priced_prefix: "prepares es \<Longrightarrow> priced c w gp es' \<Longrightarrow> priced c w gp (es @ es')"
  unfolding priced_def
proof (elim exE conjE)
  fix pre att assume "prepares es" "es' = pre @ att" "prepares pre" "attempts (paying_swap c w gp) att"
  then show "\<exists>pre att. es @ es' = pre @ att \<and> prepares pre \<and> attempts (paying_swap c w gp) att"
    by (intro exI [of _ "es @ pre"] exI [of _ att]) auto
qed

lemma priced_round:
  assumes "priced c w (gas_price_from_balance price) es"
  shows "round_ok c w (Gas_Price (Inr price) # es)"
proof -
  from assms obtain pre att where "es = pre @ att" "prepares pre"
    "attempts (paying_swap c w (gas_price_from_balance price)) att"
    unfolding priced_def by blast
  then show ?thesis unfolding round_ok_def
    by (intro exI [of _ "Gas_Price (Inr price) # pre"] exI [of _ att]) auto
qed

lemma emits_priced_bind:
  assumes "calls_only (balance_methods \<union> storage_methods) m"
    and "\<And>x. emits (f x) (\<lambda>es r. priced c w gp es)"
  shows "emits (io_bind m f) (\<lambda>es r. priced c w gp es)"
  by (rule emits_seq [OF assms(1) [unfolded calls_only_def]])
    (auto intro: priced_prepares intro!: emits_conseq [OF assms(2)] priced_prefix)

lemma emits_swap_previews:
  fixes graph :: "'f token_graph"
  assumes ok: "picked_ok micro_to_yocto B graph start gp funds previews"
    and src: "distinct (map pool_number src)"
    and walks: "\<And>goal path. get_path_with_return graph start goal = Some (Inr path) \<Longrightarrow>
      path \<noteq> [] \<and> walk (pool_info_list_new src) (WNEAR_TOKEN c) path (WNEAR_TOKEN c)"
  shows "emits (swap_previews E c w cfg graph start previews) (\<lambda>es r. priced c w gp es)"
proof (cases "into_with_path graph start previews")
  case None
  then show ?thesis
    by (auto simp: swap_previews_def io_graph_def intro!: emits_intros priced_prepares)
next
  case (Some r)
  show ?thesis
  proof (cases r)
    case (Inl e)
    with Some show ?thesis
      by (auto simp: swap_previews_def io_graph_def intro!: emits_intros priced_prepares)
  next
    case (Inr x)
    obtain pre tokens where x: "x = (pre, tokens)" by (cases x)
    with Some Inr obtain ts where "with_paths graph start (pl_list previews) = Some (Inr (pre, ts))"
      by (auto simp: into_with_path_def rbind_Inr_iff)
    note paths = with_paths_Inr [OF this]
    have planned: "planned c gp y" if "validate_paths pre = Inr ()" "y \<in> set pre" for y
    proof -
      obtain p path where y: "y = (p, path)" by (cases y)
      with that(2) paths have p: "p \<in> set (pl_list previews)"
        and path: "get_path_with_return graph start (pv_token p) = Some (Inr path)" by auto
      from ok p obtain path' where "preview_ok micro_to_yocto B graph start gp p path'"
        by (auto simp: picked_ok_def)
      with path have "preview_ok micro_to_yocto B graph start gp p path" by (simp add: preview_ok_def)
      then have "unat (pv_output_value p) = unat (micro_to_yocto (pv_input_value p)) +
          unat (preview_cost gp (of_nat (length path))) + unat (pv_gain p)"
        by (auto simp: preview_ok_def)
      with walks [OF path] src validate_paths_Inr [OF that] y show ?thesis
        by (auto simp: planned_def)
    qed
    have eq: "swap_previews E c w cfg graph start previews =
      io_bind (io_of (validate_paths pre)) (\<lambda>_.
      io_bind (ensure_ref_storage_setup c w tokens (keep_wnear_only c) (max_top_up_from_config cfg)) (\<lambda>_.
      swap_first (env_decimal E) micro_to_yocto c w pre))"
      by (rule ext) (simp add: swap_previews_def io_graph_def Some Inr x io_bind_def io_return_def)
    have swaps: "emits (io_bind (ensure_ref_storage_setup c w tokens (keep_wnear_only c) (max_top_up_from_config cfg))
        (\<lambda>_. swap_first (env_decimal E) micro_to_yocto c w pre)) (\<lambda>es r. priced c w gp es)"
      if "validate_paths pre = Inr ()"
    proof (rule emits_priced_bind)
      show "calls_only (balance_methods \<union> storage_methods)
          (ensure_ref_storage_setup c w tokens (keep_wnear_only c) (max_top_up_from_config cfg))"
        by (rule calls_only_mono [OF setup_calls_only]) blast
      have "\<forall>y \<in> set pre. planned c gp y" using planned [OF that] by blast
      from emits_swap_first [OF this]
      show "emits (swap_first (env_decimal E) micro_to_yocto c w pre) (\<lambda>es r. priced c w gp es)"
        by (rule emits_conseq) (rule priced_attempts)
    qed
    show ?thesis unfolding eq
    proof (rule emits_bind, rule emits_of)
      show "after (\<lambda>_. io_bind (ensure_ref_storage_setup c w tokens (keep_wnear_only c) (max_top_up_from_config cfg))
          (\<lambda>_. swap_first (env_decimal E) micro_to_yocto c w pre)) (\<lambda>es r. priced c w gp es) [] (Ok u)"
        if "validate_paths pre = Inr u" for u using swaps that by simp
    qed (simp add: priced_prepares)
  qed
qed

lemma pick_previews_graph:
  assumes "pick_previews D one into isqrt history F B dijkstra g start funds gp = Some (Inr res, g')"
  shows "\<exists>goals. update_graph F dijkstra g start = Some (Inr goals, g')"
proof -
  from assms obtain ave r g1 where up: "update_graph F dijkstra g start = Some (r, g1)"
    and k: "(case r of Inl e \<Rightarrow> Some (Inl e, g1)
      | Inr goals \<Rightarrow> Option.bind (search_best_path D one ave funds
          (do_pick D into B g1 start goals gp funds) pl_total_gain) (\<lambda>x. case x of
            Inl None \<Rightarrow> None | Inl (Some e) \<Rightarrow> Some (Inl e, g1) | Inr y \<Rightarrow> Some (Inr y, g1))) = Some (Inr res, g')"
    by (auto simp: pick_previews_def bind_eq_Some_conv)
  obtain goals where r: "r = Inr goals" using k by (cases r) auto
  with k obtain x where x: "(case x of Inl None \<Rightarrow> None | Inl (Some e) \<Rightarrow> Some (Inl e, g1)
      | Inr y \<Rightarrow> Some (Inr y, g1)) = Some (Inr res :: graph_error + 'a preview_list option, g')"
    by (auto simp: bind_eq_Some_conv)
  have "g1 = g'"
  proof (cases x)
    case (Inl y)
    with x show ?thesis by (cases y) auto
  next
    case (Inr y)
    with x show ?thesis by simp
  qed
  with up r show ?thesis by blast
qed

text \<open>What a successful choice says about the graph it was made on.\<close>

lemma pick_previews_SomeD:
  assumes "isqrt_spec isqrt" "distinct (map pool_number src)"
    and new: "token_graph_new F B (pool_info_list_new src) = Some g0"
    and pick: "pick_previews micro_number micro_one micro_to_yocto isqrt HISTORY F B dijkstra g0 start
      funds gp = Some (Inr (Some pl), g')"
  shows "picked_ok micro_to_yocto B g' start gp funds pl"
    and "get_path_with_return g' start goal = Some (Inr path) \<Longrightarrow>
      path \<noteq> [] \<and> walk (pool_info_list_new src) (in_inner start) path (in_inner start)"
proof -
  from pick obtain goals where up: "update_graph F dijkstra g0 start = Some (Inr goals, g')"
    using pick_previews_graph by blast
  have reach: "graph_reach F dijkstra g0 g'" by (rule graph_reach.updated [OF graph_reach.fresh up])
  have ok: "graph_ok g'"
    using token_graph_new_ok [OF pools_indexed_new [OF assms(2)], of F B] new graph_reach_ok [OF reach] by auto
  from pick_previews_micro [OF assms(1) ok up, of B funds gp] pick
  show "picked_ok micro_to_yocto B g' start gp funds pl" by auto
  show "path \<noteq> [] \<and> walk (pool_info_list_new src) (in_inner start) path (in_inner start)"
    if "get_path_with_return g' start goal = Some (Inr path)"
    by (rule graph_reach_walk [OF assms(2) new reach that])
qed

lemma emits_single_loop:
  assumes "isqrt_spec (env_isqrt E)"
  shows "emits (single_loop E c w cfg) (\<lambda>es r. round_ok c w es)"
  unfolding single_loop_def Let_def
proof (rule emits_round_bind)
  show "calls_only (balance_methods \<union> storage_methods) (balances_start (env_decimal E) (env_account E)
      (stat_max HISTORY) c w (WNEAR_TOKEN c) None cfg)"
    by (rule calls_only_mono [OF balances_calls_only]) blast
  fix balance
  let ?start = "to_in (WNEAR_TOKEN c)" and ?funds = "micro_from_yocto balance"
  let ?pick = "\<lambda>g price. pick_previews micro_number micro_one micro_to_yocto (env_isqrt E) HISTORY
         (env_float E) (env_decimal E) (env_dijkstra E) g ?start ?funds (gas_price_from_balance price)"
  let ?rest = "\<lambda>g price. io_bind (io_expect ''graph'' (?pick g price)) (\<lambda>(picked, graph).
     io_bind (io_graph (Some picked)) (\<lambda>r. case r of
       Some previews \<Rightarrow> swap_previews E c w cfg graph ?start previews
     | None \<Rightarrow> io_sleep (preview_not_found_wait E cfg)))"
  have rest: "emits (?rest g price) (\<lambda>es r. priced c w (gas_price_from_balance price) es)"
    if src: "distinct (map pool_number src)"
      and g: "token_graph_new (env_float E) (env_decimal E) (pool_info_list_new src) = Some g" for src g price
  proof (cases "?pick g price")
    case None
    then show ?thesis by (auto intro!: emits_intros priced_prepares)
  next
    case (Some q)
    obtain picked graph where q: "q = (picked, graph)" by (cases q)
    have "emits (io_bind (io_graph (Some picked)) (\<lambda>r. case r of
         Some previews \<Rightarrow> swap_previews E c w cfg graph ?start previews
       | None \<Rightarrow> io_sleep (preview_not_found_wait E cfg))) (\<lambda>es r. priced c w (gas_price_from_balance price) es)"
    proof (cases "\<exists>pl. picked = Inr (Some pl)")
      case True
      then obtain pl where pl: "picked = Inr (Some pl)" by blast
      note D = pick_previews_SomeD [OF assms src g Some [unfolded q pl]]
      have "emits (swap_previews E c w cfg graph ?start pl) (\<lambda>es r. priced c w (gas_price_from_balance price) es)"
        by (rule emits_swap_previews [OF D(1) src]) (use D(2) in \<open>simp add: to_in_def\<close>)
      then show ?thesis by (simp add: pl io_graph_def io_bind_def io_return_def emits_def)
    next
      case False
      then show ?thesis
        by (cases picked) (auto simp: io_graph_def split: option.splits intro!: emits_intros priced_prepares)
    qed
    with Some q show ?thesis by (simp add: io_expect_def io_bind_def io_return_def emits_def)
  qed
  show "emits (io_bind (io_db (read_from_db (env_json E) (env_pools E) (env_clock E) None)) (\<lambda>pools.
     io_bind (io_expect ''graph'' (token_graph_new (env_float E) (env_decimal E) pools)) (\<lambda>graph0.
     io_bind (get_gas_price c) (?rest graph0)))) (\<lambda>es r. round_ok c w es)"
  proof (rule emits_bind, rule emits_db_result)
    fix pools w1 w2
    assume "read_from_db (env_json E) (env_pools E) (env_clock E) None w1 = (Inr pools, w2)"
    from read_from_db_distinct [OF this] obtain src where pools: "pools = pool_info_list_new src"
      and src: "distinct (map pool_number src)" by blast
    have "emits (io_bind (io_expect ''graph'' (token_graph_new (env_float E) (env_decimal E) pools)) (\<lambda>graph0.
        io_bind (get_gas_price c) (?rest graph0))) (\<lambda>es r. round_ok c w es)"
    proof (rule emits_bind, rule emits_expect)
      fix g assume g: "token_graph_new (env_float E) (env_decimal E) pools = Some g"
      have "emits (io_bind (get_gas_price c) (?rest g)) (\<lambda>es r. round_ok c w es)"
      proof (rule emits_bind, rule emits_get_gas_price)
        fix price
        from rest [OF src g [unfolded pools], of price]
        have "emits (?rest g price) (\<lambda>es r. round_ok c w ([Gas_Price (Inr price)] @ es))"
          by (rule emits_conseq) (simp add: priced_round)
        then show "after (?rest g) (\<lambda>es r. round_ok c w es) [Gas_Price (Inr price)] (Ok price)"
          unfolding after_simps .
      qed (simp add: round_ok_prepares)
      then show "after (\<lambda>graph0. io_bind (get_gas_price c) (?rest graph0)) (\<lambda>es r. round_ok c w es) [] (Ok g)"
        unfolding after_simps append_Nil .
    qed (simp add: round_ok_prepares)
    then show "after (\<lambda>pools. io_bind (io_expect ''graph'' (token_graph_new (env_float E) (env_decimal E) pools))
        (\<lambda>graph0. io_bind (get_gas_price c) (?rest graph0))) (\<lambda>es r. round_ok c w es) [] (Ok pools)"
      unfolding after_simps append_Nil .
  qed (simp add: round_ok_prepares)
qed

section \<open>Properties\<close>

text \<open>C1. A round of the arbitrage engine, for every client, database, configuration and wallet: the
  trace is a preparation, in which only methods of the balance and the storage setup are called,
  followed by attempts to swap, of which every one but the last failed; so nothing is swapped
  before the setup, and the first success ends the round. Every swap sent is a round trip of
  wrapped NEAR along recorded pools, not longer than the maximal path, whose last action demands
  at least what the first puts in plus the cost of the gas at the price the client reported.\<close>

theorem single_loop_swaps_pay:
  assumes "isqrt_spec (env_isqrt E)" "single_loop E c w cfg s = (r, s')"
  shows "\<exists>pre att. trace s' = trace s @ pre @ att \<and>
    (\<forall>e \<in> set pre. calls_in {''near_deposit'', ''ft_transfer_call'', ''withdraw'', ''storage_deposit'',
      ''register_tokens'', ''unregister_tokens''} e) \<and>
    (att = [] \<or> (\<exists>price. Gas_Price (Inr price) \<in> set pre \<and>
       attempts (paying_swap c w (gas_price_from_balance price)) att))"
proof -
  have M: "balance_methods \<union> storage_methods = {''near_deposit'', ''ft_transfer_call'', ''withdraw'',
      ''storage_deposit'', ''register_tokens'', ''unregister_tokens''}"
    by (simp only: Un_insert_left Un_empty_left)
  from emitsD [OF emits_single_loop [OF assms(1)] assms(2)] obtain es
    where es: "trace s' = trace s @ es" "round_ok c w es" by blast
  from es(2) obtain pre att where "es = pre @ att"
    "\<forall>e \<in> set pre. calls_in (balance_methods \<union> storage_methods) e"
    "att = [] \<or> (\<exists>price. Gas_Price (Inr price) \<in> set pre \<and>
       attempts (paying_swap c w (gas_price_from_balance price)) att)"
    unfolding round_ok_def by blast
  with es(1) show ?thesis unfolding M by blast
qed

text \<open>A database of recorded pools with a client that always answers.\<close>

definition row_client :: "sample_json db_pool_info list client" where
  "row_client =
     \<lparr>is_mainnet = True,
      c_view = (\<lambda>rc m args w. (Inr m, w)),
      c_exec = (\<lambda>sg rc m args d w. (Inr ''tx'', w)),
      c_transfer = (\<lambda>sg rc a w. (Inr ''tx'', w)),
      c_wait_success = (\<lambda>tx w. (Inr (SuccessValue ''''), w)),
      c_wait_executed = (\<lambda>tx w. (Inr (SuccessValue ''''), w)),
      c_native_amount = (\<lambda>a w. (Inr 1000, w)),
      c_gas_price = (\<lambda>w. (Inr 1, w)),
      c_now = (\<lambda>w. (100000, w)),
      de_u128 = (\<lambda>b. Some 5),
      de_bounds = (\<lambda>b. Some (snap_bounds sample_snapshot)),
      de_balance = (\<lambda>b. Some (Some (snap_balance sample_snapshot))),
      de_deposits = (\<lambda>b. Some (snap_deposits sample_snapshot))\<rparr>"

definition sample_env :: "(sample_json db_pool_info list, rat, sample_json) environment" where
  "sample_env =
     \<lparr>env_decimal = exact_decimal, env_float = rat_ops, env_dijkstra = sample_scores (- 2 / 3),
      env_isqrt = sample_isqrt, env_account = Some, env_duration = (\<lambda>_. None),
      env_json = sample_pool_json, env_pools = list_table sample_pool_row, env_clock = (\<lambda>_. 7)\<rparr>"

definition row_sys :: "sample_json db_pool_info list sys" where
  "row_sys = \<lparr>world = stored_rows, trace = [], last_harvest = 0, last_harvest_time = 0,
     decimals_cache = Map.empty, decimals_failures = Map.empty\<rparr>"

theorem single_loop_swaps_pay_witness:
  "\<exists>pre att. trace (snd (single_loop sample_env row_client sample_wallet sample_config row_sys)) = pre @ att \<and>
    (\<forall>e \<in> set pre. calls_in {''near_deposit'', ''ft_transfer_call'', ''withdraw'', ''storage_deposit'',
      ''register_tokens'', ''unregister_tokens''} e) \<and>
    (att = [] \<or> (\<exists>price. Gas_Price (Inr price) \<in> set pre \<and>
       attempts (paying_swap row_client sample_wallet (gas_price_from_balance price)) att))"
proof -
  have "isqrt_spec (env_isqrt sample_env)" by (simp add: sample_env_def sample_isqrt_spec)
  from single_loop_swaps_pay [OF this prod.collapse [symmetric], of row_client sample_wallet sample_config row_sys]
  show ?thesis by (simp add: row_sys_def)
qed

lemma attempts_events:
  "attempts P es \<Longrightarrow> e \<in> set es \<Longrightarrow> is_exec m e \<Longrightarrow> P e"
proof (induction rule: attempts.induct)
  case (succeeded es)
  then show ?case by (auto simp: attempt_def)
next
  case (failed_then es es')
  then show ?case by (auto simp: attempt_def)
qed simp

lemma round_swaps:
  assumes "round_ok c w es" "e \<in> set es" "is_exec ''swap'' e"
  shows "\<exists>price. Gas_Price (Inr price) \<in> set es \<and> paying_swap c w (gas_price_from_balance price) e"
proof -
  from assms(1) obtain pre att where es: "es = pre @ att" "prepares pre"
    "att = [] \<or> (\<exists>price. Gas_Price (Inr price) \<in> set pre \<and>
       attempts (paying_swap c w (gas_price_from_balance price)) att)"
    unfolding round_ok_def by blast
  have "e \<notin> set pre" using es(2) assms(3) by (cases e) auto
  with es assms(2) have "e \<in> set att" by auto
  with es(3) obtain price where "Gas_Price (Inr price) \<in> set pre"
    "attempts (paying_swap c w (gas_price_from_balance price)) att" by auto
  with attempts_events [OF this(2) \<open>e \<in> set att\<close> assms(3)] es(1) show ?thesis by auto
qed

definition swaps_priced :: "'w client \<Rightarrow> wallet \<Rightarrow> event list \<Rightarrow> bool" where
  "swaps_priced c w es \<longleftrightarrow> (\<forall>e \<in> set es. is_exec ''swap'' e \<longrightarrow>
     (\<exists>price. Gas_Price (Inr price) \<in> set es \<and> paying_swap c w (gas_price_from_balance price) e))"

lemma swaps_priced_append:
  "swaps_priced c w es \<Longrightarrow> swaps_priced c w es' \<Longrightarrow> swaps_priced c w (es @ es')"
  unfolding swaps_priced_def set_append by blast

lemma emits_arbitrage_loop:
  assumes "isqrt_spec (env_isqrt E)"
  shows "emits (arbitrage_loop n E c w cfg) (\<lambda>es r. swaps_priced c w es)"
proof (induction n)
  case 0
  show ?case by (auto simp: swaps_priced_def intro!: emits_intros)
next
  case (Suc n)
  have one: "emits (single_loop E c w cfg) (\<lambda>es r. swaps_priced c w es)"
    by (rule emits_conseq [OF emits_single_loop [OF assms]]) (auto simp: swaps_priced_def dest: round_swaps)
  have more: "emits (arbitrage_loop n E c w cfg) (\<lambda>es' r. swaps_priced c w (es @ es'))"
    if "swaps_priced c w es" for es
    by (rule emits_conseq [OF Suc.IH]) (rule swaps_priced_append [OF that])
  have sleep: "swaps_priced c w (es @ [Sleep d])" if "swaps_priced c w es" for es d
    by (rule swaps_priced_append [OF that]) (simp add: swaps_priced_def)
  have tried: "emits (io_try (single_loop E c w cfg)) (\<lambda>es r. swaps_priced c w es)"
    by (rule emits_try, rule emits_conseq [OF one]) (simp split: outcome.splits)
  show ?case unfolding arbitrage_loop.simps
  proof (rule emits_seq [OF tried])
    fix es and x :: "error + unit" assume es: "swaps_priced c w es"
    show "emits (case x of Inl err \<Rightarrow> io_bind (io_sleep (error_wait E c cfg err)) (\<lambda>_. arbitrage_loop n E c w cfg)
        | Inr u \<Rightarrow> arbitrage_loop n E c w cfg) (\<lambda>es' r. swaps_priced c w (es @ es'))"
      using more [OF sleep [OF es]] more [OF es]
      by (cases x) (auto intro!: emits_bind emits_sleep)
  qed
qed

text \<open>C8. The engine never sends a swap that does not pay: over any number of rounds, errors and
  retries included, each swap in the trace is a round trip that demands its input plus the gas at
  a price the client reported in that trace; and an engine that is not enabled does nothing.\<close>

theorem arbitrage_only_paying_swaps:
  assumes "isqrt_spec (env_isqrt E)" "arbitrage_run n E c w cfg s = (r, s')"
  shows "\<exists>es. trace s' = trace s @ es \<and>
    (\<forall>e \<in> set es. is_exec ''swap'' e \<longrightarrow> (\<exists>price. Gas_Price (Inr price) \<in> set es \<and>
       paying_swap c w (gas_price_from_balance price) e)) \<and>
    (\<not> arbitrage_needed cfg \<longrightarrow> s' = s)"
proof (cases "is_needed cfg")
  case True
  with assms(2) have "arbitrage_loop n E c w cfg s = (r, s')" by (simp add: arbitrage_run_def)
  from emitsD [OF emits_arbitrage_loop [OF assms(1)] this] True show ?thesis
    by (auto simp: swaps_priced_def is_needed_def)
next
  case False
  with assms(2) show ?thesis by (simp add: arbitrage_run_def io_return_def)
qed

theorem arbitrage_only_paying_swaps_witness:
  "filter (\<lambda>e. is_exec ''swap'' e \<and> \<not> (\<exists>price. paying_swap row_client sample_wallet (gas_price_from_balance price) e))
     (trace (snd (arbitrage_run 3 sample_env row_client sample_wallet sample_config row_sys))) = []"
proof -
  have "isqrt_spec (env_isqrt sample_env)" by (simp add: sample_env_def sample_isqrt_spec)
  from arbitrage_only_paying_swaps [OF this prod.collapse [symmetric],
      of 3 row_client sample_wallet sample_config row_sys]
  show ?thesis by (auto simp: row_sys_def filter_empty_conv)
qed

end
