(* ===== verification/Rate_Store.thy ===== *)
theory Rate_Store
  imports Database Units
begin

text \<open>
  \<^verbatim>\<open>persistence/src/token_rate.rs\<close>: the table of recorded exchange rates and the correction of a
  measured rate to the spot rate of the pools it was measured on. The parser of account names
  and \<^verbatim>\<open>serde_json\<close> are arguments. Times are microseconds. A statement written in SQL is the
  load of the rows it ranges over followed by what its clauses select; the loop that fills a
  \<^verbatim>\<open>HashMap\<close> is a map update per row. \<open>None\<close> is the panic of a division by zero.
\<close>

section \<open>Rates\<close>

record swap_pool_info =
  sp_pool_id :: u32
  sp_token_in_idx :: "8 word"
  sp_token_out_idx :: "8 word"
  sp_amount_in :: token_smallest_units
  sp_amount_out :: token_smallest_units

datatype swap_route = SwapPath (route_pools: "swap_pool_info list")

record 'j db_token_rate =
  dbr_id :: int
  dbr_base :: string
  dbr_quote :: string
  dbr_rate :: rat
  dbr_timestamp :: int
  dbr_decimals :: "16 word"
  dbr_rate_calc_near :: int
  dbr_swap_path :: "'j option"

record 'j new_db_token_rate =
  ndr_base :: string
  ndr_quote :: string
  ndr_rate :: rat
  ndr_timestamp :: int
  ndr_decimals :: "16 word"
  ndr_rate_calc_near :: int
  ndr_swap_path :: "'j option"

record token_rate =
  tr_base :: token_out_account
  tr_quote :: token_in_account
  tr_exchange_rate :: exchange_rate
  tr_timestamp :: int
  tr_rate_calc_near :: int
  tr_swap_path :: "swap_route option"

record token_volatility =
  tv_base :: token_account
  coefficient_of_variation :: rat

record 'j rate_codec =
  parse_token :: "string \<Rightarrow> token_account option"
  ser_route :: "swap_route \<Rightarrow> 'j option"
  de_route :: "'j \<Rightarrow> swap_route option"

definition rate_codec_spec :: "'j rate_codec \<Rightarrow> bool" where
  "rate_codec_spec J \<longleftrightarrow> (\<forall>p. \<exists>j. ser_route J p = Some j \<and> de_route J j = Some p)"

definition from_exchange_rate :: "'j rate_codec \<Rightarrow> token_out_account \<Rightarrow> token_in_account \<Rightarrow>
    exchange_rate \<Rightarrow> int \<Rightarrow> int \<Rightarrow> swap_route option \<Rightarrow> 'j new_db_token_rate" where
  "from_exchange_rate J base quote rate ts calc_near path =
     \<lparr>ndr_base = as_account_id (out_inner base), ndr_quote = as_account_id (in_inner quote),
      ndr_rate = raw_rate rate, ndr_timestamp = ts, ndr_decimals = ucast (rate_decimals rate),
      ndr_rate_calc_near = calc_near, ndr_swap_path = Option.bind path (ser_route J)\<rparr>"

definition new_with_path :: "token_out_account \<Rightarrow> token_in_account \<Rightarrow> exchange_rate \<Rightarrow> int \<Rightarrow>
    swap_route \<Rightarrow> int \<Rightarrow> token_rate" where
  "new_with_path base quote rate calc_near path now =
     \<lparr>tr_base = base, tr_quote = quote, tr_exchange_rate = rate, tr_timestamp = now,
      tr_rate_calc_near = calc_near, tr_swap_path = Some path\<rparr>"

definition rate_from_db :: "'j rate_codec \<Rightarrow> 'j db_token_rate \<Rightarrow> error + token_rate" where
  "rate_from_db J r =
     rbind (ok_or (parse_token J (dbr_base r)) Decode_Error) (\<lambda>base.
     rbind (ok_or (parse_token J (dbr_quote r)) Decode_Error) (\<lambda>quote.
     Inr \<lparr>tr_base = TokenOutAccount base, tr_quote = TokenInAccount quote,
          tr_exchange_rate = rate_from_raw_rate (dbr_rate r) (ucast (dbr_decimals r)),
          tr_timestamp = dbr_timestamp r, tr_rate_calc_near = dbr_rate_calc_near r,
          tr_swap_path = Option.bind (dbr_swap_path r) (de_route J)\<rparr>))"

definition rate_to_new_db :: "'j rate_codec \<Rightarrow> token_rate \<Rightarrow> 'j new_db_token_rate" where
  "rate_to_new_db J r = from_exchange_rate J (tr_base r) (tr_quote r) (tr_exchange_rate r)
     (tr_timestamp r) (tr_rate_calc_near r) (tr_swap_path r)"

section \<open>Spot rates\<close>

definition find_fallback_path :: "token_rate list \<Rightarrow> nat \<Rightarrow> swap_route option" where
  "find_fallback_path rates index = Option.bind (get_opt rates index) (\<lambda>rate.
     if tr_swap_path rate \<noteq> None then None
     else Option.bind (List.find (\<lambda>r. tr_swap_path r \<noteq> None) (drop (index + 1) rates)) tr_swap_path)"

text \<open>The scan from the newest rate to the oldest, \<open>i\<close> being the number of rates still to scan.\<close>

fun fallback_scan :: "token_rate list \<Rightarrow> nat \<Rightarrow> nat option \<Rightarrow> nat option list \<Rightarrow> nat option list" where
  "fallback_scan rates 0 last_path_idx fallbacks = fallbacks"
| "fallback_scan rates (Suc i) last_path_idx fallbacks =
     (if tr_swap_path (rates ! i) \<noteq> None
      then fallback_scan rates i (Some i) (fallbacks[i := None])
      else fallback_scan rates i last_path_idx (fallbacks[i := last_path_idx]))"

definition precompute_fallback_indices :: "token_rate list \<Rightarrow> nat option list" where
  "precompute_fallback_indices rates =
     fallback_scan rates (length rates) None (replicate (length rates) None)"

fun spot_correction :: "bigdecimal \<Rightarrow> swap_pool_info list \<Rightarrow> rat \<Rightarrow> rat \<Rightarrow> rat option" where
  "spot_correction B [] current_delta correction = Some correction"
| "spot_correction B (pool # pools) current_delta correction =
     (let pool_amount = tsu_val (sp_amount_in pool) in
      if pool_amount = 0 then spot_correction B pools current_delta correction
      else if pool_amount + current_delta = 0 then None
      else spot_correction B pools
        (bd_div B (tsu_val (sp_amount_out pool) * current_delta) (pool_amount + current_delta))
        (correction * bd_div B (pool_amount + current_delta) pool_amount))"

definition to_spot_rate_with_fallback :: "bigdecimal \<Rightarrow> token_rate \<Rightarrow> swap_route option \<Rightarrow>
    exchange_rate option" where
  "to_spot_rate_with_fallback B r fallback =
     (case (case tr_swap_path r of Some p \<Rightarrow> Some p | None \<Rightarrow> fallback) of
        Some path \<Rightarrow>
          if route_pools path \<noteq> []
          then map_option (rate_scale (tr_exchange_rate r))
            (spot_correction B (route_pools path) (of_int (tr_rate_calc_near r) * 10 ^ 24) 1)
          else Some (tr_exchange_rate r)
      | None \<Rightarrow> Some (tr_exchange_rate r))"

definition to_spot_rate :: "bigdecimal \<Rightarrow> token_rate \<Rightarrow> exchange_rate option" where
  "to_spot_rate B r = to_spot_rate_with_fallback B r None"

definition spot_item :: "bigdecimal \<Rightarrow> token_rate \<Rightarrow> swap_route option \<Rightarrow>
    (int \<times> exchange_rate) list option" where
  "spot_item B rate fallback =
     map_option (\<lambda>spot. if rate_is_effectively_zero spot then [] else [(tr_timestamp rate, spot)])
       (to_spot_rate_with_fallback B rate fallback)"

fun concat_opt :: "'a list option list \<Rightarrow> 'a list option" where
  "concat_opt [] = Some []"
| "concat_opt (x # xs) = Option.bind x (\<lambda>a. map_option (\<lambda>b. a @ b) (concat_opt xs))"

definition to_spot_rates :: "bigdecimal \<Rightarrow> token_rate list \<Rightarrow> (int \<times> exchange_rate) list option" where
  "to_spot_rates B rates =
     (let fallback_indices = precompute_fallback_indices rates in
      concat_opt (map (\<lambda>(i, rate).
        spot_item B rate (Option.bind (fallback_indices ! i) (\<lambda>idx.
          Option.bind (get_opt rates idx) tr_swap_path))) (enumerate 0 rates)))"

section \<open>Statements\<close>

type_synonym ('w, 'j) rate_table = "('w, 'j db_token_rate, 'j new_db_token_rate) table"

definition rate_batch_insert :: "'j rate_codec \<Rightarrow> ('w, 'j) rate_table \<Rightarrow> token_rate list \<Rightarrow> ('w, unit) db" where
  "rate_batch_insert J T rates =
     (if rates = [] then db_return ()
      else db_bind (db_call (t_insert T (map (rate_to_new_db J) rates))) (\<lambda>_. db_return ()))"

definition RATE_MIN_RETENTION_DAYS :: u32 where "RATE_MIN_RETENTION_DAYS = 7"

definition rate_cleanup_old_records :: "('w, 'j) rate_table \<Rightarrow> ('w \<Rightarrow> int) \<Rightarrow> u32 \<Rightarrow> ('w, unit) db" where
  "rate_cleanup_old_records T clock retention_days w =
     (if retention_days = 0 then db_return () w
      else let effective_days = max retention_days RATE_MIN_RETENTION_DAYS;
               cutoff = clock w - days_us effective_days
           in db_bind (db_call (t_delete T (\<lambda>r. dbr_timestamp r < cutoff))) (\<lambda>_. db_return ()) w)"

definition of_pair :: "token_out_account \<Rightarrow> token_in_account \<Rightarrow> 'j db_token_rate \<Rightarrow> bool" where
  "of_pair base quote r \<longleftrightarrow> dbr_base r = as_account_id (out_inner base) \<and>
     dbr_quote r = as_account_id (in_inner quote)"

definition rate_get_latest :: "'j rate_codec \<Rightarrow> ('w, 'j) rate_table \<Rightarrow> token_out_account \<Rightarrow>
    token_in_account \<Rightarrow> ('w, token_rate option) db" where
  "rate_get_latest J T base quote =
     db_bind (db_load T (of_pair base quote) unordered) (\<lambda>rows.
     case rows of
       [] \<Rightarrow> db_return None
     | _ \<Rightarrow>
       (let ts = Max (dbr_timestamp ` set rows) in
        db_bind (db_first T (\<lambda>r. of_pair base quote r \<and> dbr_timestamp r = ts) unordered) (\<lambda>x.
        case x of
          None \<Rightarrow> db_fail (Db_Error ''NotFound'')
        | Some r \<Rightarrow> db_bind (db_of (rate_from_db J r)) (\<lambda>rate. db_return (Some rate)))))"

definition get_rates_in_time_range :: "'j rate_codec \<Rightarrow> ('w, 'j) rate_table \<Rightarrow> int \<Rightarrow> int \<Rightarrow>
    token_out_account \<Rightarrow> token_in_account \<Rightarrow> ('w, token_rate list) db" where
  "get_rates_in_time_range J T start end' base quote =
     db_bind (db_load T (\<lambda>r. start < dbr_timestamp r \<and> dbr_timestamp r \<le> end' \<and> of_pair base quote r)
       (asc dbr_timestamp)) (\<lambda>rows. db_of (rmapM (rate_from_db J) rows))"

definition push_rate :: "token_rate \<Rightarrow> (token_out_account \<rightharpoonup> token_rate list) \<Rightarrow>
    (token_out_account \<rightharpoonup> token_rate list)" where
  "push_rate r m = m(tr_base r \<mapsto> (case m (tr_base r) of None \<Rightarrow> [] | Some rs \<Rightarrow> rs) @ [r])"

definition get_rates_for_multiple_tokens :: "'j rate_codec \<Rightarrow> ('w, 'j) rate_table \<Rightarrow>
    token_out_account list \<Rightarrow> token_in_account \<Rightarrow> int \<Rightarrow> int \<Rightarrow>
    ('w, token_out_account \<rightharpoonup> token_rate list) db" where
  "get_rates_for_multiple_tokens J T tokens quote start end' =
     (if tokens = [] then db_return Map.empty
      else db_bind (db_load T (\<lambda>r. (\<exists>t \<in> set tokens. of_pair t quote r) \<and>
          start < dbr_timestamp r \<and> dbr_timestamp r \<le> end')
          (then_by (asc dbr_base) (asc dbr_timestamp))) (\<lambda>rows.
        db_bind (db_of (rmapM (rate_from_db J) rows)) (\<lambda>rates.
        db_return (fold push_rate rates Map.empty))))"

text \<open>The aggregates of the volatility query, the standard deviation over the average, are an
  argument; the groups come in some order and are sorted by it, largest first.\<close>

definition rate_group :: "'j db_token_rate list \<Rightarrow> string \<Rightarrow> rat list" where
  "rate_group rows base = map dbr_rate (filter (\<lambda>r. dbr_base r = base) rows)"

definition volatility_rows :: "(rat list \<Rightarrow> rat) \<Rightarrow> 'j db_token_rate list \<Rightarrow> (string \<times> rat) list" where
  "volatility_rows cv rows =
     sort_key (\<lambda>(_, v). - v) (map (\<lambda>base. (base, cv (rate_group rows base)))
       (filter (\<lambda>base. (\<forall>x \<in> set (rate_group rows base). 0 < x) \<and> 3 \<le> length (rate_group rows base))
         (map dbr_base (distinct_on dbr_base rows))))"

definition get_by_volatility_in_time_range :: "(rat list \<Rightarrow> rat) \<Rightarrow> 'j rate_codec \<Rightarrow>
    ('w, 'j) rate_table \<Rightarrow> int \<Rightarrow> int \<Rightarrow> token_in_account \<Rightarrow> ('w, token_volatility list) db" where
  "get_by_volatility_in_time_range cv J T start end' quote =
     db_bind (db_load T (\<lambda>r. dbr_quote r = as_account_id (in_inner quote) \<and>
       start \<le> dbr_timestamp r \<and> dbr_timestamp r \<le> end') unordered) (\<lambda>rows.
     db_return (List.map_filter (\<lambda>(base, v).
       map_option (\<lambda>t. \<lparr>tv_base = t, coefficient_of_variation = v\<rparr>) (parse_token J base))
       (volatility_rows cv rows)))"

text \<open>The two CTEs of \<^verbatim>\<open>get_spot_rates_at_time\<close> range over the same rows in the same order; the
  second only over those with a swap path.\<close>

definition coalesce_path :: "'j db_token_rate list \<Rightarrow> 'j db_token_rate \<Rightarrow> 'j db_token_rate" where
  "coalesce_path fallback l = (case dbr_swap_path l of
     Some _ \<Rightarrow> l
   | None \<Rightarrow> (case List.find (\<lambda>f. dbr_base f = dbr_base l) fallback of
       None \<Rightarrow> l
     | Some f \<Rightarrow> l\<lparr>dbr_swap_path := dbr_swap_path f\<rparr>))"

definition latest_with_path :: "'j db_token_rate list \<Rightarrow> 'j db_token_rate list" where
  "latest_with_path rows =
     (let latest = distinct_on dbr_base rows;
          fallback = distinct_on dbr_base (filter (\<lambda>r. dbr_swap_path r \<noteq> None) rows)
      in map (coalesce_path fallback) latest)"

fun insert_spot_rates :: "bigdecimal \<Rightarrow> token_rate list \<Rightarrow> (token_out_account \<rightharpoonup> exchange_rate) \<Rightarrow>
    (token_out_account \<rightharpoonup> exchange_rate) option" where
  "insert_spot_rates B [] m = Some m"
| "insert_spot_rates B (r # rates) m =
     Option.bind (to_spot_rate B r) (\<lambda>spot. insert_spot_rates B rates (m(tr_base r \<mapsto> spot)))"

definition get_spot_rates_at_time :: "bigdecimal \<Rightarrow> 'j rate_codec \<Rightarrow> ('w, 'j) rate_table \<Rightarrow>
    token_out_account list \<Rightarrow> token_in_account \<Rightarrow> int \<Rightarrow>
    ('w, (token_out_account \<rightharpoonup> exchange_rate) option) db" where
  "get_spot_rates_at_time B J T tokens quote at_or_before =
     (if tokens = [] then db_return (Some Map.empty)
      else db_bind (db_load T (\<lambda>r. (\<exists>t \<in> set tokens. of_pair t quote r) \<and> dbr_timestamp r \<le> at_or_before)
          (then_by (asc dbr_base) (desc dbr_timestamp))) (\<lambda>rows.
        db_bind (db_of (rmapM (rate_from_db J) (latest_with_path rows))) (\<lambda>rates.
        db_return (insert_spot_rates B rates Map.empty))))"

fun insert_parsed_rates :: "bigdecimal \<Rightarrow> 'j rate_codec \<Rightarrow> 'j db_token_rate list \<Rightarrow>
    (token_account \<rightharpoonup> exchange_rate) \<Rightarrow> (token_account \<rightharpoonup> exchange_rate) option" where
  "insert_parsed_rates B J [] m = Some m"
| "insert_parsed_rates B J (row # rows) m = (case rate_from_db J row of
     Inl _ \<Rightarrow> insert_parsed_rates B J rows m
   | Inr r \<Rightarrow> Option.bind (to_spot_rate B r) (\<lambda>spot.
       insert_parsed_rates B J rows (m(out_inner (tr_base r) \<mapsto> spot))))"

definition get_all_latest_rates :: "bigdecimal \<Rightarrow> 'j rate_codec \<Rightarrow> ('w, 'j) rate_table \<Rightarrow>
    token_account \<Rightarrow> ('w, (token_account \<rightharpoonup> exchange_rate) option) db" where
  "get_all_latest_rates B J T quote_token =
     db_bind (db_load T (\<lambda>r. dbr_quote r = as_account_id quote_token)
       (then_by (asc dbr_base) (desc dbr_timestamp))) (\<lambda>rows.
     db_return (insert_parsed_rates B J (latest_with_path rows) Map.empty))"

definition insert_decimals :: "'j rate_codec \<Rightarrow> 'j db_token_rate \<Rightarrow> (token_account \<rightharpoonup> 8 word) \<Rightarrow>
    (token_account \<rightharpoonup> 8 word)" where
  "insert_decimals J row m = (case parse_token J (dbr_base row) of
     None \<Rightarrow> m | Some t \<Rightarrow> m(t \<mapsto> ucast (dbr_decimals row)))"

definition get_all_decimals :: "'j rate_codec \<Rightarrow> ('w, 'j) rate_table \<Rightarrow> ('w, token_account \<rightharpoonup> 8 word) db" where
  "get_all_decimals J T =
     db_bind (db_load T (\<lambda>r. True) (then_by (asc dbr_base) (desc dbr_timestamp))) (\<lambda>rows.
     db_return (fold (insert_decimals J) (distinct_on dbr_base rows) Map.empty))"

section \<open>Fallback paths\<close>

definition next_path :: "token_rate list \<Rightarrow> nat \<Rightarrow> nat \<Rightarrow> nat option" where
  "next_path rates k i = List.find (\<lambda>j. tr_swap_path (rates ! j) \<noteq> None) [Suc k..<i]"

lemma length_fallback_scan [simp]: "length (fallback_scan rates i acc fb) = length fb"
  by (induction rates i acc fb rule: fallback_scan.induct) auto

lemma find_append: "List.find P (xs @ ys) = (case List.find P xs of None \<Rightarrow> List.find P ys | Some x \<Rightarrow> Some x)"
  by (induction xs) auto

lemma fallback_scan_nth:
  assumes "i \<le> length fb" "k < length fb"
  shows "fallback_scan rates i acc fb ! k =
    (if i \<le> k then fb ! k
     else if tr_swap_path (rates ! k) \<noteq> None then None
     else case next_path rates k i of None \<Rightarrow> acc | Some j \<Rightarrow> Some j)"
  using assms
proof (induction i arbitrary: acc fb)
  case (Suc i)
  have up: "next_path rates k (Suc i) = (case next_path rates k i of
      None \<Rightarrow> if tr_swap_path (rates ! i) \<noteq> None then Some i else None | Some j \<Rightarrow> Some j)" if "k < i"
    using that by (simp add: next_path_def find_append split: option.split)
  have none: "next_path rates i (Suc i) = None" by (simp add: next_path_def)
  consider "i < k" | "k = i" | "k < i" by linarith
  then show ?case
  proof cases
    case 1
    with Suc show ?thesis by simp
  next
    case 2
    with Suc none show ?thesis by simp
  next
    case 3
    with Suc up show ?thesis by (auto split: option.split)
  qed
qed simp

lemma find_map_nth: "List.find P (map f xs) = map_option f (List.find (\<lambda>x. P (f x)) xs)"
  by (induction xs) auto

lemma find_drop: "List.find P (drop m xs) = map_option (nth xs) (List.find (\<lambda>j. P (xs ! j)) [m..<length xs])"
proof -
  have "drop m xs = map (nth xs) [m..<length xs]"
    by (rule nth_equalityI) auto
  then show ?thesis by (simp add: find_map_nth)
qed

lemma fallback_indices_find:
  assumes "k < length rates"
  shows "Option.bind (precompute_fallback_indices rates ! k) (\<lambda>idx.
      Option.bind (get_opt rates idx) tr_swap_path) = find_fallback_path rates k"
proof -
  let ?n = "next_path rates k (length rates)"
  have bound: "j < length rates" if "?n = Some j" for j
    using that by (auto simp: next_path_def find_Some_iff)
  have "precompute_fallback_indices rates ! k =
      (if tr_swap_path (rates ! k) \<noteq> None then None else ?n)"
    using assms by (simp add: precompute_fallback_indices_def fallback_scan_nth option.case_eq_if)
  moreover have "List.find (\<lambda>r. tr_swap_path r \<noteq> None) (drop (k + 1) rates) = map_option (nth rates) ?n"
    by (simp add: find_drop next_path_def)
  ultimately show ?thesis using assms bound
    by (cases ?n) (auto simp: find_fallback_path_def get_opt_def)
qed

section \<open>The correction to the spot rate\<close>

text \<open>A constant-product swap without fee through a list of pools, and the product of the pool prices.\<close>

fun amm_chain :: "swap_pool_info list \<Rightarrow> rat \<Rightarrow> rat" where
  "amm_chain [] d = d"
| "amm_chain (p # ps) d = (let x = tsu_val (sp_amount_in p); y = tsu_val (sp_amount_out p)
     in amm_chain ps (y * d / (x + d)))"

fun pool_prices :: "swap_pool_info list \<Rightarrow> rat" where
  "pool_prices [] = 1"
| "pool_prices (p # ps) = tsu_val (sp_amount_out p) / tsu_val (sp_amount_in p) * pool_prices ps"

fun exact_correction :: "swap_pool_info list \<Rightarrow> rat \<Rightarrow> rat" where
  "exact_correction [] d = 1"
| "exact_correction (p # ps) d = (let x = tsu_val (sp_amount_in p); y = tsu_val (sp_amount_out p)
     in (x + d) / x * exact_correction ps (y * d / (x + d)))"

definition filled :: "swap_pool_info list \<Rightarrow> bool" where
  "filled ps \<longleftrightarrow> (\<forall>p \<in> set ps. 0 < tsu_val (sp_amount_in p) \<and> 0 < tsu_val (sp_amount_out p))"

lemma filled_simps [simp]:
  "filled []" "filled (p # ps) \<longleftrightarrow> 0 < tsu_val (sp_amount_in p) \<and> 0 < tsu_val (sp_amount_out p) \<and> filled ps"
  by (auto simp: filled_def)

text \<open>The price impact of a swap without fee is exactly the correction.\<close>

lemma amm_chain_corrected:
  assumes "filled ps" "0 < d"
  shows "amm_chain ps d * exact_correction ps d = d * pool_prices ps"
  using assms
proof (induction ps arbitrary: d)
  case (Cons p ps)
  let ?x = "tsu_val (sp_amount_in p)" and ?y = "tsu_val (sp_amount_out p)"
  have pos: "0 < ?x" "0 < ?y" "0 < ?x + d" using Cons.prems by auto
  then have "0 < ?y * d / (?x + d)" using Cons.prems(2) by simp
  from Cons.IH [OF _ this] Cons.prems have
    IH: "amm_chain ps (?y * d / (?x + d)) * exact_correction ps (?y * d / (?x + d)) =
      ?y * d / (?x + d) * pool_prices ps" by simp
  have "amm_chain (p # ps) d * exact_correction (p # ps) d =
      (?x + d) / ?x * (amm_chain ps (?y * d / (?x + d)) * exact_correction ps (?y * d / (?x + d)))"
    by (simp add: Let_def)
  also have "\<dots> = d * pool_prices (p # ps)" using pos by (simp add: IH)
  finally show ?case .
qed simp

lemma exact_correction_pos: "filled ps \<Longrightarrow> 0 < d \<Longrightarrow> 0 < exact_correction ps d"
  by (induction ps arbitrary: d) (auto simp: Let_def intro!: mult_pos_pos divide_pos_pos add_pos_pos)

definition eps :: rat where "eps = 1 / 10 ^ 99"

lemma eps_bounds: "0 < eps" "eps < 1"
  by (simp_all add: eps_def)

lemma bd_div_bounds:
  assumes "bigdecimal_spec B" "0 \<le> a" "0 < b" "lo \<le> a / b" "a / b \<le> hi"
  shows "(1 - eps) * lo \<le> bd_div B a b" "bd_div B a b \<le> (1 + eps) * hi"
proof -
  have "\<bar>bd_div B a b - a / b\<bar> \<le> a / b * eps"
    using bd_div_error [OF assms(1), of b a] assms(2,3) by (simp add: eps_def)
  then have "a / b - a / b * eps \<le> bd_div B a b" "bd_div B a b \<le> a / b + a / b * eps"
    by linarith+
  then have "(1 - eps) * (a / b) \<le> bd_div B a b" "bd_div B a b \<le> (1 + eps) * (a / b)"
    unfolding left_diff_distrib distrib_right mult_1 by (simp_all only: mult.commute)
  moreover have "(1 - eps) * lo \<le> (1 - eps) * (a / b)" "(1 + eps) * (a / b) \<le> (1 + eps) * hi"
    by (intro mult_left_mono; use assms(4,5) eps_bounds in simp)+
  ultimately show "(1 - eps) * lo \<le> bd_div B a b" "bd_div B a b \<le> (1 + eps) * hi" by linarith+
qed

text \<open>Scaling the input by a factor moves both quotients of a hop by at most that factor.\<close>

lemma hop_scaled:
  fixes x y d d' m l :: rat
  assumes "0 < x" "0 < y" "0 < d" "0 < m" "m \<le> 1" "1 \<le> l" "m * d \<le> d'" "d' \<le> l * d"
  shows "m * ((x + d) / x) \<le> (x + d') / x" "(x + d') / x \<le> l * ((x + d) / x)"
    "m * (y * d / (x + d)) \<le> y * d' / (x + d')" "y * d' / (x + d') \<le> l * (y * d / (x + d))"
proof -
  have d': "0 < d'" using assms(3,4,7) by (meson less_le_trans mult_pos_pos)
  have mx: "m * x \<le> x" and lx: "x \<le> l * x" using assms by simp_all
  show "m * ((x + d) / x) \<le> (x + d') / x" "(x + d') / x \<le> l * ((x + d) / x)"
  proof -
    have "m * (x + d) \<le> x + d'" "x + d' \<le> l * (x + d)"
      using assms(7,8) mx lx by (simp_all add: distrib_left)
    then show "m * ((x + d) / x) \<le> (x + d') / x" "(x + d') / x \<le> l * ((x + d) / x)"
      using assms(1) by (simp_all add: divide_right_mono)
  qed
  have "m * d * (x + d') \<le> d' * (x + d)"
  proof -
    have "m * d * x \<le> d' * x" using assms(1,7) by simp
    moreover have "m * d * d' \<le> d' * d" using assms(3,5) d' by (simp add: mult_ac mult_left_le_one_le)
    ultimately show ?thesis by (simp add: algebra_simps)
  qed
  then have "y * (m * d * (x + d')) \<le> y * (d' * (x + d))" using assms(2) by (simp add: mult_left_mono)
  then show "m * (y * d / (x + d)) \<le> y * d' / (x + d')"
    using assms(1,3) d' by (simp add: divide_le_eq le_divide_eq mult_ac)
  have "d' * (x + d) \<le> l * d * (x + d')"
  proof -
    have "d' * x \<le> l * d * x" using assms(1,8) by simp
    moreover have "d' * d \<le> l * d * d'" using assms(3,6) d' by (simp add: mult_ac)
    ultimately show ?thesis by (simp add: algebra_simps)
  qed
  then have "y * (d' * (x + d)) \<le> y * (l * d * (x + d'))" using assms(2) by (simp add: mult_left_mono)
  then show "y * d' / (x + d') \<le> l * (y * d / (x + d))"
    using assms(1,3) d' by (simp add: divide_le_eq le_divide_eq mult_ac)
qed

lemma spot_correction_bounds:
  assumes "bigdecimal_spec B" "filled ps" "0 < d" "0 < m" "m \<le> 1" "1 \<le> l"
    and "m * d \<le> d'" "d' \<le> l * d" "0 < c"
  shows "\<exists>r. spot_correction B ps d' c = Some r \<and>
    c * m ^ length ps * (1 - eps) ^ (length ps * (length ps + 1) div 2) * exact_correction ps d \<le> r \<and>
    r \<le> c * l ^ length ps * (1 + eps) ^ (length ps * (length ps + 1) div 2) * exact_correction ps d"
  using assms(2-)
proof (induction ps arbitrary: d d' m l c)
  case (Cons p ps)
  let ?x = "tsu_val (sp_amount_in p)" and ?y = "tsu_val (sp_amount_out p)" and ?n = "length ps"
  have pos: "0 < ?x" "0 < ?y" "filled ps" using Cons.prems(1) by auto
  have d': "0 < d'" using Cons.prems(2,3,6) by (meson less_le_trans mult_pos_pos)
  note hop = hop_scaled [OF pos(1,2) Cons.prems(2-7)]
  let ?q = "bd_div B (?x + d') ?x" and ?e = "bd_div B (?y * d') (?x + d')"
  have q: "(1 - eps) * (m * ((?x + d) / ?x)) \<le> ?q" "?q \<le> (1 + eps) * (l * ((?x + d) / ?x))"
    by (rule bd_div_bounds [OF assms(1)]; use hop pos d' in simp)+
  have e: "(1 - eps) * (m * (?y * d / (?x + d))) \<le> ?e" "?e \<le> (1 + eps) * (l * (?y * d / (?x + d)))"
    by (rule bd_div_bounds [OF assms(1)]; use hop pos d' in simp)+
  have Q: "0 < (?x + d) / ?x" using pos(1) Cons.prems(2) by simp
  have qpos: "0 < ?q"
  proof -
    have "0 < (1 - eps) * (m * ((?x + d) / ?x))" using eps_bounds Cons.prems(3) Q by (intro mult_pos_pos) simp_all
    with q(1) show ?thesis by linarith
  qed
  have D: "0 < ?y * d / (?x + d)" using pos Cons.prems(2) by simp
  have m': "0 < (1 - eps) * m" "(1 - eps) * m \<le> 1"
    using eps_bounds Cons.prems(3,4) by (simp_all add: mult_le_one)
  have "1 * 1 \<le> (1 + eps) * l" by (rule mult_mono) (use eps_bounds Cons.prems(5) in simp_all)
  then have l': "1 \<le> (1 + eps) * l" by simp
  have c': "0 < c * ?q" using qpos Cons.prems(8) by simp
  from Cons.IH [OF pos(3) D m' l' _ _ c'] e obtain r where
    r: "spot_correction B ps ?e (c * ?q) = Some r"
    "c * ?q * ((1 - eps) * m) ^ ?n * (1 - eps) ^ (?n * (?n + 1) div 2) * exact_correction ps (?y * d / (?x + d)) \<le> r"
    "r \<le> c * ?q * ((1 + eps) * l) ^ ?n * (1 + eps) ^ (?n * (?n + 1) div 2) * exact_correction ps (?y * d / (?x + d))"
    by (auto simp: mult.assoc)
  have tri: "length (p # ps) * (length (p # ps) + 1) div 2 = Suc (?n + ?n * (?n + 1) div 2)"
    by (simp add: algebra_simps)
  let ?E = "exact_correction ps (?y * d / (?x + d))"
  have E: "0 < ?E" by (rule exact_correction_pos [OF pos(3) D])
  have eq: "spot_correction B (p # ps) d' c = Some r" using r(1) pos(1) d' by (simp add: Let_def)
  have "c * m ^ length (p # ps) * (1 - eps) ^ (length (p # ps) * (length (p # ps) + 1) div 2) * exact_correction (p # ps) d =
      (c * ((1 - eps) * m) ^ ?n * (1 - eps) ^ (?n * (?n + 1) div 2) * ?E) * ((1 - eps) * (m * ((?x + d) / ?x)))"
    unfolding tri by (simp add: Let_def power_mult_distrib power_add mult_ac)
  also have "\<dots> \<le> (c * ((1 - eps) * m) ^ ?n * (1 - eps) ^ (?n * (?n + 1) div 2) * ?E) * ?q"
    by (rule mult_left_mono [OF q(1)]) (use Cons.prems(8,3) E eps_bounds in \<open>intro mult_nonneg_nonneg zero_le_power; simp\<close>)
  also have "\<dots> \<le> r" using r(2) by (simp add: mult_ac)
  finally have lo: "c * m ^ length (p # ps) * (1 - eps) ^ (length (p # ps) * (length (p # ps) + 1) div 2) *
      exact_correction (p # ps) d \<le> r" .
  have "r \<le> (c * ((1 + eps) * l) ^ ?n * (1 + eps) ^ (?n * (?n + 1) div 2) * ?E) * ?q"
    using r(3) by (simp add: mult_ac)
  also have "\<dots> \<le> (c * ((1 + eps) * l) ^ ?n * (1 + eps) ^ (?n * (?n + 1) div 2) * ?E) * ((1 + eps) * (l * ((?x + d) / ?x)))"
    by (rule mult_left_mono [OF q(2)]) (use Cons.prems(8,5) E eps_bounds in \<open>intro mult_nonneg_nonneg zero_le_power; simp\<close>)
  also have "\<dots> = c * l ^ length (p # ps) * (1 + eps) ^ (length (p # ps) * (length (p # ps) + 1) div 2) *
      exact_correction (p # ps) d"
    unfolding tri by (simp add: Let_def power_mult_distrib power_add mult_ac)
  finally show ?case using eq lo by blast
qed simp

interpretation rate_retention: retention rate_cleanup_old_records dbr_timestamp RATE_MIN_RETENTION_DAYS
  by unfold_locales (simp_all add: rate_cleanup_old_records_def Let_def)

section \<open>Spot rates at a time\<close>

lemma insert_spot_rates_spec:
  assumes "insert_spot_rates B rates m0 = Some m" "distinct (map tr_base rates)"
  shows "(\<forall>r \<in> set rates. \<exists>s. to_spot_rate B r = Some s \<and> m (tr_base r) = Some s) \<and>
    (\<forall>k. k \<notin> tr_base ` set rates \<longrightarrow> m k = m0 k)"
  using assms
proof (induction rates arbitrary: m0)
  case (Cons r rates)
  from Cons.prems(1) obtain s where s: "to_spot_rate B r = Some s"
    "insert_spot_rates B rates (m0(tr_base r \<mapsto> s)) = Some m" by (auto simp: bind_eq_Some_conv)
  from Cons.IH [OF s(2)] Cons.prems(2) have
    IH: "\<forall>r \<in> set rates. \<exists>s. to_spot_rate B r = Some s \<and> m (tr_base r) = Some s"
      "\<forall>k. k \<notin> tr_base ` set rates \<longrightarrow> m k = (m0(tr_base r \<mapsto> s)) k" by auto
  from Cons.prems(2) IH(2) have "m (tr_base r) = Some s" by auto
  with IH s show ?case by auto
qed simp

text \<open>The newest of a set of rows.\<close>

definition newest :: "'j db_token_rate set \<Rightarrow> 'j db_token_rate \<Rightarrow> bool" where
  "newest R l \<longleftrightarrow> l \<in> R \<and> (\<forall>r \<in> R. dbr_timestamp r \<le> dbr_timestamp l)"

lemma distinct_on_newest:
  assumes "sorted_wrt (then_by (asc dbr_base) (desc dbr_timestamp)) xs" "l \<in> set (distinct_on dbr_base xs)"
  shows "newest {r \<in> set xs. dbr_base r = dbr_base l} l"
proof -
  have "l \<in> set xs" using assms(2) distinct_on_keys(3) by fastforce
  moreover have "dbr_timestamp r \<le> dbr_timestamp l" if "r \<in> set xs" "dbr_base r = dbr_base l" for r
    using distinct_on_first [OF assms(1) _ assms(2) that(1,2)] that(2)
    by (auto simp: then_by_def asc_def desc_def)
  ultimately show ?thesis by (auto simp: newest_def)
qed

text \<open>The swap path the statement returns for a row: its own, or that of the newest row of the
  token that has one.\<close>

definition path_of :: "'j db_token_rate set \<Rightarrow> 'j db_token_rate \<Rightarrow> 'j option \<Rightarrow> bool" where
  "path_of R l p \<longleftrightarrow> (if dbr_swap_path l \<noteq> None then p = dbr_swap_path l
     else if \<exists>r \<in> R. dbr_swap_path r \<noteq> None
     then \<exists>f. newest {r \<in> R. dbr_swap_path r \<noteq> None} f \<and> p = dbr_swap_path f
     else p = None)"

lemma latest_with_path_spec:
  assumes sorted: "sorted_wrt (then_by (asc dbr_base) (desc dbr_timestamp)) xs" and y: "y \<in> set (latest_with_path xs)"
  defines "R \<equiv> {r \<in> set xs. dbr_base r = dbr_base y}"
  shows "\<exists>l p. newest R l \<and> path_of R l p \<and> y = l\<lparr>dbr_swap_path := p\<rparr>"
proof -
  let ?fb = "distinct_on dbr_base (filter (\<lambda>r. dbr_swap_path r \<noteq> None) xs)"
  from y obtain l where l: "l \<in> set (distinct_on dbr_base xs)" and yl: "y = coalesce_path ?fb l"
    by (auto simp: latest_with_path_def Let_def)
  have base: "dbr_base y = dbr_base l"
    by (auto simp: yl coalesce_path_def split: option.splits)
  have new: "newest R l" using distinct_on_newest [OF sorted l] by (simp add: R_def base)
  show ?thesis
  proof (cases "dbr_swap_path l")
    case (Some j)
    then have "y = l\<lparr>dbr_swap_path := dbr_swap_path l\<rparr>" by (simp add: yl coalesce_path_def)
    moreover have "path_of R l (dbr_swap_path l)" using Some by (simp add: path_of_def)
    ultimately show ?thesis using new by blast
  next
    case None
    show ?thesis
    proof (cases "List.find (\<lambda>f. dbr_base f = dbr_base l) ?fb")
      case find: None
      have "dbr_base l \<notin> set (map dbr_base ?fb)" using find by (auto simp: find_None_iff)
      then have no: "dbr_base l \<notin> set (map dbr_base (filter (\<lambda>r. dbr_swap_path r \<noteq> None) xs))"
        unfolding distinct_on_keys(2) .
      have "\<not> (\<exists>r \<in> R. dbr_swap_path r \<noteq> None)"
      proof
        assume "\<exists>r \<in> R. dbr_swap_path r \<noteq> None"
        then obtain r where "r \<in> set xs" "dbr_base r = dbr_base l" "dbr_swap_path r \<noteq> None"
          by (auto simp: R_def base)
        then have "dbr_base l \<in> dbr_base ` set (filter (\<lambda>r. dbr_swap_path r \<noteq> None) xs)"
          by (intro image_eqI [of _ _ r]) auto
        with no show False by simp
      qed
      with None have "path_of R l None" by (simp add: path_of_def)
      moreover have "y = l\<lparr>dbr_swap_path := None\<rparr>" using find None by (simp add: yl coalesce_path_def)
      ultimately show ?thesis using new by blast
    next
      case (Some f)
      then have f: "f \<in> set ?fb" "dbr_base f = dbr_base l" by (auto simp: find_Some_iff)
      have "sorted_wrt (then_by (asc dbr_base) (desc dbr_timestamp)) (filter (\<lambda>r. dbr_swap_path r \<noteq> None) xs)"
        using sorted by (simp add: sorted_wrt_filter)
      from distinct_on_newest [OF this f(1)] have
        n: "newest {r \<in> R. dbr_swap_path r \<noteq> None} f"
        by (simp add: R_def base f(2) newest_def)
      then have "\<exists>r \<in> R. dbr_swap_path r \<noteq> None" by (auto simp: newest_def)
      with n None have "path_of R l (dbr_swap_path f)" by (auto simp: path_of_def)
      moreover have "y = l\<lparr>dbr_swap_path := dbr_swap_path f\<rparr>" using Some None by (simp add: yl coalesce_path_def)
      ultimately show ?thesis using new by blast
    qed
  qed
qed

lemma latest_with_path_bases:
  "map dbr_base (latest_with_path xs) = map dbr_base (distinct_on dbr_base xs)"
  by (auto simp: latest_with_path_def Let_def coalesce_path_def split: option.splits)

definition parse_inverse :: "'j rate_codec \<Rightarrow> bool" where
  "parse_inverse J \<longleftrightarrow> (\<forall>s t. parse_token J s = Some t \<longrightarrow> as_account_id t = s)"

lemma rate_from_db_base:
  "parse_inverse J \<Longrightarrow> rate_from_db J r = Inr x \<Longrightarrow> as_account_id (out_inner (tr_base x)) = dbr_base r"
  by (auto simp: rate_from_db_def rbind_Inr_iff parse_inverse_def ok_or_def split: option.splits)

lemma amm_chain_pos: "filled ps \<Longrightarrow> 0 < d \<Longrightarrow> 0 < amm_chain ps d"
  by (induction ps arbitrary: d) (auto simp: Let_def intro!: divide_pos_pos mult_pos_pos add_pos_pos)

section \<open>Properties\<close>

text \<open>C9. The linear pass over the rates finds the same fallback paths as the search that, for each
  rate without a path, looks for the next newer rate with one: the spot rates are those of the
  search.\<close>

theorem spot_rates_use_next_path:
  "to_spot_rates B rates = concat_opt (map (\<lambda>(i, rate).
     spot_item B rate (find_fallback_path rates i)) (enumerate 0 rates))"
proof -
  have "map (\<lambda>(i, rate). spot_item B rate (Option.bind (precompute_fallback_indices rates ! i) (\<lambda>idx.
      Option.bind (get_opt rates idx) tr_swap_path))) (enumerate 0 rates) =
    map (\<lambda>(i, rate). spot_item B rate (find_fallback_path rates i)) (enumerate 0 rates)"
    by (rule map_cong) (auto simp: in_set_enumerate_eq fallback_indices_find)
  then show ?thesis unfolding to_spot_rates_def Let_def by (rule arg_cong)
qed

text \<open>C5. The correction removes the price impact. Let a rate have been measured by swapping some
  NEAR through pools with positive reserves by the constant-product formula without fee. Then
  the spot rate exists, keeps the decimals, and is the product of the pool prices up to the
  relative error of \<open>n (n + 1) / 2\<close> decimal divisions for \<open>n\<close> pools.\<close>

theorem spot_rate_recovers_price:
  assumes "bigdecimal_spec B" "tr_swap_path r = Some (SwapPath pools)" "pools \<noteq> []"
    and "\<forall>p \<in> set pools. 0 < tsu_val (sp_amount_in p) \<and> 0 < tsu_val (sp_amount_out p)"
    and "0 < tr_rate_calc_near r"
    and "raw_rate (tr_exchange_rate r) =
      amm_chain pools (of_int (tr_rate_calc_near r) * 10 ^ 24) / of_int (tr_rate_calc_near r)"
  shows "\<exists>spot. to_spot_rate B r = Some spot \<and> rate_decimals spot = rate_decimals (tr_exchange_rate r) \<and>
    10 ^ 24 * pool_prices pools * (1 - 1 / 10 ^ 99) ^ (length pools * (length pools + 1) div 2) \<le> raw_rate spot \<and>
    raw_rate spot \<le> 10 ^ 24 * pool_prices pools * (1 + 1 / 10 ^ 99) ^ (length pools * (length pools + 1) div 2)"
proof -
  let ?n = "of_int (tr_rate_calc_near r) :: rat" and ?k = "length pools * (length pools + 1) div 2"
  let ?d = "?n * 10 ^ 24" and ?a = "raw_rate (tr_exchange_rate r)"
  have f: "filled pools" using assms(4) by (simp add: filled_def)
  have n: "0 < ?n" using assms(5) by simp
  then have d: "0 < ?d" by simp
  from spot_correction_bounds [OF assms(1) f d, of 1 1 ?d 1] obtain c where
    c: "spot_correction B pools ?d 1 = Some c"
    "(1 - eps) ^ ?k * exact_correction pools ?d \<le> c" "c \<le> (1 + eps) ^ ?k * exact_correction pools ?d"
    by auto
  have "0 < amm_chain pools ?d"
    by (rule amm_chain_pos [OF f d])
  then have a: "0 < ?a" using assms(6) n by simp
  have S: "?a * exact_correction pools ?d = 10 ^ 24 * pool_prices pools"
    using amm_chain_corrected [OF f d] n by (simp add: assms(6))
  have "?a * ((1 - eps) ^ ?k * exact_correction pools ?d) \<le> ?a * c"
    "?a * c \<le> ?a * ((1 + eps) ^ ?k * exact_correction pools ?d)"
    by (rule mult_left_mono; use c a in simp)+
  then have "10 ^ 24 * pool_prices pools * (1 - eps) ^ ?k \<le> ?a * c"
    "?a * c \<le> 10 ^ 24 * pool_prices pools * (1 + eps) ^ ?k"
    unfolding S [symmetric] by (simp_all only: mult_ac)
  moreover have "to_spot_rate B r = Some (rate_scale (tr_exchange_rate r) c)"
    using assms(2,3) c(1) by (simp add: to_spot_rate_def to_spot_rate_with_fallback_def)
  ultimately show ?thesis unfolding eps_def [symmetric]
    by (intro exI [of _ "rate_scale (tr_exchange_rate r) c"])
      (simp add: rate_scale_def rate_from_raw_rate_def)
qed

definition sample_hop :: swap_pool_info where
  "sample_hop = \<lparr>sp_pool_id = 1, sp_token_in_idx = 0, sp_token_out_idx = 1,
     sp_amount_in = TokenSmallestUnits (3 * 10 ^ 24), sp_amount_out = TokenSmallestUnits (8 * 10 ^ 6)\<rparr>"

definition sample_rate :: token_rate where
  "sample_rate = \<lparr>tr_base = TokenOutAccount (TokenAccount ''usdc''), tr_quote = TokenInAccount (TokenAccount ''wrap.near''),
     tr_exchange_rate = \<lparr>raw_rate = 2 * 10 ^ 6, rate_decimals = 6\<rparr>, tr_timestamp = 0, tr_rate_calc_near = 1,
     tr_swap_path = Some (SwapPath [sample_hop])\<rparr>"

theorem spot_rate_recovers_price_witness:
  "\<exists>spot. to_spot_rate exact_decimal sample_rate = Some spot \<and> rate_decimals spot = 6 \<and>
    (8 * 10 ^ 6 / 3) * (1 - 1 / 10 ^ 99) \<le> raw_rate spot \<and> raw_rate spot \<le> (8 * 10 ^ 6 / 3) * (1 + 1 / 10 ^ 99)"
  using spot_rate_recovers_price [OF exact_decimal_spec, of sample_rate "[sample_hop]"]
  by (simp add: sample_rate_def sample_hop_def)

lemma list_all2_memD: "list_all2 P ys xs \<Longrightarrow> x \<in> set xs \<Longrightarrow> \<exists>y \<in> set ys. P y x"
  by (induction rule: list_all2_induct) auto

lemma rate_from_db_bases:
  assumes "parse_inverse J" "list_all2 (\<lambda>y x. rate_from_db J y = Inr x) ys xs"
  shows "map (\<lambda>x. as_account_id (out_inner (tr_base x))) xs = map dbr_base ys"
  using assms(2) by (induction rule: list_all2_induct) (auto dest: rate_from_db_base [OF assms(1)])

lemma account_inject: "as_account_id (out_inner a) = as_account_id (out_inner b) \<longleftrightarrow> a = b"
  by (metis token_account.expand token_out_account.expand)


definition sample_codec :: "swap_route rate_codec" where
  "sample_codec = \<lparr>parse_token = (\<lambda>s. Some (TokenAccount s)), ser_route = Some, de_route = Some\<rparr>"

definition sample_rate_row :: "nat \<Rightarrow> swap_route new_db_token_rate \<Rightarrow> swap_route db_token_rate" where
  "sample_rate_row i n = \<lparr>dbr_id = int i, dbr_base = ndr_base n, dbr_quote = ndr_quote n, dbr_rate = ndr_rate n,
     dbr_timestamp = ndr_timestamp n, dbr_decimals = ndr_decimals n,
     dbr_rate_calc_near = ndr_rate_calc_near n, dbr_swap_path = ndr_swap_path n\<rparr>"

definition sample_rate_rows :: "swap_route db_token_rate list" where
  "sample_rate_rows = map (sample_rate_row 1 \<circ> rate_to_new_db sample_codec) [sample_rate]"


end
