(* ===== verification/Matching.thy ===== *)
theory Matching
  imports Units
begin

text \<open>
  \<^verbatim>\<open>trade/src/execution/matching.rs\<close>: the sales and purchases of a rebalancing are matched into
  direct swaps, the largest first, so that only what is left over goes through wrapped NEAR.
  The order \<^verbatim>\<open>sort_unstable_by\<close> leaves among equal values is not specified, so the two
  sorts are arguments.
\<close>

section \<open>Operations\<close>

record sell_operation =
  so_token :: token_account
  so_near_value :: near_value
  so_exchange_rate :: exchange_rate

record buy_operation =
  bo_token :: token_account
  bo_near_value :: near_value

record direct_swap =
  ds_sell_token :: token_account
  ds_buy_token :: token_account
  ds_near_value :: near_value
  ds_sell_exchange_rate :: exchange_rate

record match_result =
  direct_swaps :: "direct_swap list"
  remaining_sells :: "sell_operation list"
  remaining_buys :: "buy_operation list"

instantiation near_value :: linorder
begin

definition less_eq_near_value :: "near_value \<Rightarrow> near_value \<Rightarrow> bool" where
  "v \<le> u \<longleftrightarrow> nv_val v \<le> nv_val u"

definition less_near_value :: "near_value \<Rightarrow> near_value \<Rightarrow> bool" where
  "v < u \<longleftrightarrow> nv_val v < nv_val u"

instance
  by standard (auto simp: less_eq_near_value_def less_near_value_def near_value.expand)

end

text \<open>The loop, with the operation each side is at, what is left of its value and the operations
  after it. One side is used up in every round.\<close>

lemma nv_sub_min: "nv_sub v (min v u) = nv_zero \<or> nv_sub u (min v u) = nv_zero"
  by (auto simp: nv_sub_def nv_zero_def min_def)

function match_loop :: "sell_operation \<Rightarrow> near_value \<Rightarrow> sell_operation list \<Rightarrow>
    buy_operation \<Rightarrow> near_value \<Rightarrow> buy_operation list \<Rightarrow> direct_swap list \<Rightarrow> match_result" where
  "match_loop current_sell sell_remaining sells current_buy buy_remaining buys swaps =
     (let match_value = min sell_remaining buy_remaining;
          swaps' = (if nv_zero < match_value
            then swaps @ [\<lparr>ds_sell_token = so_token current_sell, ds_buy_token = bo_token current_buy,
              ds_near_value = match_value, ds_sell_exchange_rate = so_exchange_rate current_sell\<rparr>]
            else swaps);
          sell_left = nv_sub sell_remaining match_value;
          buy_left = nv_sub buy_remaining match_value
      in if sell_left = nv_zero \<and> sells = []
         then \<lparr>direct_swaps = swaps', remaining_sells = [],
           remaining_buys = (if nv_zero < buy_left
             then [\<lparr>bo_token = bo_token current_buy, bo_near_value = buy_left\<rparr>] else []) @ buys\<rparr>
         else case (if sell_left = nv_zero then (hd sells, so_near_value (hd sells), tl sells)
                    else (current_sell, sell_left, sells)) of
           (sell, sell_rest, sells') \<Rightarrow>
             if buy_left = nv_zero
             then case buys of
               [] \<Rightarrow> \<lparr>direct_swaps = swaps',
                 remaining_sells = (if nv_zero < sell_rest
                   then [\<lparr>so_token = so_token sell, so_near_value = sell_rest,
                     so_exchange_rate = so_exchange_rate sell\<rparr>] else []) @ sells',
                 remaining_buys = []\<rparr>
             | buy # buys' \<Rightarrow> match_loop sell sell_rest sells' buy (bo_near_value buy) buys' swaps'
             else match_loop sell sell_rest sells' current_buy buy_left buys swaps')"
  by pat_completeness auto

termination
  by (relation "measure (\<lambda>(_, _, ss, _, _, bs, _). length ss + length bs)")
    (use nv_sub_min in \<open>auto split: if_splits simp: neq_Nil_conv\<close>)

definition match_rebalance_operations :: "(sell_operation list \<Rightarrow> sell_operation list) \<Rightarrow>
    (buy_operation list \<Rightarrow> buy_operation list) \<Rightarrow> sell_operation list \<Rightarrow> buy_operation list \<Rightarrow>
    match_result" where
  "match_rebalance_operations sort_sells sort_buys sells buys =
     (if sells = [] \<or> buys = []
      then \<lparr>direct_swaps = [], remaining_sells = sells, remaining_buys = buys\<rparr>
      else case (sort_sells sells, sort_buys buys) of
        (s # ss, b # bs) \<Rightarrow> match_loop s (so_near_value s) ss b (bo_near_value b) bs []
      | _ \<Rightarrow> \<lparr>direct_swaps = [], remaining_sells = [], remaining_buys = []\<rparr>)"

declare match_loop.simps [simp del]

section \<open>What the matching keeps\<close>

text \<open>The value of the operations on tokens and rates a predicate selects.\<close>

definition sold :: "(token_account \<Rightarrow> exchange_rate \<Rightarrow> bool) \<Rightarrow> sell_operation list \<Rightarrow> rat" where
  "sold P ss = (\<Sum>s \<leftarrow> ss. if P (so_token s) (so_exchange_rate s) then nv_val (so_near_value s) else 0)"

definition bought :: "(token_account \<Rightarrow> bool) \<Rightarrow> buy_operation list \<Rightarrow> rat" where
  "bought Q bs = (\<Sum>b \<leftarrow> bs. if Q (bo_token b) then nv_val (bo_near_value b) else 0)"

definition swapped_from :: "(token_account \<Rightarrow> exchange_rate \<Rightarrow> bool) \<Rightarrow> direct_swap list \<Rightarrow> rat" where
  "swapped_from P ds = (\<Sum>d \<leftarrow> ds. if P (ds_sell_token d) (ds_sell_exchange_rate d) then nv_val (ds_near_value d) else 0)"

definition swapped_to :: "(token_account \<Rightarrow> bool) \<Rightarrow> direct_swap list \<Rightarrow> rat" where
  "swapped_to Q ds = (\<Sum>d \<leftarrow> ds. if Q (ds_buy_token d) then nv_val (ds_near_value d) else 0)"

definition no_debts :: "sell_operation list \<Rightarrow> buy_operation list \<Rightarrow> bool" where
  "no_debts ss bs \<longleftrightarrow> (\<forall>s \<in> set ss. nv_zero \<le> so_near_value s) \<and> (\<forall>b \<in> set bs. nv_zero \<le> bo_near_value b)"

lemmas match_sums = sold_def bought_def swapped_from_def swapped_to_def

lemmas near_value_order = less_eq_near_value_def less_near_value_def nv_zero_def nv_sub_def

text \<open>One round, by the side that is used up.\<close>

definition add_swap :: "sell_operation \<Rightarrow> buy_operation \<Rightarrow> near_value \<Rightarrow> direct_swap list \<Rightarrow> direct_swap list" where
  "add_swap s b v ds = (if nv_zero < v then ds @ [\<lparr>ds_sell_token = so_token s, ds_buy_token = bo_token b,
     ds_near_value = v, ds_sell_exchange_rate = so_exchange_rate s\<rparr>] else ds)"

lemma match_loop_less:
  assumes "v < u"
  shows "match_loop s v ss b u bs ds = (case ss of
      [] \<Rightarrow> \<lparr>direct_swaps = add_swap s b v ds, remaining_sells = [],
        remaining_buys = \<lparr>bo_token = bo_token b, bo_near_value = nv_sub u v\<rparr> # bs\<rparr>
    | s' # ss' \<Rightarrow> match_loop s' (so_near_value s') ss' b (nv_sub u v) bs (add_swap s b v ds))"
  using assms
  by (subst match_loop.simps)
    (auto simp: add_swap_def min_def near_value_order Let_def neq_Nil_conv split: list.splits)

lemma match_loop_greater:
  assumes "u < v"
  shows "match_loop s v ss b u bs ds = (case bs of
      [] \<Rightarrow> \<lparr>direct_swaps = add_swap s b u ds,
        remaining_sells = \<lparr>so_token = so_token s, so_near_value = nv_sub v u,
          so_exchange_rate = so_exchange_rate s\<rparr> # ss, remaining_buys = []\<rparr>
    | b' # bs' \<Rightarrow> match_loop s (nv_sub v u) ss b' (bo_near_value b') bs' (add_swap s b u ds))"
  using assms
  by (subst match_loop.simps)
    (auto simp: add_swap_def min_def near_value_order Let_def neq_Nil_conv split: list.splits)

lemma match_loop_equal:
  "match_loop s v ss b v bs ds = (case (ss, bs) of
      ([], _) \<Rightarrow> \<lparr>direct_swaps = add_swap s b v ds, remaining_sells = [], remaining_buys = bs\<rparr>
    | (s' # ss', []) \<Rightarrow> \<lparr>direct_swaps = add_swap s b v ds,
        remaining_sells = (if nv_zero < so_near_value s' then [s'] else []) @ ss', remaining_buys = []\<rparr>
    | (s' # ss', b' # bs') \<Rightarrow>
        match_loop s' (so_near_value s') ss' b' (bo_near_value b') bs' (add_swap s b v ds))"
  by (subst match_loop.simps)
    (auto simp: add_swap_def near_value_order Let_def split: list.splits)

lemmas match_loop_rounds = match_loop_less match_loop_greater match_loop_equal

lemma match_loop_induct [case_names round]:
  assumes "\<And>s v ss b u bs ds. (\<And>s' v' ss' b' u' bs' ds'. length ss' + length bs' < length ss + length bs \<Longrightarrow>
      P s' v' ss' b' u' bs' ds') \<Longrightarrow> P s v ss b u bs ds"
  shows "P s v ss b u bs ds"
  by (induction "length ss + length bs" arbitrary: s v ss b u bs ds rule: less_induct) (metis assms)

lemma match_sums_simps [simp]:
  "sold P [] = 0" "bought Q [] = 0" "swapped_from P [] = 0" "swapped_to Q [] = 0"
  "sold P (s # ss) = (if P (so_token s) (so_exchange_rate s) then nv_val (so_near_value s) else 0) + sold P ss"
  "bought Q (b # bs) = (if Q (bo_token b) then nv_val (bo_near_value b) else 0) + bought Q bs"
  by (simp_all add: match_sums)

lemma no_debts_Cons [simp]:
  "no_debts [] []"
  "no_debts (s # ss) bs \<longleftrightarrow> nv_zero \<le> so_near_value s \<and> no_debts ss bs"
  "no_debts ss (b # bs) \<longleftrightarrow> nv_zero \<le> bo_near_value b \<and> no_debts ss bs"
  by (auto simp: no_debts_def)

lemma swapped_add_swap:
  assumes "nv_zero \<le> v"
  shows "swapped_from P (add_swap s b v ds) =
      swapped_from P ds + (if P (so_token s) (so_exchange_rate s) then nv_val v else 0)"
    and "swapped_to Q (add_swap s b v ds) = swapped_to Q ds + (if Q (bo_token b) then nv_val v else 0)"
  using assms by (auto simp: add_swap_def match_sums near_value_order)

lemma nv_sub_pos [simp]: "nv_zero < nv_sub u v \<longleftrightarrow> v < u" "nv_zero \<le> nv_sub u v \<longleftrightarrow> v \<le> u"
  by (auto simp: near_value_order)

lemma nv_val_sub [simp]: "nv_val (nv_sub u v) = nv_val u - nv_val v"
  by (simp add: nv_sub_def)

text \<open>What is left on both sides and what is swapped add up to what there was, for every token
  and every rate.\<close>

definition conserved :: "sell_operation \<Rightarrow> near_value \<Rightarrow> sell_operation list \<Rightarrow> buy_operation \<Rightarrow> near_value \<Rightarrow>
    buy_operation list \<Rightarrow> direct_swap list \<Rightarrow> match_result \<Rightarrow> bool" where
  "conserved s v ss b u bs ds r \<longleftrightarrow> (\<forall>P Q.
    swapped_from P (direct_swaps r) + sold P (remaining_sells r) =
      swapped_from P ds + (if P (so_token s) (so_exchange_rate s) then nv_val v else 0) + sold P ss \<and>
    swapped_to Q (direct_swaps r) + bought Q (remaining_buys r) =
      swapped_to Q ds + (if Q (bo_token b) then nv_val u else 0) + bought Q bs)"

lemma match_loop_conserves:
  assumes "no_debts ss bs" "nv_zero \<le> v" "nv_zero \<le> u"
  shows "conserved s v ss b u bs ds (match_loop s v ss b u bs ds)"
  using assms
proof (induction s v ss b u bs ds rule: match_loop_induct)
  case (round s v ss b u bs ds)
  note IH = round.IH [unfolded conserved_def] and add = swapped_add_swap [OF round.prems(2)] swapped_add_swap [OF round.prems(3)]
  consider "v < u" | "v = u" | "u < v" by (rule linorder_cases)
  then show ?case
  proof cases
    case 1
    then show ?thesis using round.prems
      by (cases ss) (auto simp: match_loop_less conserved_def IH add)
  next
    case 3
    then show ?thesis using round.prems
      by (cases bs) (auto simp: match_loop_greater conserved_def IH add)
  next
    case 2
    then show ?thesis using round.prems
      by (cases ss; cases bs) (auto simp: match_loop_equal conserved_def IH add near_value_order)
  qed
qed

text \<open>One side is used up, nothing becomes negative, the swaps are positive and not more than the operations.\<close>

lemma match_loop_shape:
  fixes s :: sell_operation and b :: buy_operation
  defines "pos \<equiv> \<lambda>ds. \<forall>d \<in> set ds. nv_zero < ds_near_value d"
  shows "let r = match_loop s v ss b u bs ds in
    (remaining_sells r = [] \<or> remaining_buys r = []) \<and> (pos ds \<longrightarrow> pos (direct_swaps r)) \<and>
    length (direct_swaps r) \<le> Suc (length ds + length ss + length bs) \<and>
    (no_debts ss bs \<and> nv_zero \<le> v \<and> nv_zero \<le> u \<longrightarrow> no_debts (remaining_sells r) (remaining_buys r))"
proof (induction s v ss b u bs ds rule: match_loop_induct)
  case (round s v ss b u bs ds)
  have add: "pos ds \<Longrightarrow> pos (add_swap s b x ds)" "length (add_swap s b x ds) \<le> Suc (length ds)" for x
    by (auto simp: pos_def add_swap_def)
  note IH = round.IH [unfolded Let_def]
  consider "v < u" | "v = u" | "u < v" by (rule linorder_cases)
  then show ?case
  proof cases
    case 1
    then show ?thesis
    proof (cases ss)
      case (Cons s' ss')
      with IH [of ss' bs s' "so_near_value s'" b "nv_sub u v" "add_swap s b v ds"] add(1) [of v] add(2) [of v] 1
      show ?thesis by (auto simp: match_loop_less)
    qed (use add(1) [of v] add(2) [of v] in \<open>auto simp: match_loop_less\<close>)
  next
    case 3
    then show ?thesis
    proof (cases bs)
      case (Cons b' bs')
      with IH [of ss bs' s "nv_sub v u" b' "bo_near_value b'" "add_swap s b u ds"] add(1) [of u] add(2) [of u] 3
      show ?thesis by (auto simp: match_loop_greater)
    qed (use add(1) [of u] add(2) [of u] in \<open>auto simp: match_loop_greater\<close>)
  next
    case 2
    then show ?thesis
    proof (cases "\<exists>s' ss' b' bs'. ss = s' # ss' \<and> bs = b' # bs'")
      case True
      then obtain s' ss' b' bs' where "ss = s' # ss'" "bs = b' # bs'" by blast
      with IH [of ss' bs' s' "so_near_value s'" b' "bo_near_value b'" "add_swap s b u ds"] add(1) [of u] add(2) [of u] 2
      show ?thesis by (auto simp: match_loop_equal)
    next
      case False
      then have "ss = [] \<or> bs = []" by (cases ss; cases bs) auto
      then show ?thesis using 2 add(1) [of u] add(2) [of u] by (cases ss) (auto simp: match_loop_equal)
    qed
  qed
qed

lemma match_rebalance_cases:
  assumes "mset (sort_sells sells) = mset sells" "mset (sort_buys buys) = mset buys"
  obtains "sells = [] \<or> buys = []" "match_rebalance_operations sort_sells sort_buys sells buys =
      \<lparr>direct_swaps = [], remaining_sells = sells, remaining_buys = buys\<rparr>"
  | s ss b bs where "sort_sells sells = s # ss" "sort_buys buys = b # bs"
    "match_rebalance_operations sort_sells sort_buys sells buys =
      match_loop s (so_near_value s) ss b (bo_near_value b) bs []"
proof (cases "sells = [] \<or> buys = []")
  case False
  with assms have "sort_sells sells \<noteq> []" "sort_buys buys \<noteq> []" by auto
  then obtain s ss b bs where "sort_sells sells = s # ss" "sort_buys buys = b # bs"
    by (auto simp: neq_Nil_conv)
  with False show ?thesis by (intro that(2)) (auto simp: match_rebalance_operations_def)
qed (auto simp: match_rebalance_operations_def intro: that(1))

lemma sum_list_mset_cong:
  assumes "mset xs = mset ys"
  shows "(\<Sum>x \<leftarrow> xs. f x) = (\<Sum>y \<leftarrow> ys. (f y :: rat))"
proof -
  have "mset (map f xs) = mset (map f ys)" using assms by simp
  then show ?thesis by (metis sum_mset_sum_list)
qed

lemma mset_match_sums:
  "mset ss = mset ss' \<Longrightarrow> sold P ss = sold P ss'"
  "mset bs = mset bs' \<Longrightarrow> bought Q bs = bought Q bs'"
  "mset ss = mset ss' \<Longrightarrow> mset bs = mset bs' \<Longrightarrow> no_debts ss bs = no_debts ss' bs'"
  unfolding sold_def bought_def no_debts_def
  by (erule sum_list_mset_cong, erule sum_list_mset_cong, drule mset_eq_setD, drule mset_eq_setD, simp)

lemma sums_nonneg:
  assumes "no_debts ss bs"
  shows "0 \<le> sold P ss" "0 \<le> bought Q bs"
  using assms unfolding match_sums no_debts_def
  by (auto simp: near_value_order intro!: sum_list_nonneg)

definition unstable_sort :: "('a \<Rightarrow> near_value) \<Rightarrow> ('a list \<Rightarrow> 'a list) \<Rightarrow> bool" where
  "unstable_sort worth f \<longleftrightarrow>
     (\<forall>xs. mset (f xs) = mset xs \<and> sorted_wrt (\<lambda>a b. worth b \<le> worth a) (f xs))"

text \<open>
  C25. Matching the operations of a rebalancing loses and invents nothing: for every token, and every
  rate it is sold at, the direct swaps and the sales left over add up to the sales that were
  asked for, and so do the purchases. The direct swaps carry the smaller of the two totals,
  so at most one side has something left. There are fewer swaps than operations and each of
  them is positive.
\<close>

theorem matching_conserves_value:
  assumes sorts: "unstable_sort so_near_value sort_sells" "unstable_sort bo_near_value sort_buys"
    and "no_debts sells buys"
  shows "\<exists>r. match_rebalance_operations sort_sells sort_buys sells buys = r \<and>
    (\<forall>P. swapped_from P (direct_swaps r) + sold P (remaining_sells r) = sold P sells) \<and>
    (\<forall>Q. swapped_to Q (direct_swaps r) + bought Q (remaining_buys r) = bought Q buys) \<and>
    swapped_to (\<lambda>_. True) (direct_swaps r) = min (sold (\<lambda>_ _. True) sells) (bought (\<lambda>_. True) buys) \<and>
    (\<forall>d \<in> set (direct_swaps r). nv_zero < ds_near_value d) \<and>
    length (direct_swaps r) \<le> length sells + length buys - 1"
proof -
  have perm: "mset (sort_sells sells) = mset sells" "mset (sort_buys buys) = mset buys"
    using sorts by (auto simp: unstable_sort_def)
  have all: "swapped_from (\<lambda>_ _. True) ds = swapped_to (\<lambda>_. True) ds" for ds
    by (simp add: match_sums)
  show ?thesis using perm
  proof (cases rule: match_rebalance_cases)
    case 1
    then show ?thesis using sums_nonneg [OF assms(3)] by (elim disjE) (simp_all add: min_absorb1 min_absorb2)
  next
    case (2 s ss b bs)
    let ?r = "match_loop s (so_near_value s) ss b (bo_near_value b) bs []"
    have debts: "no_debts (s # ss) (b # bs)" using assms(3) mset_match_sums(3) [OF perm] 2 by simp
    then have C: "conserved s (so_near_value s) ss b (bo_near_value b) bs [] ?r"
      by (intro match_loop_conserves) auto
    have sums: "sold P sells = sold P (s # ss)" "bought Q buys = bought Q (b # bs)" for P Q
      using mset_match_sums(1) [OF perm(1)] mset_match_sums(2) [OF perm(2)] 2 by simp_all
    have keep: "swapped_from P (direct_swaps ?r) + sold P (remaining_sells ?r) = sold P sells"
      "swapped_to Q (direct_swaps ?r) + bought Q (remaining_buys ?r) = bought Q buys" for P Q
      using C by (auto simp: conserved_def sums)
    note shape = match_loop_shape [of s "so_near_value s" ss b "bo_near_value b" bs "[]", unfolded Let_def]
    have rest: "no_debts (remaining_sells ?r) (remaining_buys ?r)" using shape debts by simp
    have "swapped_to (\<lambda>_. True) (direct_swaps ?r) = min (sold (\<lambda>_ _. True) sells) (bought (\<lambda>_. True) buys)"
      using shape keep(1) [of "\<lambda>_ _. True"] keep(2) [of "\<lambda>_. True"] sums_nonneg(1) [OF rest, of "\<lambda>_ _. True"]
        sums_nonneg(2) [OF rest, of "\<lambda>_. True"]
      by (auto simp: all min_def)
    moreover have "length sells = Suc (length ss)" "length buys = Suc (length bs)"
      using arg_cong [OF perm(1), of size] arg_cong [OF perm(2), of size] 2 by simp_all
    ultimately show ?thesis unfolding 2(3) using keep shape by simp
  qed
qed

text \<open>Two sales against one purchase: both are swapped, and the larger sale is not used up.\<close>

definition sample_sells :: "sell_operation list" where
  "sample_sells = [\<lparr>so_token = TokenAccount ''a'', so_near_value = NearValue 2, so_exchange_rate = rate_wnear\<rparr>,
     \<lparr>so_token = TokenAccount ''b'', so_near_value = NearValue 5, so_exchange_rate = rate_wnear\<rparr>]"

definition sample_buys :: "buy_operation list" where
  "sample_buys = [\<lparr>bo_token = TokenAccount ''c'', bo_near_value = NearValue 6\<rparr>]"

definition sort_desc :: "('a \<Rightarrow> near_value) \<Rightarrow> 'a list \<Rightarrow> 'a list" where
  "sort_desc worth xs = rev (sort_key worth xs)"

lemma sort_desc_spec: "unstable_sort worth (sort_desc worth)"
proof -
  have "sorted_wrt (\<lambda>a b. worth a \<le> worth b) (sort_key worth xs)" for xs
    using sorted_sort_key [of worth xs] by (simp add: sorted_map)
  then show ?thesis by (simp add: unstable_sort_def sort_desc_def sorted_wrt_rev)
qed

theorem matching_conserves_value_witness:
  "swapped_to (\<lambda>_. True) (direct_swaps (match_rebalance_operations (sort_desc so_near_value)
     (sort_desc bo_near_value) sample_sells sample_buys)) = 6"
proof -
  have "no_debts sample_sells sample_buys"
    by (simp add: no_debts_def sample_sells_def sample_buys_def near_value_order)
  from matching_conserves_value [OF sort_desc_spec sort_desc_spec this]
  show ?thesis by (auto simp: sample_sells_def sample_buys_def)
qed

end
