(* ===== verification/Float64.thy ===== *)
theory Float64
  imports Prelude Complex_Main
begin

text \<open>
  The type \<^verbatim>\<open>f64\<close>: the finite values are the rationals they denote, and every operation rounds
  its exact result to the nearest representable number, ties to even, as IEEE 754 requires.
  The sign of zero is not represented.
\<close>

section \<open>Rounding\<close>

function ilog2 :: "int \<Rightarrow> nat" where
  "ilog2 n = (if n < 2 then 0 else Suc (ilog2 (n div 2)))"
  by pat_completeness auto

termination
  by (relation "measure nat") auto

declare ilog2.simps [simp del]

definition pow2 :: "int \<Rightarrow> rat" where
  "pow2 k = (if 0 \<le> k then of_int (2 ^ nat k) else 1 / of_int (2 ^ nat (- k)))"

text \<open>The exponent \<open>e\<close> with \<open>2\<^sup>e \<le> x < 2\<^sup>e\<^sup>+\<^sup>1\<close>.\<close>

definition binade :: "rat \<Rightarrow> int" where
  "binade x = (case quotient_of x of (n, d) \<Rightarrow>
     let k = int (ilog2 n) - int (ilog2 d) in if x < pow2 k then k - 1 else k)"

definition round_half_even :: "rat \<Rightarrow> int" where
  "round_half_even x = (let f = \<lfloor>x\<rfloor>; r = x - of_int f in
     if r < 1 / 2 then f else if 1 / 2 < r then f + 1 else if even f then f else f + 1)"

text \<open>The spacing of the numbers around \<open>x\<close>: 53 significant bits, and none finer than the subnormal
  numbers.\<close>

definition quantum :: "rat \<Rightarrow> int" where
  "quantum x = max (binade \<bar>x\<bar> - 52) (- 1074)"

definition round_to_f64 :: "rat \<Rightarrow> rat" where
  "round_to_f64 x = (if x = 0 then 0
     else of_int (round_half_even (x / pow2 (quantum x))) * pow2 (quantum x))"

datatype f64 = NaN | PosInf | NegInf | Fin (fin: rat)

definition f64_of :: "rat \<Rightarrow> f64" where
  "f64_of x = (let y = round_to_f64 x in
     if binade \<bar>y\<bar> < 1024 then Fin y else if 0 < y then PosInf else NegInf)"

section \<open>Operations\<close>

fun f64_neg :: "f64 \<Rightarrow> f64" where
  "f64_neg NaN = NaN" | "f64_neg PosInf = NegInf" | "f64_neg NegInf = PosInf"
| "f64_neg (Fin a) = Fin (- a)"

fun f64_abs :: "f64 \<Rightarrow> f64" where
  "f64_abs NaN = NaN" | "f64_abs PosInf = PosInf" | "f64_abs NegInf = PosInf"
| "f64_abs (Fin a) = Fin \<bar>a\<bar>"

fun f64_add :: "f64 \<Rightarrow> f64 \<Rightarrow> f64" where
  "f64_add (Fin a) (Fin b) = f64_of (a + b)"
| "f64_add NaN _ = NaN" | "f64_add _ NaN = NaN"
| "f64_add PosInf NegInf = NaN" | "f64_add NegInf PosInf = NaN"
| "f64_add PosInf _ = PosInf" | "f64_add _ PosInf = PosInf"
| "f64_add NegInf _ = NegInf" | "f64_add _ NegInf = NegInf"

definition f64_sub :: "f64 \<Rightarrow> f64 \<Rightarrow> f64" where
  "f64_sub x y = f64_add x (f64_neg y)"

definition inf_of :: "rat \<Rightarrow> f64" where
  "inf_of s = (if s = 0 then NaN else if 0 < s then PosInf else NegInf)"

fun f64_sign :: "f64 \<Rightarrow> rat" where
  "f64_sign NaN = 0" | "f64_sign PosInf = 1" | "f64_sign NegInf = - 1" | "f64_sign (Fin a) = sgn a"

definition f64_mul :: "f64 \<Rightarrow> f64 \<Rightarrow> f64" where
  "f64_mul x y = (case (x, y) of
     (Fin a, Fin b) \<Rightarrow> f64_of (a * b)
   | (NaN, _) \<Rightarrow> NaN | (_, NaN) \<Rightarrow> NaN
   | _ \<Rightarrow> inf_of (f64_sign x * f64_sign y))"

definition f64_div :: "f64 \<Rightarrow> f64 \<Rightarrow> f64" where
  "f64_div x y = (case (x, y) of
     (NaN, _) \<Rightarrow> NaN | (_, NaN) \<Rightarrow> NaN
   | (Fin a, Fin b) \<Rightarrow> if b = 0 then inf_of a else f64_of (a / b)
   | (Fin a, _) \<Rightarrow> Fin 0
   | (_, Fin b) \<Rightarrow> inf_of (f64_sign x * (if b = 0 then 1 else sgn b))
   | _ \<Rightarrow> NaN)"

text \<open>Comparisons are false on \<open>NaN\<close>.\<close>

fun f64_less :: "f64 \<Rightarrow> f64 \<Rightarrow> bool" where
  "f64_less (Fin a) (Fin b) \<longleftrightarrow> a < b"
| "f64_less NegInf (Fin b) \<longleftrightarrow> True" | "f64_less NegInf PosInf \<longleftrightarrow> True"
| "f64_less (Fin a) PosInf \<longleftrightarrow> True"
| "f64_less _ _ \<longleftrightarrow> False"

definition f64_eq :: "f64 \<Rightarrow> f64 \<Rightarrow> bool" where
  "f64_eq x y \<longleftrightarrow> x \<noteq> NaN \<and> x = y"

definition f64_le :: "f64 \<Rightarrow> f64 \<Rightarrow> bool" where
  "f64_le x y \<longleftrightarrow> f64_less x y \<or> f64_eq x y"

definition f64_is_nan :: "f64 \<Rightarrow> bool" where "f64_is_nan x \<longleftrightarrow> x = NaN"

definition f64_is_finite :: "f64 \<Rightarrow> bool" where "f64_is_finite x \<longleftrightarrow> (case x of Fin _ \<Rightarrow> True | _ \<Rightarrow> False)"

text \<open>\<^verbatim>\<open>f64::clamp\<close>, \<^verbatim>\<open>f64::max\<close> and \<^verbatim>\<open>f64::min\<close>; the latter two ignore \<open>NaN\<close>.\<close>

definition f64_clamp :: "f64 \<Rightarrow> f64 \<Rightarrow> f64 \<Rightarrow> f64" where
  "f64_clamp x lo hi = (let y = (if f64_less x lo then lo else x) in if f64_less hi y then hi else y)"

definition f64_max :: "f64 \<Rightarrow> f64 \<Rightarrow> f64" where
  "f64_max x y = (if x = NaN then y else if y = NaN then x else if f64_less x y then y else x)"

definition f64_min :: "f64 \<Rightarrow> f64 \<Rightarrow> f64" where
  "f64_min x y = (if x = NaN then y else if y = NaN then x else if f64_less y x then y else x)"

text \<open>A cast to \<^verbatim>\<open>u128\<close> drops the fraction and saturates.\<close>

definition f64_to_u128 :: "f64 \<Rightarrow> u128" where
  "f64_to_u128 x = (case x of
     NaN \<Rightarrow> 0 | NegInf \<Rightarrow> 0 | PosInf \<Rightarrow> - 1
   | Fin a \<Rightarrow> if a \<le> 0 then 0 else if 2 ^ 128 \<le> \<lfloor>a\<rfloor> then - 1 else word_of_int \<lfloor>a\<rfloor>)"

section \<open>The exponent\<close>

lemma ilog2_bounds: "0 < n \<Longrightarrow> 2 ^ ilog2 n \<le> n \<and> n < 2 ^ Suc (ilog2 n)"
proof (induction n rule: ilog2.induct)
  case (1 n)
  show ?case
  proof (cases "n < 2")
    case True
    with 1 show ?thesis by (subst (1 2) ilog2.simps) simp
  next
    case False
    with 1 have "2 ^ ilog2 (n div 2) \<le> n div 2 \<and> n div 2 < 2 ^ Suc (ilog2 (n div 2))" by simp
    then show ?thesis using False by (subst (1 2) ilog2.simps) auto
  qed
qed

lemma pow2_pos [simp]: "0 < pow2 k" "pow2 k \<noteq> 0" "0 \<le> pow2 k"
  by (simp_all add: pow2_def)

lemma pow2_add: "pow2 (a + b) = pow2 a * pow2 b"
proof -
  have "pow2 k = 2 powi k" for k by (simp add: pow2_def power_int_def divide_simps)
  then show ?thesis by (simp add: power_int_add)
qed

lemma pow2_of_nat: "pow2 (int n) = 2 ^ n"
  by (simp add: pow2_def)

lemma pow2_diff: "pow2 (int a - int b) = 2 ^ a / 2 ^ b"
proof -
  have "pow2 (int a - int b) * pow2 (int b) = pow2 (int a)" by (simp flip: pow2_add)
  then show ?thesis by (simp add: pow2_of_nat divide_simps)
qed

lemma pow2_mono: "a \<le> b \<Longrightarrow> pow2 a \<le> pow2 b"
proof -
  assume "a \<le> b"
  then have "pow2 b = pow2 a * 2 ^ nat (b - a)" using pow2_add [of a "b - a"] by (simp add: pow2_def)
  also have "pow2 a * 1 \<le> pow2 a * 2 ^ nat (b - a)" by (intro mult_left_mono) simp_all
  finally show ?thesis by simp
qed

lemma binade_bounds:
  assumes "0 < x"
  shows "pow2 (binade x) \<le> x \<and> x < pow2 (binade x + 1)"
proof -
  obtain n d where nd: "quotient_of x = (n, d)" by (cases "quotient_of x")
  have d: "0 < d" using quotient_of_denom_pos [OF nd] .
  have x: "x = of_int n / of_int d" using quotient_of_div [OF nd] .
  have n: "0 < n" using assms d by (simp add: x zero_less_divide_iff)
  define a b where "a = ilog2 n" and "b = ilog2 d"
  have *: "2 ^ a \<le> n" "n < 2 ^ Suc a" "2 ^ b \<le> d" "d < 2 ^ Suc b"
    using ilog2_bounds [OF n] ilog2_bounds [OF d] unfolding a_def b_def by blast+
  have A: "(2 ^ a :: rat) \<le> of_int n" "of_int n < (2 ^ Suc a :: rat)"
    "(2 ^ b :: rat) \<le> of_int d" "of_int d < (2 ^ Suc b :: rat)"
    using * by (metis of_int_le_iff of_int_less_iff of_int_numeral of_int_power)+
  have hi: "x < pow2 (int a - int b + 1)"
  proof -
    have "x \<le> of_int n / 2 ^ b" unfolding x using A n d by (intro divide_left_mono) auto
    also have "\<dots> < 2 ^ Suc a / 2 ^ b" using A by (intro divide_strict_right_mono) auto
    also have "\<dots> = pow2 (int (Suc a) - int b)" by (simp only: pow2_diff)
    finally show ?thesis by (simp add: algebra_simps)
  qed
  have lo: "pow2 (int a - int b - 1) \<le> x"
  proof -
    have "pow2 (int a - int b - 1) = pow2 (int a - int (Suc b))" by (simp add: algebra_simps)
    also have "\<dots> = 2 ^ a / 2 ^ Suc b" by (simp only: pow2_diff)
    also have "\<dots> \<le> of_int n / 2 ^ Suc b" using A by (intro divide_right_mono) auto
    also have "\<dots> \<le> x" unfolding x using A n d by (intro divide_left_mono) auto
    finally show ?thesis .
  qed
  have "binade x = (if x < pow2 (int a - int b) then int a - int b - 1 else int a - int b)"
    by (simp add: binade_def nd a_def b_def Let_def)
  then show ?thesis using hi lo by (auto split: if_splits)
qed

section \<open>Rounding is monotone and exact on representable numbers\<close>

lemma round_half_even_cases:
  obtains "round_half_even x = \<lfloor>x\<rfloor>" "x - of_int \<lfloor>x\<rfloor> \<le> 1 / 2"
  | "round_half_even x = \<lfloor>x\<rfloor> + 1" "1 / 2 \<le> x - of_int \<lfloor>x\<rfloor>"
  by (cases "x - of_int \<lfloor>x\<rfloor> < 1 / 2"; cases "1 / 2 < x - of_int \<lfloor>x\<rfloor>"; cases "even \<lfloor>x\<rfloor>")
    (auto simp: round_half_even_def Let_def)

lemma round_half_even_of_int [simp]: "round_half_even (of_int m) = m"
  by (simp add: round_half_even_def)

lemma round_half_even_mono:
  assumes "x \<le> y"
  shows "round_half_even x \<le> round_half_even y"
proof -
  have le: "\<lfloor>x\<rfloor> \<le> \<lfloor>y\<rfloor>" using assms by (rule floor_mono)
  show ?thesis
  proof (cases "\<lfloor>x\<rfloor> = \<lfloor>y\<rfloor>")
    case True
    then show ?thesis using assms by (auto simp: round_half_even_def Let_def)
  next
    case False
    with le show ?thesis
      by (cases x rule: round_half_even_cases; cases y rule: round_half_even_cases) auto
  qed
qed

lemma round_half_even_minus: "round_half_even (- x) = - round_half_even x"
proof (cases "x = of_int \<lfloor>x\<rfloor>")
  case True
  then have "round_half_even x = \<lfloor>x\<rfloor>" by (metis round_half_even_of_int)
  moreover have "round_half_even (- x) = - \<lfloor>x\<rfloor>" using True by (metis of_int_minus round_half_even_of_int)
  ultimately show ?thesis by simp
next
  case False
  then have "\<lceil>x\<rceil> = \<lfloor>x\<rfloor> + 1" by (metis ceiling_altdef)
  then have "\<lfloor>- x\<rfloor> = - \<lfloor>x\<rfloor> - 1" by (simp add: floor_minus)
  then show ?thesis by (auto simp: round_half_even_def Let_def)
qed

text \<open>Rounding to multiples of a power of two.\<close>

definition round_at :: "int \<Rightarrow> rat \<Rightarrow> rat" where
  "round_at q x = of_int (round_half_even (x / pow2 q)) * pow2 q"

lemma round_at_mono: "x \<le> y \<Longrightarrow> round_at q x \<le> round_at q y"
  unfolding round_at_def by (intro mult_right_mono) (simp_all add: round_half_even_mono divide_right_mono)

lemma round_at_minus: "round_at q (- x) = - round_at q x"
  using round_half_even_minus [of "x / pow2 q"] by (simp add: round_at_def)

lemma round_at_multiple: "q \<le> k \<Longrightarrow> round_at q (of_int m * pow2 k) = of_int m * pow2 k"
proof -
  assume "q \<le> k"
  then have k: "pow2 k = of_int (2 ^ nat (k - q)) * pow2 q"
    using pow2_add [of "k - q" q] by (simp add: pow2_def)
  have "of_int m * pow2 k / pow2 q = of_int (m * 2 ^ nat (k - q))" by (simp add: k)
  then show ?thesis unfolding round_at_def by (simp only: round_half_even_of_int) (simp add: k)
qed

lemma round_to_f64_eq: "round_to_f64 x = round_at (quantum x) x"
  by (simp add: round_to_f64_def round_at_def round_half_even_def)

lemma quantum_minus [simp]: "quantum (- x) = quantum x"
  by (simp add: quantum_def)

lemma round_to_f64_minus: "round_to_f64 (- x) = - round_to_f64 x"
  by (simp add: round_to_f64_eq round_at_minus)

lemma round_to_f64_pow2:
  "quantum x \<le> k \<Longrightarrow> x \<le> pow2 k \<Longrightarrow> round_to_f64 x \<le> pow2 k"
  "quantum x \<le> k \<Longrightarrow> pow2 k \<le> x \<Longrightarrow> pow2 k \<le> round_to_f64 x"
  using round_at_mono [of x "pow2 k" "quantum x"] round_at_mono [of "pow2 k" x "quantum x"]
    round_at_multiple [of "quantum x" k 1]
  by (simp_all add: round_to_f64_eq)

lemma pow2_less_iff: "pow2 a < pow2 b \<longleftrightarrow> a < b"
proof
  show "a < b" if "pow2 a < pow2 b" using that pow2_mono [of b a] by (cases "a < b") auto
  show "pow2 a < pow2 b" if "a < b"
  proof -
    have "pow2 a < pow2 a * 2" by simp
    also have "\<dots> = pow2 (a + 1)" by (simp add: pow2_add) (simp add: pow2_def)
    also have "\<dots> \<le> pow2 b" using that by (intro pow2_mono) simp
    finally show ?thesis .
  qed
qed

lemma binade_mono: "0 < x \<Longrightarrow> x \<le> y \<Longrightarrow> binade x \<le> binade y"
proof -
  assume "0 < x" "x \<le> y"
  then have "pow2 (binade x) < pow2 (binade y + 1)"
    using binade_bounds [of x] binade_bounds [of y] by linarith
  then show ?thesis by (simp add: pow2_less_iff)
qed

text \<open>Between two numbers of different spacing there is a power of two that both roundings
  respect.\<close>

lemma round_to_f64_mono_pos:
  assumes "\<bar>x\<bar> \<le> y"
  shows "round_to_f64 x \<le> round_to_f64 y"
proof (cases "x = 0 \<or> y = 0 \<or> quantum x = quantum y")
  case True
  moreover have "round_at q 0 = 0" for q by (simp add: round_at_def round_half_even_def)
  moreover have "0 \<le> y" using assms by linarith
  ultimately show ?thesis using assms round_at_mono [of x y "quantum x"] round_at_mono [of 0 y "quantum y"]
    by (auto simp: round_to_f64_eq)
next
  case False
  have y: "0 < y" using assms False by linarith
  have mono: "binade \<bar>x\<bar> \<le> binade y" using assms False by (intro binade_mono) auto
  then have q: "quantum x < quantum y" using False y by (auto simp: quantum_def)
  then have e: "quantum y = binade y - 52" "binade \<bar>x\<bar> < binade y" using y mono by (auto simp: quantum_def)
  have "\<bar>x\<bar> < pow2 (binade \<bar>x\<bar> + 1)" using binade_bounds [of "\<bar>x\<bar>"] False by simp
  also have "\<dots> \<le> pow2 (binade y)" using e by (intro pow2_mono) simp
  finally have "x \<le> pow2 (binade y)" by linarith
  then have "round_to_f64 x \<le> pow2 (binade y)" using q e by (intro round_to_f64_pow2(1)) auto
  also have "\<dots> \<le> round_to_f64 y"
    using binade_bounds [OF y] e by (intro round_to_f64_pow2(2)) auto
  finally show ?thesis .
qed

lemma round_to_f64_mono: "x \<le> y \<Longrightarrow> round_to_f64 x \<le> round_to_f64 y"
proof (cases "\<bar>x\<bar> \<le> y")
  case False
  assume "x \<le> y"
  with False have "\<bar>- y\<bar> \<le> - x" by linarith
  from round_to_f64_mono_pos [OF this] show ?thesis by (simp add: round_to_f64_minus)
qed (rule round_to_f64_mono_pos)

definition representable :: "rat \<Rightarrow> bool" where
  "representable x \<longleftrightarrow> (\<exists>m k. \<bar>m\<bar> < 2 ^ 53 \<and> - 1074 \<le> k \<and> x = of_int m * pow2 k)"

lemma round_representable:
  assumes "representable x"
  shows "round_to_f64 x = x"
proof (cases "x = 0")
  case True
  then show ?thesis by (simp add: round_to_f64_def)
next
  case False
  from assms obtain m k where m: "\<bar>m\<bar> < 2 ^ 53" and k: "- 1074 \<le> k" and x: "x = of_int m * pow2 k"
    by (auto simp: representable_def)
  have "\<bar>x\<bar> = of_int \<bar>m\<bar> * pow2 k" by (simp add: x abs_mult)
  also have "\<dots> < of_int (2 ^ 53) * pow2 k" using m by (intro mult_strict_right_mono) (simp_all only: of_int_less_iff pow2_pos)
  also have "\<dots> = pow2 (53 + k)" by (simp add: pow2_add) (simp add: pow2_def)
  finally have "pow2 (binade \<bar>x\<bar>) < pow2 (53 + k)" using binade_bounds [of "\<bar>x\<bar>"] False by simp
  then have "quantum x \<le> k" using k by (simp add: pow2_less_iff quantum_def)
  then show ?thesis unfolding round_to_f64_eq by (simp add: x round_at_multiple)
qed

lemma representable_of_int: "\<bar>m\<bar> < 2 ^ 53 \<Longrightarrow> representable (of_int m)"
  unfolding representable_def by (intro exI [of _ m] exI [of _ 0]) (simp add: pow2_def)

lemma f64_of_finite:
  assumes "\<bar>round_to_f64 x\<bar> < pow2 1024"
  shows "f64_of x = Fin (round_to_f64 x)"
proof (cases "round_to_f64 x = 0")
  case True
  moreover have "binade 0 = - 1" by code_simp
  ultimately show ?thesis by (simp add: f64_of_def)
next
  case False
  then have "pow2 (binade \<bar>round_to_f64 x\<bar>) < pow2 1024"
    using binade_bounds [of "\<bar>round_to_f64 x\<bar>"] assms by simp
  then show ?thesis by (simp add: f64_of_def pow2_less_iff)
qed

end
