(* ===== verification/Slippage.thy ===== *)
theory Slippage
  imports Float64 Effects
begin

text \<open>
  \<^verbatim>\<open>trade/src/slippage.rs\<close>: the minimum output of a swap from the estimated output and the
  return the trade was decided on; and the policy \<^verbatim>\<open>buy_policy\<close> of \<^verbatim>\<open>execution.rs\<close>
  for a token that is bought.
\<close>

section \<open>Operations\<close>

definition MIN_SLIPPAGE_BUDGET :: f64 where "MIN_SLIPPAGE_BUDGET = f64_of (5 / 1000)"

definition MAX_SLIPPAGE_BUDGET :: f64 where "MAX_SLIPPAGE_BUDGET = f64_of (15 / 100)"

datatype expected_return = ExpectedReturn (as_ratio: f64)

datatype slippage_policy = FromExpectedReturn expected_return | Unprotected

definition calculate_min_out :: "u128 \<Rightarrow> slippage_policy \<Rightarrow> error + u128" where
  "calculate_min_out estimated_output policy = (case policy of
     Unprotected \<Rightarrow> Inr 0
   | FromExpectedReturn expected \<Rightarrow>
       (let budget = f64_clamp (f64_abs (as_ratio expected)) MIN_SLIPPAGE_BUDGET MAX_SLIPPAGE_BUDGET;
            slippage_bps = f64_to_u128 (f64_mul budget (f64_of 10000));
            protection_bps = saturating_sub 10000 slippage_bps
        in ok_or (map_option (\<lambda>v. v div 10000) (checked_mul estimated_output protection_bps))
             (Msg ''min_out overflow'' [])))"

definition buy_policy :: "token_out_account \<Rightarrow> (token_out_account, f64) btree_map \<Rightarrow> slippage_policy" where
  "buy_policy token expected_returns = (case map_of expected_returns token of
     Some r \<Rightarrow> FromExpectedReturn (ExpectedReturn r)
   | None \<Rightarrow> Unprotected)"

section \<open>The protection\<close>

text \<open>The share of the estimate that is demanded, in ten thousandths.\<close>

definition protection :: "f64 \<Rightarrow> nat" where
  "protection r = 10000 - unat (f64_to_u128 (f64_mul
     (f64_clamp (f64_abs r) MIN_SLIPPAGE_BUDGET MAX_SLIPPAGE_BUDGET) (f64_of 10000)))"

lemma budget_constants:
  "MIN_SLIPPAGE_BUDGET = Fin (fin MIN_SLIPPAGE_BUDGET)" "MAX_SLIPPAGE_BUDGET = Fin (fin MAX_SLIPPAGE_BUDGET)"
  "f64_of 10000 = Fin 10000"
  "fin MIN_SLIPPAGE_BUDGET < fin MAX_SLIPPAGE_BUDGET"
  "round_to_f64 (fin MIN_SLIPPAGE_BUDGET * 10000) = 50"
  "round_to_f64 (fin MAX_SLIPPAGE_BUDGET * 10000) = 1500"
  by code_simp+

lemma clamped_budget:
  assumes "r \<noteq> NaN"
  obtains b where "f64_clamp (f64_abs r) MIN_SLIPPAGE_BUDGET MAX_SLIPPAGE_BUDGET = Fin b"
    "fin MIN_SLIPPAGE_BUDGET \<le> b" "b \<le> fin MAX_SLIPPAGE_BUDGET"
proof -
  obtain lo hi where c: "MIN_SLIPPAGE_BUDGET = Fin lo" "MAX_SLIPPAGE_BUDGET = Fin hi" "lo < hi"
    using budget_constants(1,2,4) by metis
  have "\<exists>b. f64_clamp (f64_abs r) (Fin lo) (Fin hi) = Fin b \<and> lo \<le> b \<and> b \<le> hi"
    using assms c(3) by (cases r) (auto simp: f64_clamp_def Let_def)
  then show ?thesis using that by (auto simp: c)
qed

lemma f64_of_small:
  assumes "\<bar>round_to_f64 x\<bar> \<le> 1500"
  shows "f64_of x = Fin (round_to_f64 x)"
proof (rule f64_of_finite)
  have "(1500 :: rat) < pow2 11" by (simp add: pow2_def)
  also have "\<dots> \<le> pow2 1024" by (rule pow2_mono) simp
  finally show "\<bar>round_to_f64 x\<bar> < pow2 1024" using assms by (rule le_less_trans [rotated])
qed

lemma budget_bps:
  assumes "fin MIN_SLIPPAGE_BUDGET \<le> b" "b \<le> fin MAX_SLIPPAGE_BUDGET"
  shows "50 \<le> round_to_f64 (b * 10000)" "round_to_f64 (b * 10000) \<le> 1500"
    "f64_mul (Fin b) (f64_of 10000) = Fin (round_to_f64 (b * 10000))"
proof -
  show 1: "50 \<le> round_to_f64 (b * 10000)" "round_to_f64 (b * 10000) \<le> 1500"
    using assms budget_constants(5,6) round_to_f64_mono [of "fin MIN_SLIPPAGE_BUDGET * 10000" "b * 10000"]
      round_to_f64_mono [of "b * 10000" "fin MAX_SLIPPAGE_BUDGET * 10000"] by simp_all
  from 1 show "f64_mul (Fin b) (f64_of 10000) = Fin (round_to_f64 (b * 10000))"
    by (simp add: f64_mul_def budget_constants(3) f64_of_small)
qed

lemma unat_to_u128:
  assumes "0 < x" "x \<le> 1500"
  shows "unat (f64_to_u128 (Fin x)) = nat \<lfloor>x\<rfloor>"
proof -
  have fl: "0 \<le> \<lfloor>x\<rfloor>" "\<lfloor>x\<rfloor> \<le> 1500" using assms floor_mono [of x 1500] by simp_all
  moreover have "unat (word_of_int k :: u128) = nat k" if "0 \<le> k" "k \<le> 1500" for k :: int
    using that by (simp add: unsigned_of_int take_bit_int_eq_self)
  ultimately show ?thesis using assms by (simp add: f64_to_u128_def)
qed

lemma protection_bounds:
  assumes "r \<noteq> NaN"
  shows "8500 \<le> protection r" "protection r \<le> 9950"
proof -
  obtain b where b: "f64_clamp (f64_abs r) MIN_SLIPPAGE_BUDGET MAX_SLIPPAGE_BUDGET = Fin b"
    "fin MIN_SLIPPAGE_BUDGET \<le> b" "b \<le> fin MAX_SLIPPAGE_BUDGET"
    using clamped_budget [OF assms] .
  note bps = budget_bps [OF b(2,3)]
  have "\<lfloor>round_to_f64 (b * 10000)\<rfloor> \<le> 1500" "50 \<le> \<lfloor>round_to_f64 (b * 10000)\<rfloor>"
    using floor_mono [OF bps(1)] floor_mono [OF bps(2)] by simp_all
  moreover have "protection r = 10000 - nat \<lfloor>round_to_f64 (b * 10000)\<rfloor>"
    using bps by (simp add: protection_def b(1) unat_to_u128)
  ultimately show "8500 \<le> protection r" "protection r \<le> 9950" by linarith+
qed

lemma protection_NaN: "protection NaN = 10000"
  by (simp add: protection_def f64_clamp_def f64_mul_def f64_to_u128_def)

lemma calculate_min_out_eq:
  "calculate_min_out est (FromExpectedReturn (ExpectedReturn r)) =
    (if unat est * protection r < 2 ^ 128 then Inr (of_nat (unat est * protection r div 10000))
     else Inl (Msg ''min_out overflow'' []))"
proof -
  define b :: u128 where "b = f64_to_u128 (f64_mul
    (f64_clamp (f64_abs r) MIN_SLIPPAGE_BUDGET MAX_SLIPPAGE_BUDGET) (f64_of 10000))"
  have p: "unat (saturating_sub 10000 b) = protection r"
    by (simp add: unat_saturating_sub protection_def b_def)
  have "calculate_min_out est (FromExpectedReturn (ExpectedReturn r)) =
      ok_or (map_option (\<lambda>v. v div 10000) (checked_mul est (saturating_sub 10000 b)))
        (Msg ''min_out overflow'' [])"
    by (simp add: calculate_min_out_def Let_def b_def)
  moreover have "est * saturating_sub 10000 b div 10000 = of_nat (unat est * protection r div 10000)"
    if "unat est * protection r < 2 ^ 128"
    using that le_less_trans [OF div_le_dividend [of "unat est * protection r" 10000] that]
    by (intro word_unat_eq_iff [THEN iffD2])
      (simp add: unat_div unat_word_ariths p unat_of_nat_u128)
  ultimately show ?thesis by (simp add: checked_mul_def p ok_or_def)
qed

text \<open>
  C26. A swap protected by an expected return demands between 85 and 99.5 percent of the estimated
  output, rounded down; the whole output if the expected return is not a number. The amount
  is never silently zero: when it does not fit the result is an error. All arithmetic of the
  expected return is that of IEEE doubles.
\<close>

theorem min_out_protects:
  "\<exists>p. p \<in> (if r = NaN then {10000} else {8500..9950}) \<and>
    calculate_min_out est (FromExpectedReturn (ExpectedReturn r)) =
      (if unat est * p < 2 ^ 128 then Inr (of_nat (unat est * p div 10000))
       else Inl (Msg ''min_out overflow'' []))"
  using protection_bounds [of r] protection_NaN
  by (intro exI [of _ "protection r"] conjI calculate_min_out_eq) auto

end
