(* ===== verification/Trade_Store.thy ===== *)
theory Trade_Store
  imports Database Units
begin

text \<open>
  The tables of the trading engine (\<^verbatim>\<open>persistence/src/evaluation_period.rs\<close>,
  \<^verbatim>\<open>trade_transaction.rs\<close>, \<^verbatim>\<open>portfolio_holding.rs\<close>). Times are microseconds since
  the epoch; the identifiers \<^verbatim>\<open>Uuid::new_v4\<close> draws are arguments.
\<close>

section \<open>Evaluation periods\<close>

record evaluation_period =
  ep_id :: "32 word"
  ep_period_id :: string
  ep_start_time :: int
  ep_initial_value :: yocto_amount
  ep_selected_tokens :: "string option list option"
  ep_created_at :: int

record new_evaluation_period =
  nep_period_id :: string
  nep_start_time :: int
  nep_initial_value :: yocto_amount
  nep_selected_tokens :: "string option list option"

type_synonym 'w period_table = "('w, evaluation_period, new_evaluation_period) table"

definition tokens_column :: "string list \<Rightarrow> string option list option" where
  "tokens_column tokens = (if tokens = [] then None else Some (map Some tokens))"

definition new_period :: "string \<Rightarrow> int \<Rightarrow> yocto_amount \<Rightarrow> string list \<Rightarrow> new_evaluation_period" where
  "new_period uuid now initial_value selected_tokens =
     \<lparr>nep_period_id = ''eval_'' @ uuid, nep_start_time = now, nep_initial_value = initial_value,
      nep_selected_tokens = tokens_column selected_tokens\<rparr>"

text \<open>\<^verbatim>\<open>get_result\<close>: the first row a statement returns.\<close>

definition db_result :: "('w, 'r list) db \<Rightarrow> ('w, 'r) db" where
  "db_result m = db_bind m (\<lambda>rows. case rows of
     [] \<Rightarrow> db_fail (Db_Error ''NotFound'') | r # _ \<Rightarrow> db_return r)"

definition period_insert :: "'w period_table \<Rightarrow> new_evaluation_period \<Rightarrow> ('w, evaluation_period) db" where
  "period_insert T p = db_result (db_call (t_insert T [p]))"

definition period_get_latest :: "'w period_table \<Rightarrow> ('w, evaluation_period option) db" where
  "period_get_latest T = db_first T (\<lambda>_. True) (desc ep_start_time)"

definition get_by_period_id :: "'w period_table \<Rightarrow> string \<Rightarrow> ('w, evaluation_period option) db" where
  "get_by_period_id T period_id = db_first T (\<lambda>p. ep_period_id p = period_id) unordered"

definition period_get_all :: "'w period_table \<Rightarrow> ('w, evaluation_period list) db" where
  "period_get_all T = db_load T (\<lambda>_. True) (desc ep_start_time)"

text \<open>\<^verbatim>\<open>LIMIT\<close> and \<^verbatim>\<open>OFFSET\<close>; a negative number is an error of the database.\<close>

definition get_paginated :: "'w period_table \<Rightarrow> 64 word \<Rightarrow> 64 word \<Rightarrow> ('w, evaluation_period list) db" where
  "get_paginated T page page_size =
     (let skip = sint (page * page_size); count = sint page_size in
      if skip < 0 \<or> count < 0 then db_fail (Db_Error ''LIMIT and OFFSET must not be negative'')
      else db_bind (db_load T (\<lambda>_. True) (desc ep_start_time))
        (\<lambda>rows. db_return (take (nat count) (drop (nat skip) rows))))"

definition period_count_all :: "'w period_table \<Rightarrow> ('w, nat) db" where
  "period_count_all T = db_bind (db_load T (\<lambda>_. True) unordered) (\<lambda>rows. db_return (length rows))"

definition update_selected_tokens :: "'w period_table \<Rightarrow> string \<Rightarrow> string list \<Rightarrow> ('w, evaluation_period) db" where
  "update_selected_tokens T period_id tokens =
     db_result (db_call (t_update T (\<lambda>p. ep_period_id p = period_id)
       (\<lambda>p. p\<lparr>ep_selected_tokens := tokens_column tokens\<rparr>)))"

definition PERIOD_MIN_RETENTION_DAYS :: u32 where "PERIOD_MIN_RETENTION_DAYS = 30"

definition period_cleanup_old_records :: "'w period_table \<Rightarrow> ('w \<Rightarrow> int) \<Rightarrow> u32 \<Rightarrow> ('w, unit) db" where
  "period_cleanup_old_records T clock retention_days w =
     (if retention_days = 0 then db_return () w
      else let effective_days = max retention_days PERIOD_MIN_RETENTION_DAYS;
               cutoff = clock w - days_us effective_days
           in db_bind (db_call (t_delete T (\<lambda>p. ep_created_at p < cutoff))) (\<lambda>_. db_return ()) w)"

section \<open>Transactions\<close>

record trade_transaction =
  tt_tx_id :: string
  tt_trade_batch_id :: string
  tt_from_token :: string
  tt_from_amount :: token_smallest_units
  tt_to_token :: string
  tt_to_amount :: token_smallest_units
  tt_timestamp :: int
  tt_evaluation_period_id :: string
  tt_actual_to_amount :: "rat option"

type_synonym 'w trade_table = "('w, trade_transaction, trade_transaction) table"

definition trade_insert :: "'w trade_table \<Rightarrow> trade_transaction \<Rightarrow> ('w, trade_transaction) db" where
  "trade_insert T t = db_result (db_call (t_insert T [t]))"

definition insert_batch :: "'w trade_table \<Rightarrow> trade_transaction list \<Rightarrow> ('w, trade_transaction list) db" where
  "insert_batch T ts = db_call (t_insert T ts)"

definition find_by_batch_id :: "'w trade_table \<Rightarrow> string \<Rightarrow> ('w, trade_transaction list) db" where
  "find_by_batch_id T batch_id = db_load T (\<lambda>t. tt_trade_batch_id t = batch_id) (asc tt_timestamp)"

definition find_by_tx_id :: "'w trade_table \<Rightarrow> string \<Rightarrow> ('w, trade_transaction option) db" where
  "find_by_tx_id T tx_id = db_first T (\<lambda>t. tt_tx_id t = tx_id) unordered"

definition get_latest_batch_id :: "'w trade_table \<Rightarrow> ('w, string option) db" where
  "get_latest_batch_id T = db_bind (db_first T (\<lambda>_. True) (desc tt_timestamp))
     (\<lambda>r. db_return (map_option tt_trade_batch_id r))"

definition delete_by_tx_id :: "'w trade_table \<Rightarrow> string \<Rightarrow> ('w, unit) db" where
  "delete_by_tx_id T tx_id = db_bind (db_call (t_delete T (\<lambda>t. tt_tx_id t = tx_id))) (\<lambda>_. db_return ())"

definition count_by_evaluation_period :: "'w trade_table \<Rightarrow> string \<Rightarrow> ('w, nat) db" where
  "count_by_evaluation_period T period_id =
     db_bind (db_load T (\<lambda>t. tt_evaluation_period_id t = period_id) unordered) (\<lambda>rows. db_return (length rows))"

definition find_by_date_range :: "'w trade_table \<Rightarrow> int \<Rightarrow> int \<Rightarrow> ('w, trade_transaction list) db" where
  "find_by_date_range T start end' =
     db_load T (\<lambda>t. start \<le> tt_timestamp t \<and> tt_timestamp t \<le> end') (asc tt_timestamp)"

section \<open>Holdings\<close>

record token_holding =
  th_token :: token_account
  th_balance :: token_smallest_units
  th_decimals :: "8 word"

record 'j db_portfolio_holding =
  ph_id :: "32 word"
  ph_evaluation_period_id :: string
  ph_timestamp :: int
  ph_token_holdings :: 'j
  ph_created_at :: int

record 'j new_portfolio_holding =
  nph_evaluation_period_id :: string
  nph_timestamp :: int
  nph_token_holdings :: 'j

type_synonym ('w, 'j) holding_table = "('w, 'j db_portfolio_holding, 'j new_portfolio_holding) table"

text \<open>The column is JSON; its serialisation is that of \<^verbatim>\<open>serde_json\<close>.\<close>

record 'j holding_codec =
  ser_holdings :: "token_holding list \<Rightarrow> 'j option"
  de_holdings :: "'j \<Rightarrow> token_holding list option"

definition holding_codec_spec :: "'j holding_codec \<Rightarrow> bool" where
  "holding_codec_spec J \<longleftrightarrow> (\<forall>hs. \<exists>j. ser_holdings J hs = Some j \<and> de_holdings J j = Some hs)"

definition parse_holdings :: "'j holding_codec \<Rightarrow> 'j db_portfolio_holding \<Rightarrow> error + token_holding list" where
  "parse_holdings J h = ok_or (de_holdings J (ph_token_holdings h)) Decode_Error"

definition holding_insert :: "('w, 'j) holding_table \<Rightarrow> 'j new_portfolio_holding \<Rightarrow> ('w, unit) db" where
  "holding_insert T h = db_bind (db_call (t_insert T [h])) (\<lambda>_. db_return ())"

definition get_by_period :: "('w, 'j) holding_table \<Rightarrow> string \<Rightarrow> ('w, 'j db_portfolio_holding list) db" where
  "get_by_period T period_id = db_load T (\<lambda>h. ph_evaluation_period_id h = period_id) (desc ph_timestamp)"

definition get_latest_for_period :: "('w, 'j) holding_table \<Rightarrow> string \<Rightarrow>
    ('w, 'j db_portfolio_holding option) db" where
  "get_latest_for_period T period_id = db_first T (\<lambda>h. ph_evaluation_period_id h = period_id) (desc ph_timestamp)"

section \<open>Retention of periods\<close>

interpretation period_retention: retention period_cleanup_old_records ep_created_at PERIOD_MIN_RETENTION_DAYS
  by unfold_locales (simp_all add: period_cleanup_old_records_def Let_def)

end
