(* ===== verification/Token_Cache.thy ===== *)
theory Token_Cache
  imports Rate_Store Config Float64 Traces
begin

text \<open>
  \<^verbatim>\<open>trade/src/token_cache.rs\<close> and the token metadata of \<^verbatim>\<open>trade/src/market_data.rs\<close>:
  the number of decimals of a token, from the cache or from the contract of the token, and the
  exponential backoff after failures. The calls \<^verbatim>\<open>ensure_decimals_cached\<close> has in flight at the
  same time are served in an order that is an argument; its bound on their number is taken to
  be positive.
\<close>

section \<open>Metadata\<close>

text \<open>A JSON value, as far as the field \<^verbatim>\<open>decimals\<close> distinguishes it; the numbers are those of
  \<^verbatim>\<open>serde_json\<close>.\<close>

datatype json_number = PosInt u64 | NegInt int | Float f64

datatype decimals_value = Number json_number | Not_A_Number

definition f64_to_u8 :: "f64 \<Rightarrow> 8 word" where
  "f64_to_u8 x = (case x of
     NaN \<Rightarrow> 0 | NegInf \<Rightarrow> 0 | PosInf \<Rightarrow> - 1
   | Fin a \<Rightarrow> if a \<le> 0 then 0 else if 255 \<le> a then - 1 else word_of_int \<lfloor>a\<rfloor>)"

definition whole_in_range :: "f64 \<Rightarrow> bool" where
  "whole_in_range f = (case f of Fin a \<Rightarrow> of_int \<lfloor>a\<rfloor> = a \<and> 0 \<le> a \<and> a \<le> 255 | _ \<Rightarrow> False)"

definition deserialize_decimals :: "decimals_value \<Rightarrow> 8 word option" where
  "deserialize_decimals v = (case v of
     Number (PosInt u) \<Rightarrow> if unat u < 256 then Some (ucast u) else None
   | Number (Float f) \<Rightarrow> if whole_in_range f then Some (f64_to_u8 f) else None
   | Number (NegInt i) \<Rightarrow> (let f = f64_of (of_int i) in
       if whole_in_range f then Some (f64_to_u8 f) else None)
   | Not_A_Number \<Rightarrow> None)"

record token_metadata =
  meta_spec :: string
  meta_name :: string
  meta_symbol :: string
  meta_decimals :: "8 word"
  meta_icon :: "string option"
  meta_reference :: "string option"
  meta_reference_hash :: "string option"

text \<open>Parsing the fields is \<^verbatim>\<open>serde_json\<close>'s: the value of \<^verbatim>\<open>decimals\<close> and the record but for it.\<close>

type_synonym metadata_parser = "string \<Rightarrow> (decimals_value \<times> (8 word \<Rightarrow> token_metadata)) option"

definition get_token_metadata :: "metadata_parser \<Rightarrow> 'w client \<Rightarrow> token_account \<Rightarrow> ('w, token_metadata) io" where
  "get_token_metadata parse c token_id =
     io_bind (view_contract c (as_account_id token_id) ''ft_metadata'' (JObj [])) (\<lambda>bytes.
     io_option Decode_Error (Option.bind (parse bytes) (\<lambda>(v, meta).
       map_option meta (deserialize_decimals v))))"

definition get_token_decimals :: "metadata_parser \<Rightarrow> 'w client \<Rightarrow> token_account \<Rightarrow> ('w, 8 word) io" where
  "get_token_decimals parse c token_id =
     io_bind (get_token_metadata parse c token_id) (\<lambda>m. io_return (meta_decimals m))"

section \<open>The cache\<close>

definition io_cache :: "('w, token_account \<rightharpoonup> 8 word) io" where
  "io_cache s = (Ok (decimals_cache s), s)"

definition io_failures :: "('w, token_account \<rightharpoonup> failure_record) io" where
  "io_failures s = (Ok (decimals_failures s), s)"

definition io_set_cache :: "(token_account \<rightharpoonup> 8 word) \<Rightarrow> ('w, unit) io" where
  "io_set_cache m s = (Ok (), s\<lparr>decimals_cache := m\<rparr>)"

definition io_set_failures :: "(token_account \<rightharpoonup> failure_record) \<Rightarrow> ('w, unit) io" where
  "io_set_failures m s = (Ok (), s\<lparr>decimals_failures := m\<rparr>)"

text \<open>\<^verbatim>\<open>Utc::now()\<close>, in microseconds.\<close>

definition io_utc :: "('w \<Rightarrow> int) \<Rightarrow> ('w, int) io" where
  "io_utc clock s = (Ok (clock (world s)), s)"

text \<open>\<^verbatim>\<open>TimeDelta::minutes\<close> panics on more than the largest number of milliseconds.\<close>

definition time_delta_minutes :: "int \<Rightarrow> int option" where
  "time_delta_minutes m = (if \<bar>m\<bar> * 60 \<le> 9223372036854775 then Some (m * 60000000) else None)"

definition backoff_minutes :: "u32 \<Rightarrow> u64 \<Rightarrow> u64 \<Rightarrow> u64" where
  "backoff_minutes failed base_minutes max_backoff_minutes =
     min (saturating_mul base_minutes (2 ^ unat (min failed 8))) max_backoff_minutes"

definition should_retry :: "failure_record \<Rightarrow> int \<Rightarrow> u64 \<Rightarrow> u64 \<Rightarrow> bool option" where
  "should_retry rec now base_minutes max_backoff_minutes =
     map_option (\<lambda>delta. delta \<le> now - last_failure rec)
       (time_delta_minutes (sint (backoff_minutes (failure_count rec) base_minutes max_backoff_minutes)))"

definition load_from_db :: "'j rate_codec \<Rightarrow> ('w, 'j) rate_table \<Rightarrow> ('w, unit) io" where
  "load_from_db J T = io_bind (io_db (get_all_decimals J T)) io_set_cache"

definition get_cached_decimals :: "'w sys \<Rightarrow> token_account \<Rightarrow> 8 word option" where
  "get_cached_decimals s token_id = decimals_cache s token_id"

definition get_token_decimals_cached :: "metadata_parser \<Rightarrow> 'w client \<Rightarrow> token_account \<Rightarrow> ('w, 8 word) io" where
  "get_token_decimals_cached parse c token_id =
     io_bind io_cache (\<lambda>cache. case cache token_id of
       Some decimals \<Rightarrow> io_return decimals
     | None \<Rightarrow> io_bind (get_token_decimals parse c token_id) (\<lambda>decimals.
         io_bind io_cache (\<lambda>cache. io_bind (io_set_cache (cache(token_id \<mapsto> decimals))) (\<lambda>_.
         io_return decimals))))"

fun retain_due :: "(token_account \<rightharpoonup> failure_record) \<Rightarrow> int \<Rightarrow> u64 \<Rightarrow> u64 \<Rightarrow> token_account list \<Rightarrow>
    token_account list option" where
  "retain_due failures now base_minutes max_backoff [] = Some []"
| "retain_due failures now base_minutes max_backoff (t # ts) =
     Option.bind (case failures t of
         Some rec \<Rightarrow> should_retry rec now base_minutes max_backoff | None \<Rightarrow> Some True) (\<lambda>keep.
       map_option (\<lambda>ts'. if keep then t # ts' else ts')
         (retain_due failures now base_minutes max_backoff ts))"

definition note_failure :: "int \<Rightarrow> token_account \<Rightarrow> (token_account \<rightharpoonup> failure_record) \<Rightarrow>
    (token_account \<rightharpoonup> failure_record)" where
  "note_failure now t failures =
     (let rec = (case failures t of Some rec \<Rightarrow> rec | None \<Rightarrow> \<lparr>failure_count = 0, last_failure = now\<rparr>)
      in failures(t \<mapsto> \<lparr>failure_count = failure_count rec + 1, last_failure = now\<rparr>))"

fun update_caches :: "int \<Rightarrow> (token_account \<times> (error + 8 word)) list \<Rightarrow> (token_account \<rightharpoonup> 8 word) \<Rightarrow>
    (token_account \<rightharpoonup> failure_record) \<Rightarrow> (token_account \<rightharpoonup> 8 word) \<times> (token_account \<rightharpoonup> failure_record)" where
  "update_caches now [] cache failures = (cache, failures)"
| "update_caches now ((t, Inr d) # fetched) cache failures =
     update_caches now fetched (cache(t \<mapsto> d)) (failures(t := None))"
| "update_caches now ((t, Inl e) # fetched) cache failures =
     update_caches now fetched cache (note_failure now t failures)"

fun insert_fetched :: "(token_account \<times> (error + 8 word)) list \<Rightarrow> (token_account \<rightharpoonup> 8 word) \<Rightarrow>
    (token_account \<rightharpoonup> 8 word)" where
  "insert_fetched [] m = m"
| "insert_fetched ((t, Inr d) # fetched) m = insert_fetched fetched (m(t \<mapsto> d))"
| "insert_fetched ((t, Inl e) # fetched) m = insert_fetched fetched m"

definition fetch_decimals :: "metadata_parser \<Rightarrow> 'w client \<Rightarrow> token_account list \<Rightarrow>
    ('w, (token_account \<times> (error + 8 word)) list) io" where
  "fetch_decimals parse c tokens =
     io_mapM (\<lambda>t. io_bind (io_try (get_token_decimals parse c t)) (\<lambda>r. io_return (t, r))) tokens"

definition ensure_decimals_cached :: "metadata_parser \<Rightarrow> ('w \<Rightarrow> int) \<Rightarrow>
    (token_account list \<Rightarrow> token_account list) \<Rightarrow> 'w client \<Rightarrow> token_account list \<Rightarrow> config_stores \<Rightarrow>
    ('w, token_account \<rightharpoonup> 8 word) io" where
  "ensure_decimals_cached parse clock served c ids cfg =
     io_bind io_cache (\<lambda>cache.
     let result = (\<lambda>t. if t \<in> set ids then cache t else None);
         missing = filter (\<lambda>t. cache t = None) ids
     in if missing = [] then io_return result
     else io_bind (io_utc clock) (\<lambda>now.
     io_bind io_failures (\<lambda>failures.
     io_bind (io_expect ''TimeDelta::minutes out of bounds'' (retain_due failures now
       (trade_token_cache_backoff_base_minutes cfg) (trade_token_cache_max_backoff_minutes cfg) missing)) (\<lambda>due.
     if due = [] then io_return result
     else io_bind (fetch_decimals parse c (served due)) (\<lambda>fetched.
     io_bind io_cache (\<lambda>cache. io_bind io_failures (\<lambda>failures.
     case update_caches now fetched cache failures of (cache', failures') \<Rightarrow>
     io_bind (io_set_cache cache') (\<lambda>_. io_bind (io_set_failures failures') (\<lambda>_.
     io_return (insert_fetched fetched result))))))))))"

definition cleanup_stale_failures :: "token_account list \<Rightarrow> ('w, unit) io" where
  "cleanup_stale_failures active_token_ids =
     io_bind io_failures (\<lambda>failures. io_set_failures (failures |` set active_token_ids))"

section \<open>Traces\<close>

lemma emits_cache_ops [emits_intros]:
  "(\<And>m. Q [] (Ok m)) \<Longrightarrow> emits io_cache Q"
  "(\<And>m. Q' [] (Ok m)) \<Longrightarrow> emits io_failures Q'"
  "R [] (Ok ()) \<Longrightarrow> emits (io_set_cache m) R" "R [] (Ok ()) \<Longrightarrow> emits (io_set_failures m') R"
  "(\<And>t. T [] (Ok t)) \<Longrightarrow> emits (io_utc clock) T"
  by (auto intro!: emitsI simp: io_cache_def io_failures_def io_set_cache_def io_set_failures_def io_utc_def)

lemma emits_get_token_decimals [emits_intros]:
  assumes "\<And>b d. Q [View (as_account_id t) ''ft_metadata'' (JObj []) (Inr b)] (Ok d)"
    and "\<And>b e. Q [View (as_account_id t) ''ft_metadata'' (JObj []) b] (Err e)"
  shows "emits (get_token_decimals parse c t) Q"
  unfolding get_token_decimals_def get_token_metadata_def
  by (intro emits_intros) (auto simp: assms intro!: emits_intros)

lemma emits_get_token_decimals_cached [emits_intros]:
  assumes "\<And>d. Q [] (Ok d)"
    and "\<And>b d. Q [View (as_account_id t) ''ft_metadata'' (JObj []) (Inr b)] (Ok d)"
    and "\<And>b e. Q [View (as_account_id t) ''ft_metadata'' (JObj []) b] (Err e)"
  shows "emits (get_token_decimals_cached parse c t) Q"
  unfolding get_token_decimals_cached_def
  by (intro emits_intros) (auto simp: assms split: option.splits intro!: emits_intros)

lemma calls_only_cache [calls_only_intros]:
  "calls_only M (get_token_decimals_cached parse c t)" "calls_only M (get_token_decimals parse c t)"
  "calls_only M (io_utc clock)"
  unfolding calls_only_def by (intro emits_intros; simp)+

end
