(* ===== verification/Trade_Swap.thy ===== *)
theory Trade_Swap
  imports Arbitrage Token_Cache Trade_Store Slippage
begin

text \<open>
  The swaps of the trading engine: \<^verbatim>\<open>trade/src/recorder.rs\<close>, \<^verbatim>\<open>swap.rs\<close>,
  \<^verbatim>\<open>valuation.rs\<close> and \<^verbatim>\<open>snapshot.rs\<close>. What the engine uses beyond the arbitrage
  engine is the record \<open>trade_env\<close>: the tables of rates, periods, trades and holdings, the
  generator of identifiers and the parser of token metadata.
\<close>

section \<open>The environment\<close>

record ('w, 'f, 'j) trade_env = "('w, 'f, 'j) environment" +
  te_rate_codec :: "'j rate_codec"
  te_rates :: "('w, 'j) rate_table"
  te_periods :: "'w period_table"
  te_trades :: "'w trade_table"
  te_holding_codec :: "'j holding_codec"
  te_holdings :: "('w, 'j) holding_table"
  te_uuid :: "'w \<Rightarrow> string \<times> 'w"
  te_metadata :: metadata_parser

definition io_uuid :: "('w, 'f, 'j) trade_env \<Rightarrow> ('w, string) io" where
  "io_uuid E s = (case te_uuid E (world s) of (i, w) \<Rightarrow> (Ok i, s\<lparr>world := w\<rparr>))"

definition NEAR_TOKEN :: token_account where "NEAR_TOKEN = TokenAccount ''near''"

section \<open>Recording trades\<close>

record trade_recorder =
  tr_batch_id :: string
  tr_evaluation_period_id :: string

definition recorder_new :: "('w, 'f, 'j) trade_env \<Rightarrow> string \<Rightarrow> ('w, trade_recorder) io" where
  "recorder_new E period_id = io_bind (io_uuid E) (\<lambda>batch_id.
     io_return \<lparr>tr_batch_id = batch_id, tr_evaluation_period_id = period_id\<rparr>)"

text \<open>The slippage \<^verbatim>\<open>record_trade\<close> computes is only logged.\<close>

definition record_trade :: "('w, 'f, 'j) trade_env \<Rightarrow> trade_recorder \<Rightarrow> string \<Rightarrow> token_in_account \<Rightarrow>
    token_amount \<Rightarrow> token_out_account \<Rightarrow> token_amount \<Rightarrow> token_amount option \<Rightarrow> ('w, trade_transaction) io" where
  "record_trade E recorder tx_id from_token from_amount to_token to_amount actual_to_amount =
     io_bind (io_utc (env_clock E)) (\<lambda>now.
     io_db (trade_insert (te_trades E)
       \<lparr>tt_tx_id = tx_id, tt_trade_batch_id = tr_batch_id recorder,
        tt_from_token = as_account_id (in_inner from_token),
        tt_from_amount = ta_to_smallest_units from_amount,
        tt_to_token = as_account_id (out_inner to_token),
        tt_to_amount = ta_to_smallest_units to_amount, tt_timestamp = now,
        tt_evaluation_period_id = tr_evaluation_period_id recorder,
        tt_actual_to_amount = map_option smallest_units actual_to_amount\<rparr>))"

section \<open>Valuation\<close>

definition latest_rate :: "('w, 'f, 'j) trade_env \<Rightarrow> 'w client \<Rightarrow> token_out_account \<Rightarrow>
    ('w, exchange_rate option) io" where
  "latest_rate E c token =
     io_bind (io_db (rate_get_latest (te_rate_codec E) (te_rates E) token (to_in (WNEAR_TOKEN c)))) (\<lambda>rate.
     case rate of
       None \<Rightarrow> io_return None
     | Some r \<Rightarrow> io_bind (io_expect ''division by zero'' (to_spot_rate (env_decimal E) r))
         (\<lambda>spot. io_return (Some spot)))"

fun portfolio_value_loop :: "bigdecimal \<Rightarrow> 'w client \<Rightarrow> (token_out_account \<Rightarrow> ('w, exchange_rate option) io) \<Rightarrow>
    (token_account \<times> token_amount) list \<Rightarrow> near_value \<Rightarrow> ('w, near_value) io" where
  "portfolio_value_loop B c get_rate [] acc = io_return acc"
| "portfolio_value_loop B c get_rate ((token, amount) # holdings) acc =
     (if ta_is_zero amount then portfolio_value_loop B c get_rate holdings acc
      else if token = WNEAR_TOKEN c
      then portfolio_value_loop B c get_rate holdings (nv_add acc (ta_div_rate B amount rate_wnear))
      else io_bind (io_try (get_rate (TokenOutAccount token))) (\<lambda>r. portfolio_value_loop B c get_rate holdings
        (case r of
           Inr (Some spot) \<Rightarrow> if rate_is_effectively_zero spot then acc else nv_add acc (ta_div_rate B amount spot)
         | _ \<Rightarrow> acc)))"

definition calculate_portfolio_value :: "bigdecimal \<Rightarrow> 'w client \<Rightarrow>
    (token_account, token_amount) btree_map \<Rightarrow> (token_out_account \<Rightarrow> ('w, exchange_rate option) io) \<Rightarrow>
    ('w, near_value) io" where
  "calculate_portfolio_value B c holdings get_rate = portfolio_value_loop B c get_rate holdings nv_zero"

definition calculate_total_portfolio_value :: "('w, 'f, 'j) trade_env \<Rightarrow> 'w client \<Rightarrow>
    (token_account, token_amount) btree_map \<Rightarrow> ('w, near_value) io" where
  "calculate_total_portfolio_value E c current_balances =
     calculate_portfolio_value (env_decimal E) c current_balances (latest_rate E c)"

section \<open>Balances and snapshots\<close>

fun balances_loop :: "('w, 'f, 'j) trade_env \<Rightarrow> 'w client \<Rightarrow> (token_account, u128) btree_map \<Rightarrow>
    token_account list \<Rightarrow> (token_account, token_amount) btree_map \<Rightarrow>
    ('w, (token_account, token_amount) btree_map) io" where
  "balances_loop E c deposits [] balances = io_return balances"
| "balances_loop E c deposits (token # tokens) balances =
     (let balance = (case map_of deposits token of Some u \<Rightarrow> u | None \<Rightarrow> 0) in
      io_bind (get_token_decimals_cached (te_metadata E) c token) (\<lambda>decimals.
      balances_loop E c deposits tokens
        (btree_insert token (ta_from_smallest_units (bd_of balance) decimals) balances)))"

definition get_current_portfolio_balances :: "('w, 'f, 'j) trade_env \<Rightarrow> 'w client \<Rightarrow> wallet \<Rightarrow>
    token_account list \<Rightarrow> ('w, (token_account, token_amount) btree_map) io" where
  "get_current_portfolio_balances E c w tokens =
     io_bind (get_deposits c (w_account w)) (\<lambda>deposits. balances_loop E c deposits tokens [])"

definition ensure_wnear_included :: "'w client \<Rightarrow> token_account list \<Rightarrow> token_account list" where
  "ensure_wnear_included c tokens =
     (if WNEAR_TOKEN c \<in> set tokens then tokens else tokens @ [WNEAR_TOKEN c])"

definition balances_to_holdings :: "(token_account, token_amount) btree_map \<Rightarrow> token_holding list" where
  "balances_to_holdings balances =
     map (\<lambda>(token, amount). \<lparr>th_token = token, th_balance = ta_to_smallest_units amount,
         th_decimals = amount_decimals amount\<rparr>)
       (filter (\<lambda>(_, amount). \<not> ta_is_zero amount) balances)"

definition holdings_to_balances :: "token_holding list \<Rightarrow> (token_account, token_amount) btree_map" where
  "holdings_to_balances holdings =
     fold (\<lambda>h. btree_insert (th_token h) (tsu_with_decimals (th_balance h) (th_decimals h))) holdings []"

definition record_portfolio_holdings :: "('w, 'f, 'j) trade_env \<Rightarrow> 'w client \<Rightarrow> wallet \<Rightarrow> string \<Rightarrow>
    token_account list \<Rightarrow> int \<Rightarrow> ('w, unit) io" where
  "record_portfolio_holdings E c w period_id selected_tokens current_time =
     io_bind (get_current_portfolio_balances E c w (ensure_wnear_included c selected_tokens)) (\<lambda>balances.
     let holdings = balances_to_holdings balances in
     if holdings = [] then io_return ()
     else io_bind (io_option Decode_Error (ser_holdings (te_holding_codec E) holdings)) (\<lambda>json.
     io_db (holding_insert (te_holdings E)
       \<lparr>nph_evaluation_period_id = period_id, nph_timestamp = current_time, nph_token_holdings = json\<rparr>)))"

definition get_holdings_from_db :: "('w, 'f, 'j) trade_env \<Rightarrow> string \<Rightarrow>
    ('w, (token_account, token_amount) btree_map option) db" where
  "get_holdings_from_db E period_id =
     db_bind (get_latest_for_period (te_holdings E) period_id) (\<lambda>r. case r of
       None \<Rightarrow> db_return None
     | Some h \<Rightarrow> db_bind (db_of (parse_holdings (te_holding_codec E) h))
         (\<lambda>holdings. db_return (Some (holdings_to_balances holdings))))"

section \<open>Direct swaps\<close>

record swap_params =
  sp_from_token :: token_in_account
  sp_to_token :: token_out_account
  sp_swap_amount :: "u128 option"
  sp_recorder :: trade_recorder
  sp_policy :: slippage_policy

text \<open>The balance a swap may use: for wrapped NEAR the deposit is refilled or harvested first.\<close>

definition swap_balance :: "('w, 'f, 'j) trade_env \<Rightarrow> 'w client \<Rightarrow> wallet \<Rightarrow> token_account \<Rightarrow> u128 option \<Rightarrow>
    config_stores \<Rightarrow> ('w, u128) io" where
  "swap_balance E c w token amount cfg =
     (if token = WNEAR_TOKEN c
      then balances_start (env_decimal E) (env_account E) (stat_max HISTORY) c w token amount cfg
      else io_bind (get_deposits c (w_account w)) (\<lambda>deposits.
        io_return (case map_of deposits token of Some u \<Rightarrow> u | None \<Rightarrow> 0)))"

text \<open>The path between two tokens in the graph of the recorded pools.\<close>

definition find_swap_path :: "('w, 'f, 'j) trade_env \<Rightarrow> token_account \<Rightarrow> token_account \<Rightarrow>
    ('w, token_pair list) io" where
  "find_swap_path E from_token to_token =
     io_bind (io_db (read_from_db (env_json E) (env_pools E) (env_clock E) None)) (\<lambda>pools.
     io_bind (io_expect ''graph'' (token_graph_new (env_float E) (env_decimal E) pools)) (\<lambda>graph0.
     io_bind (io_expect ''graph'' (update_graph (env_float E) (env_dijkstra E) graph0 (TokenInAccount from_token)))
       (\<lambda>(updated, graph).
     io_bind (case updated of Inl e \<Rightarrow> io_fail (Msg ''Failed to update graph'' []) | Inr _ \<Rightarrow> io_return ()) (\<lambda>_.
     io_bind (io_graph (graph_get_path graph (TokenInAccount from_token) (TokenOutAccount to_token))) (\<lambda>path.
     io_bind (io_of (case validate_length path of Inl e \<Rightarrow> Inl (Dex_Error e) | Inr _ \<Rightarrow> Inr ())) (\<lambda>_.
     io_return path))))))"

text \<open>What is recorded of a swap once it is confirmed.\<close>

definition record_swap :: "('w, 'f, 'j) trade_env \<Rightarrow> 'w client \<Rightarrow> swap_params \<Rightarrow> string \<Rightarrow> u128 \<Rightarrow> u128 \<Rightarrow>
    final_status \<Rightarrow> ('w, unit) io" where
  "record_swap E c params sent_tx swap_amount out status =
     io_bind (get_token_decimals_cached (te_metadata E) c (in_inner (sp_from_token params))) (\<lambda>from_decimals.
     io_bind (get_token_decimals_cached (te_metadata E) c (out_inner (sp_to_token params))) (\<lambda>to_decimals.
     let actual_to_amount = (case extract_actual_output (de_u128 c) status of
            Inr actual \<Rightarrow> Some (ta_from_smallest_units (bd_of actual) to_decimals)
          | Inl _ \<Rightarrow> None)
     in io_bind (record_trade E (sp_recorder params) sent_tx
         (sp_from_token params) (ta_from_smallest_units (bd_of swap_amount) from_decimals)
         (sp_to_token params) (ta_from_smallest_units (bd_of out) to_decimals) actual_to_amount) (\<lambda>_.
     io_return ())))"

definition swap_and_record :: "('w, 'f, 'j) trade_env \<Rightarrow> 'w client \<Rightarrow> wallet \<Rightarrow> swap_params \<Rightarrow>
    token_pair list \<Rightarrow> u128 \<Rightarrow> ('w, unit) io" where
  "swap_and_record E c w params path swap_amount =
     io_bind (io_of (case calc_value (env_decimal E) path swap_amount of Inl e \<Rightarrow> Inl (Dex_Error e) | Inr v \<Rightarrow> Inr v))
       (\<lambda>estimated_output.
     io_bind (io_of (calculate_min_out estimated_output (sp_policy params))) (\<lambda>minimum.
     io_bind (run_swap (env_decimal E) c w path \<lparr>initial_in = swap_amount, min_out = minimum\<rparr>) (\<lambda>(sent_tx, out).
     io_bind (io_try (wait_for_success c sent_tx)) (\<lambda>outcome.
     case outcome of
       Inl e \<Rightarrow> io_fail (Msg ''Swap transaction failed'' [])
     | Inr status \<Rightarrow> record_swap E c params sent_tx swap_amount out status))))"

definition execute_direct_swap :: "('w, 'f, 'j) trade_env \<Rightarrow> 'w client \<Rightarrow> wallet \<Rightarrow> swap_params \<Rightarrow>
    config_stores \<Rightarrow> ('w, unit) io" where
  "execute_direct_swap E c w params cfg =
     (let from_token = in_inner (sp_from_token params); to_token = out_inner (sp_to_token params) in
      io_bind (swap_balance E c w from_token (sp_swap_amount params) cfg) (\<lambda>balance.
      if balance = 0 then io_fail (Msg ''No balance for token'' [])
      else let swap_amount = min (case sp_swap_amount params of Some a \<Rightarrow> a | None \<Rightarrow> balance) balance in
      io_bind (find_swap_path E from_token to_token) (\<lambda>path.
      io_bind (io_expect ''token of pair'' (all_tokens path)) (\<lambda>tokens.
      io_bind (ensure_ref_storage_setup c w tokens (keep_wnear_only c) (max_top_up_from_config cfg)) (\<lambda>_.
      swap_and_record E c w params path swap_amount)))))"

section \<open>Snapshots\<close>

lemma fold_btree_insert_sorted:
  assumes "sorted_wrt (<) (map fst xs)" "\<forall>y \<in> set (map fst ys). \<forall>x \<in> set (map fst xs). y < x"
  shows "fold (\<lambda>(k, v). btree_insert k v) xs ys = ys @ xs"
  using assms
proof (induction xs arbitrary: ys)
  case (Cons x xs)
  obtain k v where x: "x = (k, v)" by (cases x)
  have "btree_insert k v ys = ys @ [(k, v)]" if "\<forall>y \<in> set (map fst ys). y < k"
    using that by (induction k v ys rule: btree_insert.induct) auto
  then have "btree_insert k v ys = ys @ [x]" using Cons.prems(2) x by simp
  with Cons x show ?case by auto
qed simp

lemma holdings_round_trip:
  assumes "btree_invar balances"
  shows "holdings_to_balances (balances_to_holdings balances) = filter (\<lambda>(_, amount). \<not> ta_is_zero amount) balances"
proof -
  let ?f = "filter (\<lambda>(_, amount). \<not> ta_is_zero amount) balances"
  have amount: "tsu_with_decimals (ta_to_smallest_units a) (amount_decimals a) = a" for a :: token_amount
    by (simp add: tsu_with_decimals_def ta_to_smallest_units_def ta_from_smallest_units_def)
  have "holdings_to_balances (balances_to_holdings balances) = fold (\<lambda>(k, v). btree_insert k v) ?f []"
    by (simp add: holdings_to_balances_def balances_to_holdings_def fold_map o_def case_prod_unfold amount)
  also have "\<dots> = ?f"
    using assms by (subst fold_btree_insert_sorted) (auto simp: btree_invar_def sorted_wrt_map sorted_wrt_filter)
  finally show ?thesis .
qed

section \<open>The trace of a direct swap\<close>

definition recorded_walk :: "token_account \<Rightarrow> token_pair list \<Rightarrow> token_account \<Rightarrow> bool" where
  "recorded_walk a path b \<longleftrightarrow> path \<noteq> [] \<and>
     (\<exists>src. distinct (map pool_number src) \<and> walk (pool_info_list_new src) a path b)"

lemma updated_graph_walk:
  assumes "distinct (map pool_number src)" "token_graph_new F B (pool_info_list_new src) = Some g0"
    and "update_graph F dijkstra g0 start = Some (r, g)" "graph_get_path g a b = Some (Inr path)"
  shows "recorded_walk (in_inner a) path (out_inner b)"
proof -
  have reach: "graph_reach F dijkstra g0 g" by (rule graph_reach.updated [OF graph_reach.fresh assms(3)])
  then have "graph_ok g" "tg_pools g = pool_info_list_new src"
    using token_graph_new_ok [OF pools_indexed_new [OF assms(1)], of F B] assms(2) graph_reach_ok [OF reach] by auto
  with graph_get_path_walk [of g a b] assms(1,4) show ?thesis unfolding recorded_walk_def by auto
qed

lemma emits_find_swap_path:
  "emits (find_swap_path E a b) (\<lambda>es r. es = [] \<and> (\<forall>path. r = Ok path \<longrightarrow>
     recorded_walk a path b \<and> length path \<le> MAX_HOPS))"
proof (rule emitsI)
  fix s r s' assume run: "find_swap_path E a b s = (r, s')"
  have "trace s' = trace s \<and> (\<forall>path. r = Ok path \<longrightarrow> recorded_walk a path b \<and> length path \<le> MAX_HOPS)"
    using run
    by (auto simp: find_swap_path_def io_bind_def io_db_def io_expect_def io_return_def io_panic_def io_fail_def
        io_of_def io_graph_def validate_length_def
        split: prod.splits outcome.splits option.splits sum.splits if_splits
        dest!: read_from_db_distinct updated_graph_walk)
  then show "\<exists>es. trace s' = trace s @ es \<and> es = [] \<and> (\<forall>path. r = Ok path \<longrightarrow>
     recorded_walk a path b \<and> length path \<le> MAX_HOPS)" by simp
qed

text \<open>A swap as its parameters ask for it: along a walk of recorded pools from the one token to the
  other, of at most the amount asked for, demanding what the policy makes of the estimate.\<close>

definition asked_swap :: "bigdecimal \<Rightarrow> 'w client \<Rightarrow> wallet \<Rightarrow> swap_params \<Rightarrow> event \<Rightarrow> bool" where
  "asked_swap B c w params e = (case e of
     Exec signer receiver m args attach r \<Rightarrow>
       signer = w_signer w \<and> receiver = CONTRACT_ADDRESS c \<and> m = ''swap'' \<and> attach = 1 \<and>
       (\<exists>path actions i est o1.
         recorded_walk (in_inner (sp_from_token params)) path (out_inner (sp_to_token params)) \<and>
         length path \<le> MAX_HOPS \<and>
         args = JObj [(''actions'', JList (map swap_action_json actions))] \<and>
         map sa_pool_id actions = map pair_pool_id path \<and>
         sa_token_in (hd actions) = as_account_id (in_inner (sp_from_token params)) \<and>
         sa_amount_in (hd actions) = Some i \<and>
         sa_token_out (last actions) = as_account_id (out_inner (sp_to_token params)) \<and>
         sa_min_amount_out (last actions) = o1 \<and>
         calc_value B path i = Inr est \<and> calculate_min_out est (sp_policy params) = Inr o1 \<and>
         (\<forall>a. sp_swap_amount params = Some a \<longrightarrow> i \<le> a))
   | _ \<Rightarrow> False)"

lemma actions_asked:
  assumes "pair_swap_actions B path \<lparr>initial_in = i, min_out = o1\<rparr> = Some (Inr (actions, out))"
    and "recorded_walk (in_inner (sp_from_token params)) path (out_inner (sp_to_token params))"
    and "length path \<le> MAX_HOPS" "calc_value B path i = Inr est"
    and "calculate_min_out est (sp_policy params) = Inr o1"
    and "\<forall>a. sp_swap_amount params = Some a \<longrightarrow> i \<le> a"
  shows "asked_swap B c w params (Exec (w_signer w) (CONTRACT_ADDRESS c) ''swap''
    (JObj [(''actions'', JList (map swap_action_json actions))]) 1 r)"
proof -
  from assms(2) obtain src where src: "path \<noteq> []"
    "walk (pool_info_list_new src) (in_inner (sp_from_token params)) path (out_inner (sp_to_token params))"
    by (auto simp: recorded_walk_def)
  note A = actions_of_walk [OF assms(1) src(2,1)]
  show ?thesis unfolding asked_swap_def event.case
    by (intro conjI refl exI [of _ path], rule exI [of _ actions], rule exI [of _ i], rule exI [of _ est],
        rule exI [of _ o1]) (use assms A in simp)
qed

abbreviation "only_reads es \<equiv> \<forall>e \<in> set es. \<exists>rc m args r. e = View rc m args r"

text \<open>The trace: preparations, the attempt at the swap, and reads once it is confirmed.\<close>

definition direct_swap_trace :: "bigdecimal \<Rightarrow> 'w client \<Rightarrow> wallet \<Rightarrow> swap_params \<Rightarrow> event list \<Rightarrow>
    'a outcome \<Rightarrow> bool" where
  "direct_swap_trace B c w params es r \<longleftrightarrow> (\<exists>pre att post ok. es = pre @ att @ post \<and> prepares pre \<and>
     attempt (asked_swap B c w params) att ok \<and> only_reads post \<and>
     (\<not> ok \<longrightarrow> post = [] \<and> (\<forall>x. r \<noteq> Ok x)))"

lemma direct_swap_traceI:
  "prepares pre \<Longrightarrow> attempt (asked_swap B c w params) att ok \<Longrightarrow> only_reads post \<Longrightarrow>
    (\<not> ok \<longrightarrow> post = [] \<and> (\<forall>x. r \<noteq> Ok x)) \<Longrightarrow> es = pre @ att @ post \<Longrightarrow> direct_swap_trace B c w params es r"
  unfolding direct_swap_trace_def by blast

lemma direct_swap_trace_prepares:
  "prepares es \<Longrightarrow> (\<forall>x. r \<noteq> Ok x) \<Longrightarrow> direct_swap_trace B c w params es r"
  by (rule direct_swap_traceI [of es _ _ _ _ "[]" False "[]"]) (auto simp: attempt_def)

lemma direct_swap_trace_prefix:
  assumes "prepares es" "direct_swap_trace B c w params es' r"
  shows "direct_swap_trace B c w params (es @ es') r"
proof -
  from assms(2) obtain pre att post ok where *: "es' = pre @ att @ post" "prepares pre"
    "attempt (asked_swap B c w params) att ok" "only_reads post" "\<not> ok \<longrightarrow> post = [] \<and> (\<forall>x. r \<noteq> Ok x)"
    unfolding direct_swap_trace_def by blast
  show ?thesis by (rule direct_swap_traceI [of "es @ pre" _ _ _ _ att ok post]) (use * assms(1) in auto)
qed

lemma emits_direct_bind:
  assumes "calls_only (balance_methods \<union> storage_methods) m"
    and "\<And>x. emits (f x) (direct_swap_trace B c w params)"
  shows "emits (io_bind m f) (direct_swap_trace B c w params)"
  by (rule emits_seq [OF assms(1) [unfolded calls_only_def]])
    (auto intro: direct_swap_trace_prepares intro!: emits_conseq [OF assms(2)] direct_swap_trace_prefix)

lemma emits_record_trade [emits_intros]:
  "(\<And>x. Q [] (Ok x)) \<Longrightarrow> (\<And>e. Q [] (Err e)) \<Longrightarrow> emits (record_trade E rec tx ft fa tt ta act) Q"
  unfolding record_trade_def by (intro emits_intros) (auto intro!: emits_intros)

lemma direct_swap_trace_attempts:
  assumes "asked_swap B c w params e"
  shows "direct_swap_trace B c w params [e] (Err x)"
    and "direct_swap_trace B c w params [e, Wait_Success tx False] (Err x)"
    and "only_reads post \<Longrightarrow> direct_swap_trace B c w params (e # Wait_Success tx True # post) r"
proof -
  show "direct_swap_trace B c w params [e] (Err x)"
    by (rule direct_swap_traceI [of "[]" _ _ _ _ "[e]" False "[]"]) (use assms in \<open>auto simp: attempt_def\<close>)
  show "direct_swap_trace B c w params [e, Wait_Success tx False] (Err x)"
    by (rule direct_swap_traceI [of "[]" _ _ _ _ "[e, Wait_Success tx False]" False "[]"])
      (use assms in \<open>auto simp: attempt_def\<close>)
  show "direct_swap_trace B c w params (e # Wait_Success tx True # post) r" if "only_reads post"
    by (rule direct_swap_traceI [of "[]" _ _ _ _ "[e, Wait_Success tx True]" True post])
      (use assms that in \<open>auto simp: attempt_def\<close>)
qed

lemma emits_record_swap: "emits (record_swap E c params tx i out st) (\<lambda>es r. only_reads es)"
  unfolding record_swap_def Let_def by (intro emits_intros) (auto intro!: emits_intros)

lemma emits_swap_and_record:
  assumes "recorded_walk (in_inner (sp_from_token params)) path (out_inner (sp_to_token params))"
    and "length path \<le> MAX_HOPS" "\<forall>a. sp_swap_amount params = Some a \<longrightarrow> i \<le> a"
  shows "emits (swap_and_record E c w params path i) (direct_swap_trace (env_decimal E) c w params)"
proof -
  let ?B = "env_decimal E" and ?T = "direct_swap_trace (env_decimal E) c w params"
  have swap: "emits (run_swap ?B c w path \<lparr>initial_in = i, min_out = o1\<rparr>) (\<lambda>es r.
      es = [] \<and> (\<forall>x. r \<noteq> Ok x) \<or> (\<exists>e. es = [e] \<and> asked_swap ?B c w params e \<and> (\<forall>p. r \<noteq> Panic p)))"
    if "calc_value ?B path i = Inr est" "calculate_min_out est (sp_policy params) = Inr o1" for est o1
  proof -
    have "asked_swap ?B c w params (Exec (w_signer w) (CONTRACT_ADDRESS c) ''swap''
        (JObj [(''actions'', JList (map swap_action_json actions))]) 1 r)"
      if "pair_swap_actions ?B path \<lparr>initial_in = i, min_out = o1\<rparr> = Some (Inr (actions, out))" for actions out r
      by (rule actions_asked [OF that assms(1,2) \<open>calc_value ?B path i = Inr est\<close>
          \<open>calculate_min_out est (sp_policy params) = Inr o1\<close> assms(3)])
    then show ?thesis unfolding run_swap_def
      by (auto split: option.splits sum.splits intro!: emits_intros)
  qed
  have rest: "emits (io_bind (io_try (wait_for_success c tx)) (\<lambda>outcome. case outcome of
       Inl e \<Rightarrow> io_fail (Msg ''Swap transaction failed'' [])
     | Inr status \<Rightarrow> record_swap E c params tx i out status)) (\<lambda>es r. ?T ([e] @ es) r)"
    if "asked_swap ?B c w params e" for tx out e
    by (intro emits_intros)
      (auto intro!: emits_fail direct_swap_trace_attempts that emits_conseq [OF emits_record_swap])
  have swapped: "emits (io_bind (run_swap ?B c w path \<lparr>initial_in = i, min_out = o1\<rparr>) (\<lambda>(sent_tx, out).
      io_bind (io_try (wait_for_success c sent_tx)) (\<lambda>outcome. case outcome of
        Inl e \<Rightarrow> io_fail (Msg ''Swap transaction failed'' [])
      | Inr status \<Rightarrow> record_swap E c params sent_tx i out status))) ?T"
    if "calc_value ?B path i = Inr est" "calculate_min_out est (sp_policy params) = Inr o1" for est o1
    by (rule emits_seq [OF swap [OF that]])
      (auto simp del: append_Cons append_Nil intro: rest direct_swap_trace_attempts direct_swap_trace_prepares)
  show ?thesis unfolding swap_and_record_def
    by (rule emits_bind, rule emits_of; simp add: direct_swap_trace_prepares split: sum.splits)
      (rule emits_bind, rule emits_of; simp add: direct_swap_trace_prepares swapped)
qed

lemma emits_execute_direct_swap:
  "emits (execute_direct_swap E c w params cfg) (direct_swap_trace (env_decimal E) c w params)"
proof -
  let ?from = "in_inner (sp_from_token params)" and ?to = "out_inner (sp_to_token params)"
  let ?T = "direct_swap_trace (env_decimal E) c w params"
  have balance: "calls_only (balance_methods \<union> storage_methods) (swap_balance E c w ?from amount cfg)" for amount
    unfolding swap_balance_def get_deposits_def
    by (intro calls_only_intros calls_only_mono [OF balances_calls_only]) blast
  have storage: "calls_only (balance_methods \<union> storage_methods) (ensure_ref_storage_setup c w ts ks cap)" for ts ks cap
    by (rule calls_only_mono [OF setup_calls_only]) blast
  have path: "emits (io_bind (find_swap_path E ?from ?to) f) ?T"
    if "\<And>path. recorded_walk ?from path ?to \<Longrightarrow> length path \<le> MAX_HOPS \<Longrightarrow> emits (f path) ?T"
    for f :: "token_pair list \<Rightarrow> ('a, unit) io"
    by (rule emits_seq [OF emits_find_swap_path]) (auto intro: that direct_swap_trace_prepares)
  have expect: "emits (io_bind (io_expect p r) f) ?T" if "\<And>x. emits (f x) ?T"
    for p and r :: "token_account list option" and f :: "token_account list \<Rightarrow> ('a, unit) io"
    by (rule emits_bind, rule emits_expect) (auto intro: that direct_swap_trace_prepares)
  show ?thesis unfolding execute_direct_swap_def Let_def
    by (rule emits_direct_bind [OF balance], rule emits_if, rule emits_fail)
      (auto intro!: path expect emits_direct_bind [OF storage] emits_swap_and_record
        simp: direct_swap_trace_prepares split: option.splits)
qed


section \<open>The snapshot in the database\<close>

definition holding_row_holds :: "'j new_portfolio_holding \<Rightarrow> 'j db_portfolio_holding \<Rightarrow> bool" where
  "holding_row_holds n r \<longleftrightarrow> ph_evaluation_period_id r = nph_evaluation_period_id n \<and>
     ph_timestamp r = nph_timestamp n \<and> ph_token_holdings r = nph_token_holdings n"

lemma holding_insert_rows:
  assumes "table_spec T rows holding_row_holds" "holding_insert T n w = (Inr (), w')"
  shows "\<exists>r. holding_row_holds n r \<and> mset (rows w') = add_mset r (mset (rows w))"
proof -
  obtain q w1 where q: "t_insert T [n] w = (q, w1)" by (cases "t_insert T [n] w")
  with assms(2) obtain xs where "q = Inr xs" "w' = w1"
    by (auto simp: holding_insert_def db_bind_def db_call_def split: sum.splits)
  with t_insertD [OF assms(1) q] obtain r where "holding_row_holds n r" "mset (rows w') = mset (rows w) + {#r#}"
    by (auto simp: list_all2_Cons1)
  then show ?thesis by auto
qed

lemma latest_of_period:
  assumes T: "table_spec T rows holding_row_holds"
    and rows: "mset (rows w) = add_mset x (mset old)" "holding_row_holds n x"
    and older: "\<forall>r \<in> set old. ph_evaluation_period_id r = nph_evaluation_period_id n \<longrightarrow> ph_timestamp r < nph_timestamp n"
    and get: "get_latest_for_period T (nph_evaluation_period_id n) w = (r, w')"
  shows "r = Inr (Some x) \<or> (\<exists>e. r = Inl (Db_Error e))"
proof (cases r)
  case (Inl e)
  with get show ?thesis
    by (auto simp: get_latest_for_period_def db_first_def db_load_def db_bind_def db_call_def split: prod.splits sum.splits)
next
  case (Inr y)
  note F = db_first_InrD [OF T query_order_desc get [unfolded get_latest_for_period_def Inr]]
  have set: "set (rows w) = insert x (set old)" using mset_eq_setD [of "rows w" "x # old"] rows(1) by simp
  have x: "ph_evaluation_period_id x = nph_evaluation_period_id n" "ph_timestamp x = nph_timestamp n"
    using rows(2) by (simp_all add: holding_row_holds_def)
  show ?thesis
  proof (cases y)
    case None
    with F(2) set x show ?thesis by auto
  next
    case (Some z)
    with F(3) set x older Inr show ?thesis by (fastforce simp: desc_def)
  qed
qed

text \<open>
  C28. The holdings recorded after trading are what the next cycle reads: if the balances of a
  period are stored and every other row of the period is older, reading the holdings of the
  period gives exactly the balances that are not zero, or an error of the database.
\<close>

theorem snapshot_round_trip:
  fixes E :: "('w, 'f, 'j) trade_env"
  assumes "table_spec (te_holdings E) rows holding_row_holds" "holding_codec_spec (te_holding_codec E)"
    and "btree_invar balances"
    and "ser_holdings (te_holding_codec E) (balances_to_holdings balances) = Some j"
    and "holding_insert (te_holdings E) \<lparr>nph_evaluation_period_id = p, nph_timestamp = now, nph_token_holdings = j\<rparr> w
      = (Inr (), w')"
    and "\<forall>r \<in> set (rows w). ph_evaluation_period_id r = p \<longrightarrow> ph_timestamp r < now"
    and "get_holdings_from_db E p w' = (r, w'')"
  shows "r = Inr (Some (filter (\<lambda>(_, amount). \<not> ta_is_zero amount) balances)) \<or> (\<exists>e. r = Inl (Db_Error e))"
proof -
  let ?n = "\<lparr>nph_evaluation_period_id = p, nph_timestamp = now, nph_token_holdings = j\<rparr>"
  from holding_insert_rows [OF assms(1,5)] obtain x where x: "holding_row_holds ?n x"
    "mset (rows w') = add_mset x (mset (rows w))" by blast
  obtain q w1 where q: "get_latest_for_period (te_holdings E) p w' = (q, w1)"
    by (cases "get_latest_for_period (te_holdings E) p w'")
  have "q = Inr (Some x) \<or> (\<exists>e. q = Inl (Db_Error e))"
    using latest_of_period [OF assms(1) x(2,1), of q w1] assms(6) q by simp
  moreover have "parse_holdings (te_holding_codec E) x = Inr (balances_to_holdings balances)"
    using assms(2,4) x(1) by (auto simp: parse_holdings_def holding_codec_spec_def holding_row_holds_def)
      (metis option.inject)
  ultimately show ?thesis
    using assms(7) q by (auto simp: get_holdings_from_db_def db_bind_def db_of_def holdings_round_trip [OF assms(3)])
qed

text \<open>An environment whose only table is that of the holdings.\<close>

definition closed_table :: "('w, 'r, 'n) table" where
  "closed_table = \<lparr>t_load = (\<lambda>_ _ w. (Inl ''closed'', w)), t_insert = (\<lambda>_ w. (Inl ''closed'', w)),
     t_update = (\<lambda>_ _ w. (Inl ''closed'', w)), t_delete = (\<lambda>_ w. (Inl ''closed'', w))\<rparr>"

definition sample_holding_row :: "nat \<Rightarrow> 'j new_portfolio_holding \<Rightarrow> 'j db_portfolio_holding" where
  "sample_holding_row i n = \<lparr>ph_id = of_nat i, ph_evaluation_period_id = nph_evaluation_period_id n,
     ph_timestamp = nph_timestamp n, ph_token_holdings = nph_token_holdings n, ph_created_at = nph_timestamp n\<rparr>"

definition holdings_env :: "(token_holding list db_portfolio_holding list, rat, token_holding list) trade_env" where
  "holdings_env = \<lparr>env_decimal = exact_decimal, env_float = rat_ops, env_dijkstra = sample_scores 0,
     env_isqrt = sample_isqrt, env_account = Some, env_duration = (\<lambda>_. None),
     env_json = \<lparr>ser_tokens = (\<lambda>_. None), de_tokens = (\<lambda>_. None), ser_amounts = (\<lambda>_. None),
       de_amounts = (\<lambda>_. None), ser_supply = (\<lambda>_. None), de_supply = (\<lambda>_. None)\<rparr>,
     env_pools = closed_table, env_clock = (\<lambda>_. 7),
     te_rate_codec = \<lparr>parse_token = Some \<circ> TokenAccount, ser_route = (\<lambda>_. None), de_route = (\<lambda>_. None)\<rparr>,
     te_rates = closed_table, te_periods = closed_table, te_trades = closed_table,
     te_holding_codec = \<lparr>ser_holdings = Some, de_holdings = Some\<rparr>,
     te_holdings = list_table sample_holding_row, te_uuid = (\<lambda>w. (''id'', w)), te_metadata = (\<lambda>_. None)\<rparr>"

definition sample_balances :: "(token_account, token_amount) btree_map" where
  "sample_balances = [(TokenAccount ''a'', ta_from_smallest_units 5 6), (TokenAccount ''b'', ta_from_smallest_units 0 6)]"

theorem snapshot_round_trip_witness:
  "fst (get_holdings_from_db holdings_env ''p'' (snd (holding_insert (te_holdings holdings_env)
     \<lparr>nph_evaluation_period_id = ''p'', nph_timestamp = 3,
      nph_token_holdings = balances_to_holdings sample_balances\<rparr> []))) =
   Inr (Some [(TokenAccount ''a'', ta_from_smallest_units 5 6)])"
proof -
  let ?h = "\<lparr>nph_evaluation_period_id = ''p'', nph_timestamp = 3, nph_token_holdings = balances_to_holdings sample_balances\<rparr>"
  note defs = holdings_env_def holding_insert_def list_table_def db_bind_def db_call_def
  have T: "table_spec (te_holdings holdings_env) (\<lambda>w. w) holding_row_holds"
    by (simp add: holdings_env_def list_table_spec holding_row_holds_def sample_holding_row_def)
  have J: "holding_codec_spec (te_holding_codec holdings_env)" by (simp add: holdings_env_def holding_codec_spec_def)
  obtain w where w: "holding_insert (te_holdings holdings_env) ?h [] = (Inr (), w)" by (simp add: defs Let_def)
  obtain r w' where r: "get_holdings_from_db holdings_env ''p'' w = (r, w')"
    by (cases "get_holdings_from_db holdings_env ''p'' w")
  have "r = Inr (Some (filter (\<lambda>(_, amount). \<not> ta_is_zero amount) sample_balances)) \<or> (\<exists>e. r = Inl (Db_Error e))"
    by (rule snapshot_round_trip [OF T J _ _ w _ r])
      (simp_all add: holdings_env_def btree_invar_def sample_balances_def less_token_account_def)
  moreover have "r \<noteq> Inl (Db_Error e)" for e
    using r by (auto simp: get_holdings_from_db_def get_latest_for_period_def db_first_def db_load_def db_of_def
        parse_holdings_def ok_or_def defs split: option.splits list.splits)
  ultimately show ?thesis
    using r w by (auto simp: sample_balances_def ta_is_zero_def ta_from_smallest_units_def)
qed

end
