(* ===== verification/Trade_Harvest.thy ===== *)
theory Trade_Harvest
  imports Trade_Swap
begin

text \<open>
  \<^verbatim>\<open>trade/src/harvest.rs\<close>: when a period ends with more than twice its initial value, a tenth of
  the excess is withdrawn, unwrapped and sent to the harvest account. Subtractions of times wrap
  around, as in a release build.
\<close>

section \<open>Operations\<close>

definition trade_harvest_account :: "('w, 'f, 'j) trade_env \<Rightarrow> config_stores \<Rightarrow> ('w, account_id) io" where
  "trade_harvest_account E cfg =
     (let v = (case harvest_account_id cfg of Inl _ \<Rightarrow> ''harvest.near'' | Inr v \<Rightarrow> v)
      in io_expect ''Failed to parse HARVEST_ACCOUNT_ID'' (env_account E v))"

definition harvest_min_yocto :: "config_stores \<Rightarrow> yocto_amount" where
  "harvest_min_yocto cfg = near_to_yocto (NearAmount (bd_of (harvest_min_amount cfg)))"

definition harvest_reserve_yocto :: "config_stores \<Rightarrow> yocto_amount" where
  "harvest_reserve_yocto cfg = near_to_yocto (NearAmount (bd_of (harvest_reserve_amount cfg)))"

definition io_load_last_harvest_time :: "('w, u64) io" where
  "io_load_last_harvest_time s = (Ok (last_harvest_time s), s)"

definition trade_is_time_to_harvest :: "'w client \<Rightarrow> config_stores \<Rightarrow> ('w, bool) io" where
  "trade_is_time_to_harvest c cfg =
     io_bind io_load_last_harvest_time (\<lambda>last.
     io_bind (io_now c) (\<lambda>now. io_return (now - last > harvest_interval_seconds cfg)))"

definition update_last_harvest_time :: "'w client \<Rightarrow> ('w, unit) io" where
  "update_last_harvest_time c = io_bind (io_now c) (\<lambda>now s. (Ok (), s\<lparr>last_harvest_time := now\<rparr>))"

text \<open>A transaction whose failure becomes an error with a message of its own.\<close>

definition wait_or_fail :: "'w client \<Rightarrow> string \<Rightarrow> string \<Rightarrow> ('w, unit) io" where
  "wait_or_fail c tx m = io_bind (io_try (wait_for_success c tx)) (\<lambda>r.
     case r of Inl e \<Rightarrow> io_fail (Msg m []) | Inr _ \<Rightarrow> io_return ())"

definition execute_harvest_transfer :: "('w, 'f, 'j) trade_env \<Rightarrow> 'w client \<Rightarrow> wallet \<Rightarrow> account_id \<Rightarrow>
    yocto_amount \<Rightarrow> string \<Rightarrow> config_stores \<Rightarrow> ('w, unit) io" where
  "execute_harvest_transfer E c w target_account harvest_amount period_id cfg =
     (let amount = yocto_to_u128 (env_decimal E) harvest_amount in
      io_bind (withdraw c w (WNEAR_TOKEN c) amount) (\<lambda>withdraw_tx.
      io_bind (wait_or_fail c withdraw_tx ''Harvest failed at withdrawal step'') (\<lambda>_.
      io_bind (wnear_unwrap c w amount) (\<lambda>unwrap_tx.
      io_bind (wait_or_fail c unwrap_tx ''Harvest failed at unwrap step'') (\<lambda>_.
      io_bind (get_native_amount c (w_account w)) (\<lambda>native.
      let reserve = yocto_to_u128 (env_decimal E) (harvest_reserve_yocto cfg) in
      if native > reserve
      then let available = saturating_sub native reserve;
               actual = (if amount < available then amount else available)
        in io_bind (transfer_native_token c (w_signer w) target_account actual) (\<lambda>sent_tx.
           io_bind (wait_for_executed c sent_tx) (\<lambda>_.
           let yocto = yocto_from_u128 actual in
           io_bind (recorder_new E period_id) (\<lambda>recorder.
           io_bind (record_trade E recorder sent_tx (to_in (WNEAR_TOKEN c)) (yocto_to_token_amount yocto)
             (to_out NEAR_TOKEN) (yocto_to_token_amount yocto) (Some (yocto_to_token_amount yocto))) (\<lambda>_.
           io_return ()))))
      else io_return ()))))))"

definition check_and_execute_harvest :: "('w, 'f, 'j) trade_env \<Rightarrow> 'w client \<Rightarrow> wallet \<Rightarrow> yocto_value \<Rightarrow>
    yocto_value \<Rightarrow> string \<Rightarrow> config_stores \<Rightarrow> ('w, yocto_amount) io" where
  "check_and_execute_harvest E c w initial_value current_value period_id cfg =
     (if yv_is_zero initial_value then io_return yocto_zero
      else let harvest_threshold = yv_scale initial_value 2 in
      if yv_val current_value > yv_val harvest_threshold
      then let excess = yv_sub current_value harvest_threshold;
               harvest_value = yv_scale excess (1 / 10);
               harvest_amount = yv_to_amount harvest_value
        in io_bind (trade_harvest_account E cfg) (\<lambda>account.
           if yocto_val harvest_amount < yocto_val (harvest_min_yocto cfg) then io_return yocto_zero
           else io_bind (trade_is_time_to_harvest c cfg) (\<lambda>due.
           if \<not> due then io_return yocto_zero
           else io_bind (execute_harvest_transfer E c w account harvest_amount period_id cfg) (\<lambda>_.
             io_bind (update_last_harvest_time c) (\<lambda>_. io_return harvest_amount))))
      else io_return yocto_zero)"

section \<open>What a harvest may send\<close>

text \<open>The account that is configured, or the default.\<close>

definition harvest_target :: "config_stores \<Rightarrow> string" where
  "harvest_target cfg = (case harvest_account_id cfg of Inl _ \<Rightarrow> ''harvest.near'' | Inr v \<Rightarrow> v)"

text \<open>A transaction of a harvest: withdrawing and unwrapping the amount, or sending at most the
  amount and no more than a native balance of the trace has above the reserve.\<close>

definition harvest_event :: "('w, 'f, 'j) trade_env \<Rightarrow> 'w client \<Rightarrow> wallet \<Rightarrow> config_stores \<Rightarrow> u128 \<Rightarrow> event list \<Rightarrow>
    event \<Rightarrow> bool" where
  "harvest_event E c w cfg amount es e = (case e of
     Exec sg rc m args d r \<Rightarrow> d = 1 \<and>
       (m = ''withdraw'' \<and> rc = CONTRACT_ADDRESS c \<or> m = ''near_withdraw'' \<and> rc = as_account_id (WNEAR_TOKEN c)) \<and>
       (\<exists>fs. args = JObj fs \<and> (''amount'', JU128 amount) \<in> set fs)
   | Transfer sg rc a r \<Rightarrow> sg = w_signer w \<and> env_account E (harvest_target cfg) = Some rc \<and> a \<le> amount \<and>
       (\<exists>n. Native_Amount (w_account w) (Inr n) \<in> set es \<and>
          unat a + unat (yocto_to_u128 (env_decimal E) (harvest_reserve_yocto cfg)) \<le> unat n)
   | _ \<Rightarrow> True)"

lemma harvest_event_simps [simp]:
  "harvest_event E c w cfg amount es (View rc m args v)" "harvest_event E c w cfg amount es (Wait_Success tx b)"
  "harvest_event E c w cfg amount es (Wait_Executed tx b)" "harvest_event E c w cfg amount es (Native_Amount acc n)"
  "harvest_event E c w cfg amount es (Clock t)"
  by (simp_all add: harvest_event_def)

abbreviation harvest_trace :: "('w, 'f, 'j) trade_env \<Rightarrow> 'w client \<Rightarrow> wallet \<Rightarrow> config_stores \<Rightarrow> u128 \<Rightarrow> event list \<Rightarrow> bool" where
  "harvest_trace E c w cfg amount es \<equiv> \<forall>e \<in> set es. harvest_event E c w cfg amount es e"

lemma emits_recorder_new [emits_intros]:
  "(\<And>r. tr_evaluation_period_id r = p \<Longrightarrow> Q [] (Ok r)) \<Longrightarrow> emits (recorder_new E p) Q"
  by (rule emitsI) (auto simp: recorder_new_def io_bind_def io_uuid_def io_return_def split: prod.splits)

lemma emits_last_harvest_time [emits_intros]:
  "(\<And>t. Q [] (Ok t)) \<Longrightarrow> emits io_load_last_harvest_time Q"
  by (rule emitsI) (auto simp: io_load_last_harvest_time_def)

lemma emits_update_last_harvest_time [emits_intros]:
  "(\<And>t. Q [Clock t] (Ok ())) \<Longrightarrow> emits (update_last_harvest_time c) Q"
  by (rule emitsI) (auto simp: update_last_harvest_time_def io_bind_def io_now_def split: prod.splits)

lemma emits_wait_or_fail [emits_intros]:
  "Q [Wait_Success tx True] (Ok ()) \<Longrightarrow> Q [Wait_Success tx False] (Err (Msg m [])) \<Longrightarrow> emits (wait_or_fail c tx m) Q"
  unfolding wait_or_fail_def by (intro emits_intros) (auto intro!: emits_intros)

lemma emits_execute_harvest_transfer:
  assumes "env_account E (harvest_target cfg) = Some account"
  shows "emits (execute_harvest_transfer E c w account amount p cfg)
    (\<lambda>es r. harvest_trace E c w cfg (yocto_to_u128 (env_decimal E) amount) es)"
proof -
  have 1: "unat (saturating_sub n r) + unat r \<le> unat n" if "r < n" for n r :: u128
    using that by (simp add: unat_saturating_sub word_less_nat_alt)
  have 2: "unat a + unat r \<le> unat n" if "r < n" "a < saturating_sub n r" for n r a :: u128
    using 1 [OF that(1)] that(2) by (simp add: word_less_nat_alt)
  show ?thesis
    unfolding execute_harvest_transfer_def Let_def withdraw_def wnear_unwrap_def
    by (intro emits_intros)
      (auto intro!: emits_intros simp: harvest_event_def assms not_less 1 2)
qed

lemma floor_tenth:
  assumes "bigdecimal_spec B" "0 < x"
  shows "of_nat (unat (yocto_to_u128 B (YoctoAmount x))) \<le> x"
proof (cases "2 ^ 128 \<le> \<lfloor>x\<rfloor>")
  case True
  then show ?thesis using assms by (simp add: yocto_to_u128_def bd_to_u128_eq)
next
  case False
  moreover have "0 \<le> \<lfloor>x\<rfloor>" using assms by simp
  ultimately have "unat (word_of_int \<lfloor>x\<rfloor> :: u128) = nat \<lfloor>x\<rfloor>"
    by (simp add: unsigned_of_int take_bit_int_eq_self)
  moreover have "of_nat (nat \<lfloor>x\<rfloor>) \<le> x" using \<open>0 \<le> \<lfloor>x\<rfloor>\<close> by simp
  ultimately show ?thesis using False assms by (simp add: yocto_to_u128_def bd_to_u128_eq)
qed

definition is_transaction :: "event \<Rightarrow> bool" where
  "is_transaction e = (case e of Exec _ _ _ _ _ _ \<Rightarrow> True | Transfer _ _ _ _ \<Rightarrow> True | _ \<Rightarrow> False)"

definition is_transfer :: "event \<Rightarrow> bool" where
  "is_transfer e = (case e of Transfer _ _ _ _ \<Rightarrow> True | _ \<Rightarrow> False)"

text \<open>Either nothing is sent, or the period has more than doubled and what is sent is a harvest of at
  most a tenth of the excess.\<close>

definition harvest_ok :: "('w, 'f, 'j) trade_env \<Rightarrow> 'w client \<Rightarrow> wallet \<Rightarrow> config_stores \<Rightarrow> yocto_value \<Rightarrow>
    yocto_value \<Rightarrow> event list \<Rightarrow> bool" where
  "harvest_ok E c w cfg initial_value current_value es \<longleftrightarrow> (\<forall>e \<in> set es. \<not> is_transaction e) \<or>
     (\<exists>amount. yv_val initial_value \<noteq> 0 \<and>
        10 * of_nat (unat amount) \<le> yv_val current_value - 2 * yv_val initial_value \<and>
        10 * yocto_val (harvest_min_yocto cfg) \<le> yv_val current_value - 2 * yv_val initial_value \<and>
        harvest_trace E c w cfg amount es)"

lemma harvest_ok_silent: "(\<forall>e \<in> set es. \<not> is_transaction e) \<Longrightarrow> harvest_ok E c w cfg v u es"
  by (simp add: harvest_ok_def)

lemma harvest_event_mono:
  "harvest_event E c w cfg a es e \<Longrightarrow> set es \<subseteq> set es' \<Longrightarrow> harvest_event E c w cfg a es' e"
  by (cases e) (auto simp: harvest_event_def)

lemma harvest_event_silent: "\<not> is_transaction e \<Longrightarrow> harvest_event E c w cfg a es e"
  by (cases e) (auto simp: harvest_event_def is_transaction_def)

lemma harvest_trace_more:
  assumes "harvest_trace E c w cfg a es" "\<forall>e \<in> set xs \<union> set ys. \<not> is_transaction e"
  shows "harvest_trace E c w cfg a (xs @ es @ ys)"
proof
  fix e assume "e \<in> set (xs @ es @ ys)"
  then consider "e \<in> set es" | "e \<in> set xs \<union> set ys" by auto
  then show "harvest_event E c w cfg a (xs @ es @ ys) e"
  proof cases
    case 1
    with assms(1) have "harvest_event E c w cfg a es e" by blast
    then show ?thesis by (rule harvest_event_mono) auto
  next
    case 2
    with assms(2) have "\<not> is_transaction e" by blast
    then show ?thesis by (rule harvest_event_silent)
  qed
qed

lemma emits_check_and_execute_harvest:
  assumes "bigdecimal_spec (env_decimal E)"
  shows "emits (check_and_execute_harvest E c w v u p cfg) (\<lambda>es r. harvest_ok E c w cfg v u es)"
proof -
  define x where "x = (yv_val u - 2 * yv_val v) / 10"
  define a where "a = yocto_to_u128 (env_decimal E) (YoctoAmount x)"
  have ok: "harvest_ok E c w cfg v u (Clock t # es @ ys)"
    if "harvest_trace E c w cfg a es" "\<forall>e \<in> set ys. \<not> is_transaction e"
      "yv_val v \<noteq> 0" "0 < x" "yocto_val (harvest_min_yocto cfg) \<le> x" for t es ys
  proof -
    have "harvest_trace E c w cfg a ([Clock t] @ es @ ys)"
      using that by (intro harvest_trace_more) (auto simp: is_transaction_def)
    moreover have "of_nat (unat a) \<le> x" unfolding a_def by (rule floor_tenth [OF assms that(4)])
    ultimately show ?thesis using that unfolding harvest_ok_def x_def by (intro disjI2 exI [of _ a]) simp
  qed
  have transfer: "emits (execute_harvest_transfer E c w account (YoctoAmount x) p cfg) (after (\<lambda>_.
      io_bind (update_last_harvest_time c) (\<lambda>_. io_return (YoctoAmount x)))
      (\<lambda>es r. harvest_ok E c w cfg v u (Clock t # es)))"
    if "env_account E (harvest_target cfg) = Some account" "yv_val v \<noteq> 0" "0 < x"
      "yocto_val (harvest_min_yocto cfg) \<le> x" for account t
  proof (rule emits_conseq [OF emits_execute_harvest_transfer [OF that(1)]], unfold a_def [symmetric])
    fix es and r :: "unit outcome"
    assume tr: "harvest_trace E c w cfg a es"
    show "after (\<lambda>_. io_bind (update_last_harvest_time c) (\<lambda>_. io_return (YoctoAmount x)))
      (\<lambda>es r. harvest_ok E c w cfg v u (Clock t # es)) es r"
    proof -
      have 1: "harvest_ok E c w cfg v u (Clock t # es)" using ok [OF tr, of "[]" t] that by simp
      have 2: "harvest_ok E c w cfg v u (Clock t # es @ [Clock t'])" for t'
        by (rule ok [OF tr]) (use that in \<open>simp_all add: is_transaction_def\<close>)
      show ?thesis by (cases r) (auto intro!: emits_intros simp: 1 2)
    qed
  qed
  have eq: "yv_to_amount (yv_scale (yv_sub u (yv_scale v 2)) (1 / 10)) = YoctoAmount x"
    "yv_val u > yv_val (yv_scale v 2) \<longleftrightarrow> 0 < x"
    by (simp_all add: yv_to_amount_def yv_scale_def yv_sub_def x_def mult.commute)
  show ?thesis
    unfolding check_and_execute_harvest_def Let_def eq trade_harvest_account_def harvest_target_def [symmetric]
      trade_is_time_to_harvest_def
    by (intro emits_intros)
      (auto intro!: emits_intros harvest_ok_silent transfer simp: not_less is_transaction_def yv_is_zero_def)
qed


definition no_tables_env :: "(unit, rat, unit) trade_env" where
  "no_tables_env = \<lparr>env_decimal = exact_decimal, env_float = rat_ops, env_dijkstra = sample_scores 0,
     env_isqrt = sample_isqrt, env_account = Some, env_duration = (\<lambda>_. None),
     env_json = \<lparr>ser_tokens = (\<lambda>_. None), de_tokens = (\<lambda>_. None), ser_amounts = (\<lambda>_. None),
       de_amounts = (\<lambda>_. None), ser_supply = (\<lambda>_. None), de_supply = (\<lambda>_. None)\<rparr>,
     env_pools = closed_table, env_clock = (\<lambda>_. 7),
     te_rate_codec = \<lparr>parse_token = Some \<circ> TokenAccount, ser_route = (\<lambda>_. None), de_route = (\<lambda>_. None)\<rparr>,
     te_rates = closed_table, te_periods = closed_table, te_trades = closed_table,
     te_holding_codec = \<lparr>ser_holdings = (\<lambda>_. None), de_holdings = (\<lambda>_. None)\<rparr>,
     te_holdings = closed_table, te_uuid = (\<lambda>w. (''id'', w)), te_metadata = (\<lambda>_. None)\<rparr>"

definition empty_config :: config_stores where
  "empty_config = \<lparr>config_store = Map.empty, db_store = Map.empty, env = Map.empty\<rparr>"

definition harvest_run :: "yocto_amount outcome \<times> unit sys" where
  "harvest_run = check_and_execute_harvest no_tables_env sample_client sample_wallet
     (YoctoValue 100000000000000000000000000) (YoctoValue 1000000000000000000000000000) ''p'' empty_config sample_sys"

lemma empty_config_harvest:
  "harvest_account_id empty_config = Inl (Required_Key_Not_Found ''HARVEST_ACCOUNT_ID'')"
  "harvest_interval_seconds empty_config = 86400"
  "harvest_min_yocto empty_config = YoctoAmount 10000000000000000000000000"
  "yocto_to_u128 exact_decimal (harvest_reserve_yocto empty_config) = 1000000000000000000000000"
  by (simp_all add: empty_config_def harvest_account_id_def harvest_interval_seconds_def harvest_min_yocto_def
      harvest_reserve_yocto_def harvest_min_amount_def harvest_reserve_amount_def resolve_uint_def resolve_with_def
      resolve_required_def config_get_def get_from_env_def near_to_yocto_def bd_of_def YOCTO_PER_NEAR_def
      yocto_to_u128_def exact_decimal_def)

lemma harvest_run_eq:
  "fst harvest_run = Ok (YoctoAmount 80000000000000000000000000)"
  "filter is_transfer (trace (snd harvest_run)) = []"
  unfolding harvest_run_def check_and_execute_harvest_def execute_harvest_transfer_def trade_harvest_account_def
    trade_is_time_to_harvest_def update_last_harvest_time_def wait_or_fail_def withdraw_def wnear_unwrap_def
  by (simp_all add: io_simps sample_client_def sample_wallet_def sample_sys_def no_tables_env_def empty_config_harvest
      yv_is_zero_def yv_scale_def yv_sub_def yv_to_amount_def Let_def io_load_last_harvest_time_def is_transfer_def)



end
