(* ===== verification/Execution.thy ===== *)
theory Execution
  imports Trade_Harvest Matching
begin

text \<open>
  \<^verbatim>\<open>trade/src/execution.rs\<close>: executing the actions of the portfolio strategy, rebalancing,
  liquidating and the life cycle of evaluation periods. Sums and products of unsigned integers
  wrap around, as in a release build. Cleaning up old periods runs in a task of its own; it is
  the operation \<open>period_cleanup_old_records\<close>.
\<close>

section \<open>Amounts\<close>

datatype trading_action =
    Hold
  | Sell token_out_account token_out_account
  | Switch token_out_account token_out_account
  | Rebalance "(token_out_account \<times> rat) list"
  | AddPosition token_out_account rat
  | ReducePosition token_out_account rat

text \<open>\<^verbatim>\<open>BigDecimal::to_bigint\<close> drops the fraction.\<close>

definition truncate :: "rat \<Rightarrow> int" where
  "truncate x = (if x < 0 then - \<lfloor>- x\<rfloor> else \<lfloor>x\<rfloor>)"

definition token_amount_to_u128 :: "token_amount \<Rightarrow> error + u128" where
  "token_amount_to_u128 amount = (let i = truncate (smallest_units amount) in
     if 0 \<le> i \<and> i < 2 ^ 128 then Inr (word_of_int i) else Inl (Msg ''TokenAmount out of u128 range'' []))"

record phase_counters =
  pc_success :: nat
  pc_failed :: nat

definition no_counts :: phase_counters where
  "no_counts = \<lparr>pc_success = 0, pc_failed = 0\<rparr>"

definition count_success :: "phase_counters \<Rightarrow> phase_counters" where
  "count_success k = k\<lparr>pc_success := pc_success k + 1\<rparr>"

definition count_failed :: "phase_counters \<Rightarrow> phase_counters" where
  "count_failed k = k\<lparr>pc_failed := pc_failed k + 1\<rparr>"

definition DEFAULT_HARVEST_RESERVE :: u128 where
  "DEFAULT_HARVEST_RESERVE = 10 ^ 24"

section \<open>Dividing the balance among positions\<close>

definition weight_bps :: "bigdecimal \<Rightarrow> rat \<Rightarrow> rat \<Rightarrow> u128" where
  "weight_bps B total_weight w = (if total_weight = 0 then 0
     else case bd_to_u128 B (bd_div B w total_weight * 10000) of Some x \<Rightarrow> x | None \<Rightarrow> 0)"

fun allocate_loop :: "u128 \<Rightarrow> u128 \<Rightarrow> (nat \<times> u128) list \<Rightarrow> u128 \<Rightarrow> (nat \<times> u128) list" where
  "allocate_loop balance total_bps [] allocated_sum = []"
| "allocate_loop balance total_bps ((idx, bps) # rest) allocated_sum =
     (let amount = (if rest = [] then saturating_sub balance allocated_sum
        else if total_bps > 0
        then balance div total_bps * bps + balance mod total_bps * bps div total_bps
        else 0)
      in (idx, amount) # allocate_loop balance total_bps rest (saturating_add allocated_sum amount))"

definition allocate_add_position_amounts :: "bigdecimal \<Rightarrow> (nat \<times> rat) list \<Rightarrow> u128 \<Rightarrow> (nat \<times> u128) list" where
  "allocate_add_position_amounts B add_positions balance =
     (let total_weight = sum_list (map snd add_positions);
          weights_bps = map (\<lambda>(idx, w). (idx, weight_bps B total_weight w)) add_positions;
          total_bps = sum_list (map snd weights_bps)
      in allocate_loop balance total_bps weights_bps 0)"

definition add_position_weights :: "trading_action list \<Rightarrow> (nat \<times> rat) list" where
  "add_position_weights actions = concat (map (\<lambda>(idx, action). case action of
     AddPosition _ weight \<Rightarrow> [(idx, weight)] | _ \<Rightarrow> []) (enumerate 0 actions))"

definition wnear_deposit :: "'w client \<Rightarrow> (token_account, u128) btree_map \<Rightarrow> u128" where
  "wnear_deposit c deposits = (case map_of deposits (WNEAR_TOKEN c) of Some u \<Rightarrow> u | None \<Rightarrow> 0)"

definition precompute_add_position_amounts :: "('w, 'f, 'j) trade_env \<Rightarrow> 'w client \<Rightarrow> wallet \<Rightarrow>
    trading_action list \<Rightarrow> ('w, nat \<rightharpoonup> u128) io" where
  "precompute_add_position_amounts E c w actions =
     (let add_positions = add_position_weights actions in
      if add_positions = [] then io_return Map.empty
      else io_bind (get_deposits c (w_account w)) (\<lambda>deposits.
        io_return (map_of (allocate_add_position_amounts (env_decimal E) add_positions (wnear_deposit c deposits)))))"

section \<open>Rebalancing\<close>

text \<open>The current rate of a token that is held; a rate too small to trade is left out.\<close>

definition held_spot_rate :: "('w, 'f, 'j) trade_env \<Rightarrow> 'w client \<Rightarrow> token_account \<Rightarrow> token_amount option \<Rightarrow>
    ('w, exchange_rate option) io" where
  "held_spot_rate E c token current_amount = (case current_amount of
     Some amount \<Rightarrow>
       if ta_is_zero amount then io_return None
       else io_bind (io_db (rate_get_latest (te_rate_codec E) (te_rates E) (TokenOutAccount token) (to_in (WNEAR_TOKEN c))))
         (\<lambda>r. io_bind (io_option (Msg ''No rate found for token'' []) r) (\<lambda>rate.
         io_bind (io_expect ''division by zero'' (to_spot_rate (env_decimal E) rate)) (\<lambda>spot.
         io_return (if rate_is_effectively_zero spot then None else Some spot))))
   | None \<Rightarrow> io_return None)"

definition current_value :: "bigdecimal \<Rightarrow> token_amount option \<Rightarrow> exchange_rate option \<Rightarrow> near_value" where
  "current_value B current_amount spot_rate = (case (current_amount, spot_rate) of
     (Some amount, Some rate) \<Rightarrow> if ta_is_zero amount then nv_zero else ta_div_rate B amount rate
   | _ \<Rightarrow> nv_zero)"

text \<open>What has to be sold and bought: a difference of at least one NEAR to the target.\<close>

fun rebalance_operations :: "('w, 'f, 'j) trade_env \<Rightarrow> 'w client \<Rightarrow> (token_account, token_amount) btree_map \<Rightarrow>
    near_value \<Rightarrow> (token_out_account \<times> rat) list \<Rightarrow> ('w, sell_operation list \<times> buy_operation list) io" where
  "rebalance_operations E c balances total_value [] = io_return ([], [])"
| "rebalance_operations E c balances total_value ((token, target_weight) # weights) =
     (let account = out_inner token in
      if target_weight < 0 \<or> account = WNEAR_TOKEN c
      then rebalance_operations E c balances total_value weights
      else io_bind (held_spot_rate E c account (map_of balances account)) (\<lambda>spot_rate.
        let current = current_value (env_decimal E) (map_of balances account) spot_rate;
            target = nv_scale total_value target_weight;
            diff = nv_sub target current
        in io_bind (if diff < nv_zero \<and> nv_one \<le> nv_abs diff
              then io_bind (io_option (Msg ''No cached rate for sell operation'' []) spot_rate) (\<lambda>rate.
                io_return ([\<lparr>so_token = account, so_near_value = nv_abs diff, so_exchange_rate = rate\<rparr>], []))
              else if nv_zero < diff \<and> nv_one \<le> diff
              then io_return ([], [\<lparr>bo_token = account, bo_near_value = diff\<rparr>])
              else io_return ([], [])) (\<lambda>(sells, buys).
        io_bind (rebalance_operations E c balances total_value weights) (\<lambda>(sells', buys').
        io_return (sells @ sells', buys @ buys')))))"

definition sell_params :: "'w client \<Rightarrow> trade_recorder \<Rightarrow> token_account \<Rightarrow> token_account \<Rightarrow> u128 \<Rightarrow> swap_params" where
  "sell_params c recorder from_token to_token amount =
     \<lparr>sp_from_token = TokenInAccount from_token, sp_to_token = TokenOutAccount to_token,
      sp_swap_amount = Some amount, sp_recorder = recorder, sp_policy = Unprotected\<rparr>"

text \<open>Selling a value of a token: the amount at its rate; an amount that does not fit or is zero
  counts as failed, like a swap that fails.\<close>

definition sell_value :: "('w, 'f, 'j) trade_env \<Rightarrow> 'w client \<Rightarrow> wallet \<Rightarrow> trade_recorder \<Rightarrow> config_stores \<Rightarrow>
    token_account \<Rightarrow> token_account \<Rightarrow> near_value \<Rightarrow> exchange_rate \<Rightarrow> ('w, bool) io" where
  "sell_value E c w recorder cfg from_token to_token v rate = (case token_amount_to_u128 (nv_mul_rate v rate) of
     Inl e \<Rightarrow> io_return False
   | Inr amount \<Rightarrow>
       if amount = 0 then io_return False
       else io_bind (io_try (execute_direct_swap E c w (sell_params c recorder from_token to_token amount) cfg))
         (\<lambda>r. io_return (case r of Inr _ \<Rightarrow> True | Inl _ \<Rightarrow> False)))"

fun direct_swaps_phase :: "('w, 'f, 'j) trade_env \<Rightarrow> 'w client \<Rightarrow> wallet \<Rightarrow> trade_recorder \<Rightarrow> config_stores \<Rightarrow>
    direct_swap list \<Rightarrow> phase_counters \<Rightarrow> ('w, phase_counters \<times> sell_operation list \<times> buy_operation list) io" where
  "direct_swaps_phase E c w recorder cfg [] counters = io_return (counters, [], [])"
| "direct_swaps_phase E c w recorder cfg (ds # swaps) counters =
     io_bind (sell_value E c w recorder cfg (ds_sell_token ds) (ds_buy_token ds) (ds_near_value ds)
       (ds_sell_exchange_rate ds)) (\<lambda>ok.
     if ok then direct_swaps_phase E c w recorder cfg swaps (count_success counters)
     else io_bind (direct_swaps_phase E c w recorder cfg swaps (count_failed counters)) (\<lambda>(counters', sells, buys).
       io_return (counters',
         \<lparr>so_token = ds_sell_token ds, so_near_value = ds_near_value ds,
          so_exchange_rate = ds_sell_exchange_rate ds\<rparr> # sells,
         \<lparr>bo_token = ds_buy_token ds, bo_near_value = ds_near_value ds\<rparr> # buys)))"

fun remainder_sells :: "('w, 'f, 'j) trade_env \<Rightarrow> 'w client \<Rightarrow> wallet \<Rightarrow> trade_recorder \<Rightarrow> config_stores \<Rightarrow>
    sell_operation list \<Rightarrow> phase_counters \<Rightarrow> ('w, phase_counters) io" where
  "remainder_sells E c w recorder cfg [] counters = io_return counters"
| "remainder_sells E c w recorder cfg (sell # sells) counters =
     io_bind (sell_value E c w recorder cfg (so_token sell) (WNEAR_TOKEN c) (so_near_value sell) (so_exchange_rate sell))
       (\<lambda>ok. remainder_sells E c w recorder cfg sells ((if ok then count_success else count_failed) counters))"

definition buy_params :: "'w client \<Rightarrow> trade_recorder \<Rightarrow> (token_out_account, f64) btree_map \<Rightarrow> token_account \<Rightarrow>
    u128 option \<Rightarrow> swap_params" where
  "buy_params c recorder expected_returns token amount =
     \<lparr>sp_from_token = to_in (WNEAR_TOKEN c), sp_to_token = TokenOutAccount token,
      sp_swap_amount = amount, sp_recorder = recorder,
      sp_policy = buy_policy (TokenOutAccount token) expected_returns\<rparr>"

text \<open>The amount of wrapped NEAR for a purchase: scaled down when there is not enough, the last one
  taking what is left.\<close>

definition buy_amount :: "bigdecimal \<Rightarrow> u128 \<Rightarrow> rat option \<Rightarrow> bool \<Rightarrow> u128 \<Rightarrow> near_value \<Rightarrow> u128" where
  "buy_amount B avail ratio is_last allocated_sum v =
     (if is_last \<and> ratio \<noteq> None then saturating_sub avail allocated_sum
      else yocto_to_u128 B (yv_to_amount (nv_to_yocto (case ratio of Some r \<Rightarrow> nv_scale v r | None \<Rightarrow> v))))"

fun buy_loop :: "('w, 'f, 'j) trade_env \<Rightarrow> 'w client \<Rightarrow> wallet \<Rightarrow> trade_recorder \<Rightarrow> config_stores \<Rightarrow>
    (token_out_account, f64) btree_map \<Rightarrow> u128 \<Rightarrow> rat option \<Rightarrow> buy_operation list \<Rightarrow> u128 \<Rightarrow> phase_counters \<Rightarrow>
    ('w, phase_counters) io" where
  "buy_loop E c w recorder cfg expected_returns avail ratio [] allocated_sum counters = io_return counters"
| "buy_loop E c w recorder cfg expected_returns avail ratio (buy # buys) allocated_sum counters =
     (let amount = buy_amount (env_decimal E) avail ratio (buys = []) allocated_sum (bo_near_value buy);
          allocated = saturating_add allocated_sum amount
      in if amount = 0
         then buy_loop E c w recorder cfg expected_returns avail ratio buys allocated (count_failed counters)
         else io_bind (io_try (execute_direct_swap E c w
             (buy_params c recorder expected_returns (bo_token buy) (Some amount)) cfg)) (\<lambda>r.
           buy_loop E c w recorder cfg expected_returns avail ratio buys allocated
             ((case r of Inr _ \<Rightarrow> count_success | Inl _ \<Rightarrow> count_failed) counters)))"

definition remainder_buys :: "('w, 'f, 'j) trade_env \<Rightarrow> 'w client \<Rightarrow> wallet \<Rightarrow> trade_recorder \<Rightarrow> config_stores \<Rightarrow>
    (token_out_account, f64) btree_map \<Rightarrow> buy_operation list \<Rightarrow> ('w, phase_counters) io" where
  "remainder_buys E c w recorder cfg expected_returns buys =
     (if buys = [] then io_return no_counts
      else io_bind (get_deposits c (w_account w)) (\<lambda>deposits.
        let avail = wnear_deposit c deposits in
        if avail = 0 then io_return no_counts
        else let available_value = yv_to_near (env_decimal E) (YoctoValue (bd_of avail));
                 total_buy_value = nv_sum (map bo_near_value buys);
                 ratio = (if available_value < total_buy_value
                   then Some (nv_ratio (env_decimal E) available_value total_buy_value) else None)
             in buy_loop E c w recorder cfg expected_returns avail ratio buys 0 no_counts))"

definition rebalance_tokens :: "'w client \<Rightarrow> (token_out_account \<times> rat) list \<Rightarrow> token_account list" where
  "rebalance_tokens c target_weights =
     (let tokens = map (out_inner \<circ> fst) target_weights in
      if TokenOutAccount (WNEAR_TOKEN c) \<in> set (map fst target_weights) then tokens else tokens @ [WNEAR_TOKEN c])"

text \<open>The two sorts of the matching are arguments.\<close>

record sorts =
  sort_sells :: "sell_operation list \<Rightarrow> sell_operation list"
  sort_buys :: "buy_operation list \<Rightarrow> buy_operation list"

text \<open>The direct swaps, the sales and the purchases that are left, and what counts as an error.\<close>

definition rebalance_phases :: "('w, 'f, 'j) trade_env \<Rightarrow> 'w client \<Rightarrow> wallet \<Rightarrow> trade_recorder \<Rightarrow> config_stores \<Rightarrow>
    (token_out_account, f64) btree_map \<Rightarrow> match_result \<Rightarrow> ('w, unit) io" where
  "rebalance_phases E c w recorder cfg expected_returns matched =
     io_bind (direct_swaps_phase E c w recorder cfg (direct_swaps matched) no_counts) (\<lambda>(direct, fallback_sells, fallback_buys).
     io_bind (remainder_sells E c w recorder cfg (remaining_sells matched @ fallback_sells) no_counts) (\<lambda>sold.
     io_bind (remainder_buys E c w recorder cfg expected_returns (remaining_buys matched @ fallback_buys)) (\<lambda>bought.
     let total_success = pc_success direct + pc_success sold + pc_success bought;
         total_failed = pc_failed direct + pc_failed sold + pc_failed bought
     in if total_success = 0 \<and> total_failed > 0
        then io_fail (Msg ''All rebalance operations failed'' [total_failed]) else io_return ())))"

definition execute_rebalance :: "('w, 'f, 'j) trade_env \<Rightarrow> sorts \<Rightarrow> 'w client \<Rightarrow> wallet \<Rightarrow>
    (token_out_account \<times> rat) list \<Rightarrow> string \<Rightarrow> trade_recorder \<Rightarrow> config_stores \<Rightarrow>
    (token_out_account, f64) btree_map \<Rightarrow> ('w, unit) io" where
  "execute_rebalance E S c w target_weights period_id recorder cfg expected_returns =
     io_bind (io_db (get_holdings_from_db E period_id)) (\<lambda>holdings.
     io_bind (case holdings of
         Some h \<Rightarrow> io_return h
       | None \<Rightarrow> get_current_portfolio_balances E c w (rebalance_tokens c target_weights)) (\<lambda>balances.
     io_bind (calculate_total_portfolio_value E c balances) (\<lambda>total_value.
     io_bind (rebalance_operations E c balances total_value target_weights) (\<lambda>(sells, buys).
     rebalance_phases E c w recorder cfg expected_returns
       (match_rebalance_operations (sort_sells S) (sort_buys S) sells buys)))))"

section \<open>Actions\<close>

record action_context =
  ac_recorder :: trade_recorder
  ac_swap_amount_override :: "u128 option"
  ac_evaluation_period_id :: string
  ac_expected_returns :: "(token_out_account, f64) btree_map"

text \<open>Selling and buying all of a balance; \<open>whole_sale\<close> has no protection, a purchase has the one of
  its expected return.\<close>

definition whole_sale :: "'w client \<Rightarrow> trade_recorder \<Rightarrow> token_account \<Rightarrow> swap_params" where
  "whole_sale c recorder token =
     \<lparr>sp_from_token = TokenInAccount token, sp_to_token = to_out (WNEAR_TOKEN c), sp_swap_amount = None,
      sp_recorder = recorder, sp_policy = Unprotected\<rparr>"

definition switch_params :: "action_context \<Rightarrow> token_out_account \<Rightarrow> token_out_account \<Rightarrow> swap_params" where
  "switch_params ctx from_token to_token =
     \<lparr>sp_from_token = TokenInAccount (out_inner from_token), sp_to_token = to_token, sp_swap_amount = None,
      sp_recorder = ac_recorder ctx, sp_policy = buy_policy to_token (ac_expected_returns ctx)\<rparr>"

fun execute_single_action :: "('w, 'f, 'j) trade_env \<Rightarrow> sorts \<Rightarrow> 'w client \<Rightarrow> wallet \<Rightarrow> trading_action \<Rightarrow>
    action_context \<Rightarrow> config_stores \<Rightarrow> ('w, unit) io" where
  "execute_single_action E S c w Hold ctx cfg = io_return ()"
| "execute_single_action E S c w (Sell token target) ctx cfg =
     io_bind (io_when (out_inner token \<noteq> WNEAR_TOKEN c)
       (execute_direct_swap E c w (whole_sale c (ac_recorder ctx) (out_inner token)) cfg)) (\<lambda>_.
     io_when (out_inner target \<noteq> WNEAR_TOKEN c)
       (execute_direct_swap E c w
         (buy_params c (ac_recorder ctx) (ac_expected_returns ctx) (out_inner target) None) cfg))"
| "execute_single_action E S c w (Switch from_token to_token) ctx cfg =
     execute_direct_swap E c w (switch_params ctx from_token to_token) cfg"
| "execute_single_action E S c w (Rebalance target_weights) ctx cfg =
     execute_rebalance E S c w target_weights (ac_evaluation_period_id ctx) (ac_recorder ctx) cfg
       (ac_expected_returns ctx)"
| "execute_single_action E S c w (AddPosition token weight) ctx cfg =
     (if out_inner token = WNEAR_TOKEN c then io_return ()
      else io_bind (io_option (Msg ''No pre-computed swap amount for AddPosition'' []) (ac_swap_amount_override ctx))
        (\<lambda>swap_amount.
        if swap_amount = 0 then io_fail (Msg ''Pre-computed swap amount is 0 for token'' [])
        else execute_direct_swap E c w
          (buy_params c (ac_recorder ctx) (ac_expected_returns ctx) (out_inner token) (Some swap_amount)) cfg))"
| "execute_single_action E S c w (ReducePosition token weight) ctx cfg =
     io_when (out_inner token \<noteq> WNEAR_TOKEN c)
       (execute_direct_swap E c w (whole_sale c (ac_recorder ctx) (out_inner token)) cfg)"

record execution_summary =
  success_count :: nat
  failed_count :: nat

fun actions_loop :: "('w, 'f, 'j) trade_env \<Rightarrow> sorts \<Rightarrow> 'w client \<Rightarrow> wallet \<Rightarrow> trade_recorder \<Rightarrow>
    (nat \<rightharpoonup> u128) \<Rightarrow> string \<Rightarrow> config_stores \<Rightarrow> (token_out_account, f64) btree_map \<Rightarrow>
    (nat \<times> trading_action) list \<Rightarrow> execution_summary \<Rightarrow> ('w, execution_summary) io" where
  "actions_loop E S c w recorder add_amounts period_id cfg expected_returns [] summary = io_return summary"
| "actions_loop E S c w recorder add_amounts period_id cfg expected_returns ((idx, action) # actions) summary =
     io_bind (io_try (execute_single_action E S c w action
       \<lparr>ac_recorder = recorder, ac_swap_amount_override = add_amounts idx, ac_evaluation_period_id = period_id,
        ac_expected_returns = expected_returns\<rparr> cfg)) (\<lambda>r.
     actions_loop E S c w recorder add_amounts period_id cfg expected_returns actions (case r of
         Inr _ \<Rightarrow> summary\<lparr>success_count := success_count summary + 1\<rparr>
       | Inl _ \<Rightarrow> summary\<lparr>failed_count := failed_count summary + 1\<rparr>))"

definition execute_trading_actions :: "('w, 'f, 'j) trade_env \<Rightarrow> sorts \<Rightarrow> 'w client \<Rightarrow> wallet \<Rightarrow>
    trading_action list \<Rightarrow> string \<Rightarrow> config_stores \<Rightarrow> (token_out_account, f64) btree_map \<Rightarrow>
    ('w, execution_summary) io" where
  "execute_trading_actions E S c w actions period_id cfg expected_returns =
     io_bind (recorder_new E period_id) (\<lambda>recorder.
     io_bind (precompute_add_position_amounts E c w actions) (\<lambda>add_amounts.
     actions_loop E S c w recorder add_amounts period_id cfg expected_returns (enumerate 0 actions)
       \<lparr>success_count = 0, failed_count = 0\<rparr>))"

section \<open>Liquidation\<close>

record liquidation_result =
  lr_wrap_near_balance :: yocto_amount
  lr_failed_tokens :: "token_account list"

definition filter_tokens_to_liquidate :: "(token_account, u128) btree_map \<Rightarrow> token_account \<Rightarrow> token_account list" where
  "filter_tokens_to_liquidate deposits wrap_near_token =
     map fst (filter (\<lambda>(token, amount). token \<noteq> wrap_near_token \<and> amount > 0) deposits)"

fun liquidate_loop :: "('w, 'f, 'j) trade_env \<Rightarrow> 'w client \<Rightarrow> wallet \<Rightarrow> trade_recorder \<Rightarrow> config_stores \<Rightarrow>
    token_account list \<Rightarrow> ('w, token_account list) io" where
  "liquidate_loop E c w recorder cfg [] = io_return []"
| "liquidate_loop E c w recorder cfg (token # tokens) =
     io_bind (get_deposits c (w_account w)) (\<lambda>deposits.
     if (case map_of deposits token of Some u \<Rightarrow> u | None \<Rightarrow> 0) = 0
     then liquidate_loop E c w recorder cfg tokens
     else io_bind (io_try (execute_direct_swap E c w (whole_sale c recorder token) cfg)) (\<lambda>r.
       io_bind (liquidate_loop E c w recorder cfg tokens) (\<lambda>failed_tokens.
       io_return ((case r of Inr _ \<Rightarrow> [] | Inl _ \<Rightarrow> [token]) @ failed_tokens))))"

definition liquidate_all_positions :: "('w, 'f, 'j) trade_env \<Rightarrow> 'w client \<Rightarrow> wallet \<Rightarrow> config_stores \<Rightarrow>
    ('w, liquidation_result) io" where
  "liquidate_all_positions E c w cfg =
     io_bind (io_db (period_get_latest (te_periods E))) (\<lambda>latest_period. case latest_period of
       None \<Rightarrow> io_return \<lparr>lr_wrap_near_balance = yocto_zero, lr_failed_tokens = []\<rparr>
     | Some period \<Rightarrow>
       io_bind (get_deposits c (w_account w)) (\<lambda>deposits.
       let tokens_to_liquidate = filter_tokens_to_liquidate deposits (WNEAR_TOKEN c) in
       if tokens_to_liquidate = []
       then io_return \<lparr>lr_wrap_near_balance = yocto_from_u128 (wnear_deposit c deposits), lr_failed_tokens = []\<rparr>
       else io_bind (recorder_new E (ep_period_id period)) (\<lambda>recorder.
         io_bind (liquidate_loop E c w recorder cfg tokens_to_liquidate) (\<lambda>failed_tokens.
         io_bind (get_deposits c (w_account w)) (\<lambda>deposits.
         io_return \<lparr>lr_wrap_near_balance = yocto_from_u128 (wnear_deposit c deposits),
           lr_failed_tokens = failed_tokens\<rparr>)))))"

section \<open>Stopping\<close>

definition stop_account :: "config_stores \<Rightarrow> string option" where
  "stop_account cfg = (case harvest_account_id cfg of Inr v \<Rightarrow> if v = '''' then None else Some v | Inl _ \<Rightarrow> None)"

definition stop_reserve :: "bigdecimal \<Rightarrow> config_stores \<Rightarrow> u128" where
  "stop_reserve B cfg = (let reserve = yocto_to_u128 B (harvest_reserve_yocto cfg) in
     if reserve = 0 then DEFAULT_HARVEST_RESERVE else reserve)"

definition unwrap_and_transfer_wnear :: "('w, 'f, 'j) trade_env \<Rightarrow> 'w client \<Rightarrow> wallet \<Rightarrow> config_stores \<Rightarrow>
    ('w, unit) io" where
  "unwrap_and_transfer_wnear E c w cfg = (case stop_account cfg of
     None \<Rightarrow> io_return ()
   | Some v \<Rightarrow>
     io_bind (io_option (Msg ''Invalid HARVEST_ACCOUNT_ID'' []) (env_account E v)) (\<lambda>harvest_account.
     if harvest_account = w_account w then io_return ()
     else let reserve = stop_reserve (env_decimal E) cfg in
       io_bind (get_deposits c (w_account w)) (\<lambda>deposits.
       let wnear_balance = wnear_deposit c deposits in
       if wnear_balance = 0 then io_return ()
       else
       io_bind (withdraw c w (WNEAR_TOKEN c) wnear_balance) (\<lambda>withdraw_tx.
       io_bind (wait_or_fail c withdraw_tx ''Withdraw failed'') (\<lambda>_.
       io_bind (wnear_unwrap c w wnear_balance) (\<lambda>unwrap_tx.
       io_bind (wait_or_fail c unwrap_tx ''Unwrap failed'') (\<lambda>_.
       io_bind (get_native_amount c (w_account w)) (\<lambda>native.
       if native > reserve
       then let available_for_transfer = saturating_sub native reserve in
         if available_for_transfer = 0 then io_return ()
         else io_bind (transfer_native_token c (w_signer w) harvest_account available_for_transfer) (\<lambda>sent_tx.
           io_bind (wait_for_executed c sent_tx) (\<lambda>_. io_return ()))
       else io_return ()))))))))"

section \<open>Evaluation periods\<close>

record evaluation_period_result =
  er_period_id :: string
  er_is_new_period :: bool
  er_existing_tokens :: "token_account list"
  er_liquidated_balance :: "yocto_amount option"
  er_failed_liquidations :: "token_account list"

text \<open>\<^verbatim>\<open>TimeDelta::num_days\<close> of microseconds, towards zero.\<close>

definition num_days :: "int \<Rightarrow> int" where
  "num_days d = (if d < 0 then - ((- d) div 86400000000) else d div 86400000000)"

text \<open>\<^verbatim>\<open>NewEvaluationPeriod::new\<close> with its identifier and time, and \<^verbatim>\<open>insert_async\<close>.\<close>

definition create_period :: "('w, 'f, 'j) trade_env \<Rightarrow> yocto_amount \<Rightarrow> ('w, evaluation_period) io" where
  "create_period E initial_value =
     io_bind (io_uuid E) (\<lambda>uuid. io_bind (io_utc (env_clock E)) (\<lambda>now.
     io_db (period_insert (te_periods E) (new_period uuid now initial_value []))))"

definition parse_selected_tokens :: "(string \<Rightarrow> token_account option) \<Rightarrow> string option list option \<Rightarrow>
    token_account list" where
  "parse_selected_tokens parse tokens =
     List.map_filter parse (List.map_filter id (case tokens of Some ts \<Rightarrow> ts | None \<Rightarrow> []))"

definition post_harvest_balance :: "'w client \<Rightarrow> wallet \<Rightarrow> yocto_amount \<Rightarrow> yocto_amount \<Rightarrow> ('w, yocto_amount) io" where
  "post_harvest_balance c w harvested final_balance =
     (if yocto_is_zero harvested then io_return final_balance
      else io_bind (get_deposits c (w_account w)) (\<lambda>deposits.
        io_return (yocto_from_u128 (wnear_deposit c deposits))))"

definition end_period :: "('w, 'f, 'j) trade_env \<Rightarrow> 'w client \<Rightarrow> wallet \<Rightarrow> evaluation_period \<Rightarrow> config_stores \<Rightarrow>
    ('w, evaluation_period_result) io" where
  "end_period E c w period cfg =
     io_bind (liquidate_all_positions E c w cfg) (\<lambda>liquidation.
     let initial_value = yocto_to_value (ep_initial_value period);
         final_value = yocto_to_value (lr_wrap_near_balance liquidation) in
     io_bind (io_try (check_and_execute_harvest E c w initial_value final_value (ep_period_id period) cfg)) (\<lambda>h.
     let harvested = (case h of Inr a \<Rightarrow> a | Inl _ \<Rightarrow> yocto_zero) in
     io_bind (post_harvest_balance c w harvested (lr_wrap_near_balance liquidation)) (\<lambda>balance.
     if \<not> trade_enabled cfg
     then io_bind (if trade_unwrap_on_stop cfg
           then io_bind (io_try (unwrap_and_transfer_wnear E c w cfg)) (\<lambda>_. io_return ()) else io_return ()) (\<lambda>_.
         io_return \<lparr>er_period_id = '''', er_is_new_period = False, er_existing_tokens = [],
           er_liquidated_balance = Some balance, er_failed_liquidations = lr_failed_tokens liquidation\<rparr>)
     else io_bind (create_period E (yv_to_amount (yocto_to_value balance))) (\<lambda>created.
         io_return \<lparr>er_period_id = ep_period_id created, er_is_new_period = True, er_existing_tokens = [],
           er_liquidated_balance = Some balance, er_failed_liquidations = lr_failed_tokens liquidation\<rparr>))))"

definition manage_evaluation_period :: "('w, 'f, 'j) trade_env \<Rightarrow> 'w client \<Rightarrow> wallet \<Rightarrow> int \<Rightarrow> yocto_amount \<Rightarrow>
    config_stores \<Rightarrow> ('w, evaluation_period_result) io" where
  "manage_evaluation_period E c w current_time available_funds cfg =
     io_bind (io_db (period_get_latest (te_periods E))) (\<lambda>latest_period. case latest_period of
       Some period \<Rightarrow>
         if num_days (current_time - ep_start_time period) \<ge> int (unat (trade_evaluation_days cfg))
         then end_period E c w period cfg
         else io_bind (io_db (count_by_evaluation_period (te_trades E) (ep_period_id period))) (\<lambda>transaction_count.
           let selected_tokens = parse_selected_tokens (parse_token (te_rate_codec E)) (ep_selected_tokens period) in
           io_return \<lparr>er_period_id = ep_period_id period,
             er_is_new_period = (selected_tokens = [] \<and> transaction_count = 0),
             er_existing_tokens = selected_tokens, er_liquidated_balance = None, er_failed_liquidations = []\<rparr>)
     | None \<Rightarrow> io_bind (create_period E available_funds) (\<lambda>created.
         io_return \<lparr>er_period_id = ep_period_id created, er_is_new_period = True, er_existing_tokens = [],
           er_liquidated_balance = None, er_failed_liquidations = []\<rparr>))"

section \<open>The balance is divided up\<close>

lemma div_split:
  fixes b x T :: nat
  assumes "0 < T"
  shows "b div T * x + b mod T * x div T = b * x div T"
proof -
  have "b * x = b mod T * x + T * (b div T * x)"
    by (metis add.commute add_mult_distrib mult.assoc mult_div_mod_eq)
  with assms show ?thesis by (simp add: add.commute)
qed

lemma unat_share:
  fixes b x T :: u128
  assumes "0 < T" "x \<le> T" "unat T * unat T < 2 ^ 128"
  shows "unat (b div T * x + b mod T * x div T) = unat b * unat x div unat T"
proof -
  have T: "0 < unat T" and x: "unat x \<le> unat T" using assms by (auto simp: word_less_nat_alt word_le_nat_alt)
  have "unat b div unat T * unat x \<le> unat b div unat T * unat T" using x by simp
  also have "\<dots> \<le> unat b" by (simp add: div_times_less_eq_dividend)
  finally have "unat (b div T) * unat x < 2 ^ 128" using unsigned_less [of b, where 'a = nat] by (simp add: unat_div)
  then have 1: "unat (b div T * x) = unat b div unat T * unat x"
    by (simp add: unat_mult_lem [THEN iffD1] unat_div)
  have "unat b mod unat T * unat x \<le> unat T * unat T"
    using T x by (intro mult_le_mono) (simp_all add: less_imp_le)
  with assms(3) have "unat (b mod T) * unat x < 2 ^ 128" by (simp add: unat_mod)
  then have 2: "unat (b mod T * x div T) = unat b mod unat T * unat x div unat T"
    by (simp add: unat_mult_lem [THEN iffD1] unat_mod unat_div)
  have "unat b * unat x div unat T \<le> unat b" using T x
    by (metis div_le_mono div_mult_self_is_m mult_le_mono2)
  then have "unat (b div T * x) + unat (b mod T * x div T) < 2 ^ 128"
    using unsigned_less [of b, where 'a = nat] by (simp add: 1 2 div_split [OF T])
  then show ?thesis by (simp add: unat_add_lem [THEN iffD1] 1 2 div_split [OF T])
qed

lemma allocate_loop_sum:
  assumes "ws \<noteq> []" "unat T * unat T < 2 ^ 128" "\<forall>(i, x) \<in> set ws. x \<le> T"
    and "unat a + (\<Sum>(i, x) \<leftarrow> ws. unat b * unat x div unat T) \<le> unat b"
  shows "(\<Sum>(i, x) \<leftarrow> allocate_loop b T ws a. unat x) + unat a = unat b"
  using assms
proof (induction b T ws a rule: allocate_loop.induct)
  case (2 b T i x ws a)
  show ?case
  proof (cases "ws = []")
    case True
    with 2(5) show ?thesis by (simp add: unat_saturating_sub)
  next
    case False
    define y where "y = (if T > 0 then b div T * x + b mod T * x div T else 0)"
    have y: "unat y = unat b * unat x div unat T"
      using unat_share [of T x b] 2(3,4) by (auto simp: y_def word_less_nat_alt)
    then have sum: "unat (saturating_add a y) = unat a + unat y"
      using 2(5) unsigned_less [of b, where 'a = nat] by (simp add: unat_saturating_add)
    have "(\<Sum>(i, x) \<leftarrow> allocate_loop b T ws (saturating_add a y). unat x) + unat (saturating_add a y) = unat b"
      by (rule 2(1) [of y]) (use False 2(3-5) y sum in \<open>auto simp: y_def\<close>)
    then show ?thesis using False sum by (simp add: y_def [symmetric])
  qed
qed simp

lemma allocate_loop_index [simp]: "map fst (allocate_loop b T ws a) = map fst ws"
  by (induction b T ws a rule: allocate_loop.induct) (auto simp: Let_def)

lemma sum_div_le:
  fixes xs :: "nat list"
  shows "(\<Sum>x \<leftarrow> xs. b * x div t) \<le> b * sum_list xs div t"
proof (cases "t = 0")
  case False
  show ?thesis
  proof (induction xs)
    case (Cons x xs)
    have "b * x div t + b * sum_list xs div t \<le> (b * x + b * sum_list xs) div t"
      using False by (metis div_add1_eq le_add1)
    with Cons show ?case by (simp add: distrib_left)
  qed simp
qed simp

lemma unat_sum_list:
  fixes xs :: "u128 list"
  assumes "sum_list (map unat xs) < 2 ^ 128"
  shows "unat (sum_list xs) = sum_list (map unat xs)"
  using assms by (induction xs) (auto simp: unat_add_lem [THEN iffD1])

lemma weight_bps_le:
  assumes "bigdecimal_spec B" "0 < W" "0 \<le> v"
  shows "of_nat (unat (weight_bps B W v)) \<le> v / W * (10000 + 1 / 10)"
proof -
  define q where "q = bd_div B v W * 10000"
  have "\<bar>bd_div B v W - v / W\<bar> \<le> v / W / 10 ^ 99" using bd_div_error [OF assms(1), of W v] assms by simp
  then have "bd_div B v W \<le> v / W * (1 + 1 / 10 ^ 99)" by (simp add: algebra_simps)
  then have "q \<le> v / W * (1 + 1 / 10 ^ 99) * 10000" unfolding q_def by (rule mult_right_mono) simp
  also have "\<dots> = v / W * ((1 + 1 / 10 ^ 99) * 10000)" by simp
  also have "\<dots> \<le> v / W * (10000 + 1 / 10)" by (rule mult_left_mono) (use assms in simp_all)
  finally have q: "q \<le> v / W * (10000 + 1 / 10)" .
  have "of_nat (unat (case bd_to_u128 B q of Some x \<Rightarrow> x | None \<Rightarrow> 0)) \<le> max 0 q"
    using assms(1) floor_tenth [OF assms(1), of q]
    by (cases "0 < q") (auto simp: yocto_to_u128_def bd_to_u128_eq split: option.splits)
  moreover have "0 \<le> v / W * (10000 + 1 / 10)" using assms by simp
  ultimately show ?thesis using q assms(2) by (auto simp: weight_bps_def q_def [symmetric] max_def split: if_splits)
qed

lemma sum_weights_bps:
  fixes vs :: "rat list"
  assumes "bigdecimal_spec B" "\<forall>v \<in> set vs. 0 \<le> v"
  shows "(\<Sum>v \<leftarrow> vs. unat (weight_bps B (sum_list vs) v)) \<le> 10000"
proof (cases "sum_list vs = 0")
  case False
  define W where "W = sum_list vs"
  have W: "0 < W" using False assms(2) by (simp add: W_def less_le sum_list_nonneg)
  have "(of_nat (\<Sum>v \<leftarrow> us. unat (weight_bps B W v)) :: rat) \<le> sum_list us / W * (10000 + 1 / 10)"
    if "\<forall>v \<in> set us. 0 \<le> v" for us
    using that
  proof (induction us)
    case (Cons u us)
    with weight_bps_le [OF assms(1) W, of u] show ?case by (simp add: add_divide_distrib distrib_right)
  qed simp
  from this [OF assms(2)] have "(of_nat (\<Sum>v \<leftarrow> vs. unat (weight_bps B W v)) :: rat) \<le> 10000 + 1 / 10"
    using W by (simp add: W_def [symmetric])
  then have "(of_nat (\<Sum>v \<leftarrow> vs. unat (weight_bps B W v)) :: rat) < of_nat 10001" by simp
  then show ?thesis unfolding W_def of_nat_less_iff by simp
qed (simp add: weight_bps_def)

text \<open>
  C31. The wrapped NEAR is divided among the positions to be added without remainder: each action
  gets one amount, and the amounts add up to exactly the balance, although the weights are
  rounded to basis points and the shares are truncated.
\<close>

theorem allocation_uses_balance:
  assumes "bigdecimal_spec B" "add_positions \<noteq> []" "\<forall>(i, v) \<in> set add_positions. 0 \<le> v"
  shows "map fst (allocate_add_position_amounts B add_positions balance) = map fst add_positions \<and>
    (\<Sum>(i, amount) \<leftarrow> allocate_add_position_amounts B add_positions balance. unat amount) = unat balance"
proof -
  define W where "W = sum_list (map snd add_positions)"
  define ws where "ws = map (\<lambda>(i, v). (i, weight_bps B W v)) add_positions"
  have eq: "allocate_add_position_amounts B add_positions balance =
      allocate_loop balance (sum_list (map snd ws)) ws 0"
    by (simp add: allocate_add_position_amounts_def Let_def W_def ws_def)
  have bps: "map snd ws = map (weight_bps B W) (map snd add_positions)" by (auto simp: ws_def)
  have "(\<Sum>x \<leftarrow> map snd ws. unat x) \<le> 10000"
    unfolding bps map_map o_def using sum_weights_bps [OF assms(1), of "map snd add_positions"] assms(3)
    by (fastforce simp: W_def o_def)
  then have T: "unat (sum_list (map snd ws)) = (\<Sum>x \<leftarrow> map snd ws. unat x)" "unat (sum_list (map snd ws)) \<le> 10000"
    using unat_sum_list [of "map snd ws"] by simp_all
  have shares: "(\<Sum>(i, x) \<leftarrow> ws. unat balance * unat x div unat (sum_list (map snd ws))) \<le> unat balance"
    using sum_div_le [of "unat balance" "unat (sum_list (map snd ws))" "map (unat \<circ> snd) ws"] T(1)
    by (cases "unat (sum_list (map snd ws)) = 0") (simp_all add: o_def case_prod_unfold split: if_splits)
  have "\<forall>(i, x) \<in> set ws. x \<le> sum_list (map snd ws)"
    using T(1) member_le_sum_list [of _ "map unat (map snd ws)"]
    by (force simp: word_le_nat_alt)
  moreover have "unat (sum_list (map snd ws)) * unat (sum_list (map snd ws)) < 2 ^ 128"
    using mult_le_mono [OF T(2) T(2)] by simp
  moreover have "ws \<noteq> []" using assms(2) by (simp add: ws_def)
  ultimately have "(\<Sum>(i, x) \<leftarrow> allocate_loop balance (sum_list (map snd ws)) ws 0. unat x) + unat (0::u128) = unat balance"
    using shares by (intro allocate_loop_sum) simp_all
  then show ?thesis by (auto simp: eq) (auto simp: ws_def)
qed

theorem allocation_uses_balance_witness:
  "(\<Sum>(i, amount) \<leftarrow> allocate_add_position_amounts exact_decimal [(0, 1), (2, 2), (3, 4)] 1000. unat amount) = 1000"
  using allocation_uses_balance [OF exact_decimal_spec, of "[(0, 1), (2, 2), (3, 4)]" 1000] by simp

end
