(* ===== verification/Rebalance_Swaps.thy ===== *)
theory Rebalance_Swaps
  imports Execution
begin

text \<open>
  The swaps of \<^verbatim>\<open>trade/src/execution.rs\<close> as sequences of direct swaps: what the phases of a rebalancing
  sell and buy, and that the purchases fit into the deposit they are scaled to.
\<close>

section \<open>Swaps one after the other\<close>

fun swaps_in_turn :: "bigdecimal \<Rightarrow> 'w client \<Rightarrow> wallet \<Rightarrow> swap_params list \<Rightarrow> event list \<Rightarrow> bool" where
  "swaps_in_turn B c w [] es \<longleftrightarrow> es = []"
| "swaps_in_turn B c w (p # ps) es \<longleftrightarrow> (\<exists>xs ys (r :: unit outcome). es = xs @ ys \<and>
     direct_swap_trace B c w p xs r \<and> swaps_in_turn B c w ps ys)"

lemma swaps_in_turn_append:
  "swaps_in_turn B c w ps es \<Longrightarrow> swaps_in_turn B c w qs es' \<Longrightarrow> swaps_in_turn B c w (ps @ qs) (es @ es')"
proof (induction ps arbitrary: es)
  case (Cons p ps)
  then obtain xs ys r where "es = xs @ ys" "direct_swap_trace B c w p xs (r :: unit outcome)" "swaps_in_turn B c w ps ys"
    by auto
  moreover from this Cons have "swaps_in_turn B c w (ps @ qs) (ys @ es')" by blast
  ultimately show ?case unfolding append_Cons swaps_in_turn.simps
    by (intro exI [of _ xs] exI [of _ "ys @ es'"] exI [of _ r]) simp
qed simp

definition asked :: "swap_params \<Rightarrow> nat" where
  "asked p = (case sp_swap_amount p of Some a \<Rightarrow> unat a | None \<Rightarrow> 0)"

text \<open>Swaps that all satisfy \<open>P\<close> and together ask for at most \<open>n\<close>.\<close>

definition swapping :: "bigdecimal \<Rightarrow> 'w client \<Rightarrow> wallet \<Rightarrow> (swap_params \<Rightarrow> bool) \<Rightarrow> nat \<Rightarrow> event list \<Rightarrow> bool" where
  "swapping B c w P n es \<longleftrightarrow> (\<exists>ps. swaps_in_turn B c w ps es \<and> (\<forall>p \<in> set ps. P p) \<and> sum_list (map asked ps) \<le> n)"

lemma swapping_Nil [simp]: "swapping B c w P n []"
  unfolding swapping_def by (rule exI [of _ "[]"]) simp

lemma swapping_append:
  assumes "swapping B c w P n es" "swapping B c w P m es'" "n + m \<le> k"
  shows "swapping B c w P k (es @ es')"
proof -
  from assms obtain ps qs where "swaps_in_turn B c w ps es" "\<forall>p \<in> set ps. P p" "sum_list (map asked ps) \<le> n"
    "swaps_in_turn B c w qs es'" "\<forall>p \<in> set qs. P p" "sum_list (map asked qs) \<le> m"
    unfolding swapping_def by blast
  with swaps_in_turn_append [of B c w ps es qs es'] show ?thesis
    unfolding swapping_def using assms(3) by (intro exI [of _ "ps @ qs"]) auto
qed

lemma emits_swap:
  assumes "P params"
  shows "emits (execute_direct_swap E c w params cfg) (\<lambda>es r. swapping (env_decimal E) c w P (asked params) es)"
  by (rule emits_conseq [OF emits_execute_direct_swap])
    (use assms in \<open>auto simp: swapping_def intro!: exI [of _ "[params]"]\<close>)

lemma emits_try_swap:
  assumes "P params"
  shows "emits (io_try (execute_direct_swap E c w params cfg)) (\<lambda>es r. swapping (env_decimal E) c w P (asked params) es)"
  by (rule emits_try, rule emits_conseq [OF emits_swap [of P, OF assms]]) (simp split: outcome.splits)

lemma emits_swapping_bind:
  assumes "emits m (\<lambda>es r. swapping B c w P n es)" "\<And>x. emits (f x) (\<lambda>es r. swapping B c w P k es)" "n + k \<le> l"
  shows "emits (io_bind m f) (\<lambda>es r. swapping B c w P l es)"
proof -
  have 0: "swapping B c w P l es" if "swapping B c w P n es" for es
    using swapping_append [OF that swapping_Nil [of B c w P k] assms(3)] by simp
  show ?thesis
    by (rule emits_seq [OF assms(1)])
      (auto intro: 0 intro!: emits_conseq [OF assms(2)] swapping_append [OF _ _ assms(3)])
qed

section \<open>Sales\<close>

text \<open>A sale of a rebalancing: of one of the tokens \<open>T\<close>, for another of them or for wrapped NEAR.\<close>

definition is_sale :: "'w client \<Rightarrow> token_account set \<Rightarrow> swap_params \<Rightarrow> bool" where
  "is_sale c T p \<longleftrightarrow> in_inner (sp_from_token p) \<in> T \<and> out_inner (sp_to_token p) \<in> insert (WNEAR_TOKEN c) T \<and>
     sp_policy p = Unprotected \<and> sp_swap_amount p \<noteq> None"

text \<open>There is no bound on the total of the sales: each is of its own token.\<close>

definition selling :: "bigdecimal \<Rightarrow> 'w client \<Rightarrow> wallet \<Rightarrow> token_account set \<Rightarrow> event list \<Rightarrow> bool" where
  "selling B c w T es \<longleftrightarrow> (\<exists>n. swapping B c w (is_sale c T) n es)"

lemma selling_Nil [simp]: "selling B c w T []"
  by (simp add: selling_def)

lemma selling_append: "selling B c w T es \<Longrightarrow> selling B c w T es' \<Longrightarrow> selling B c w T (es @ es')"
  unfolding selling_def by (blast intro: swapping_append)

lemma emits_selling_bind:
  assumes "emits m (\<lambda>es r. selling B c w T es)" "\<And>x. emits (f x) (\<lambda>es r. selling B c w T es)"
  shows "emits (io_bind m f) (\<lambda>es r. selling B c w T es)"
  by (rule emits_seq [OF assms(1)]) (auto intro!: emits_conseq [OF assms(2)] selling_append)

lemma emits_sell_value:
  assumes "from_token \<in> T" "to_token \<in> insert (WNEAR_TOKEN c) T"
  shows "emits (sell_value E c w recorder cfg from_token to_token v rate) (\<lambda>es r. selling (env_decimal E) c w T es)"
proof -
  have "emits (io_try (execute_direct_swap E c w (sell_params c recorder from_token to_token a) cfg))
      (\<lambda>es r. selling (env_decimal E) c w T es)" for a
    by (rule emits_conseq [OF emits_try_swap [of "is_sale c T"]])
      (use assms in \<open>auto simp: is_sale_def sell_params_def selling_def\<close>)
  then show ?thesis unfolding sell_value_def
    by (auto split: sum.splits intro!: emits_return emits_selling_bind)
qed

text \<open>What a direct swap that failed hands to the next phases is an operation of it.\<close>

definition falls_back :: "direct_swap list \<Rightarrow> sell_operation list \<Rightarrow> buy_operation list \<Rightarrow> bool" where
  "falls_back ds ss bs \<longleftrightarrow> so_token ` set ss \<subseteq> ds_sell_token ` set ds \<and>
     (\<lambda>b. (bo_token b, bo_near_value b)) ` set bs \<subseteq> (\<lambda>d. (ds_buy_token d, ds_near_value d)) ` set ds"

lemma falls_back_mono: "falls_back ds ss bs \<Longrightarrow> falls_back (d # ds) ss bs"
  unfolding falls_back_def by auto

lemma falls_back_Cons:
  "falls_back ds ss bs \<Longrightarrow> falls_back (d # ds)
    (\<lparr>so_token = ds_sell_token d, so_near_value = v, so_exchange_rate = r\<rparr> # ss)
    (\<lparr>bo_token = ds_buy_token d, bo_near_value = ds_near_value d\<rparr> # bs)"
  unfolding falls_back_def by auto

lemma emits_direct_swaps_phase:
  assumes "\<forall>d \<in> set ds. ds_sell_token d \<in> T \<and> ds_buy_token d \<in> T"
  shows "emits (direct_swaps_phase E c w recorder cfg ds k) (\<lambda>es r. selling (env_decimal E) c w T es \<and>
    (\<forall>k' ss bs. r = Ok (k', ss, bs) \<longrightarrow> falls_back ds ss bs))"
  using assms
proof (induction ds arbitrary: k)
  case (Cons d ds)
  have IH: "emits (direct_swaps_phase E c w recorder cfg ds k) (\<lambda>es r. selling (env_decimal E) c w T es \<and>
    (\<forall>k' ss bs. r = Ok (k', ss, bs) \<longrightarrow> falls_back ds ss bs))" for k using Cons by simp
  have d: "ds_sell_token d \<in> T" "ds_buy_token d \<in> insert (WNEAR_TOKEN c) T" using Cons.prems by simp_all
  show ?case unfolding direct_swaps_phase.simps
    by (rule emits_seq [OF emits_sell_value [OF d]], rule emits_if, rule emits_conseq [OF IH],
        blast intro: selling_append falls_back_mono, rule emits_seq [OF IH])
      (auto intro: selling_append falls_back_Cons intro!: emits_return)
qed (auto intro!: emits_return simp: falls_back_def)

lemma emits_remainder_sells:
  assumes "\<forall>s \<in> set ss. so_token s \<in> T"
  shows "emits (remainder_sells E c w recorder cfg ss k) (\<lambda>es r. selling (env_decimal E) c w T es)"
  using assms
proof (induction ss arbitrary: k)
  case (Cons s ss)
  then show ?case by (auto intro!: emits_selling_bind emits_sell_value)
qed (auto intro: emits_return)

section \<open>Purchases\<close>

definition is_purchase :: "'w client \<Rightarrow> token_account set \<Rightarrow> (token_out_account, f64) btree_map \<Rightarrow> swap_params \<Rightarrow> bool" where
  "is_purchase c T er p \<longleftrightarrow> in_inner (sp_from_token p) = WNEAR_TOKEN c \<and> out_inner (sp_to_token p) \<in> T \<and>
     sp_policy p = buy_policy (sp_to_token p) er \<and> sp_swap_amount p \<noteq> None"

fun buy_amounts :: "bigdecimal \<Rightarrow> u128 \<Rightarrow> rat option \<Rightarrow> buy_operation list \<Rightarrow> u128 \<Rightarrow> u128 list" where
  "buy_amounts B d ratio [] a = []"
| "buy_amounts B d ratio (b # bs) a = (let x = buy_amount B d ratio (bs = []) a (bo_near_value b) in
     x # buy_amounts B d ratio bs (saturating_add a x))"

lemma emits_buy_loop:
  assumes "\<forall>b \<in> set bs. bo_token b \<in> T"
  shows "emits (buy_loop E c w recorder cfg er d ratio bs a k) (\<lambda>es r. swapping (env_decimal E) c w (is_purchase c T er)
    (sum_list (map unat (buy_amounts (env_decimal E) d ratio bs a))) es)"
  using assms
proof (induction bs arbitrary: a k)
  case (Cons b bs)
  let ?x = "buy_amount (env_decimal E) d ratio (bs = []) a (bo_near_value b)"
  show ?case unfolding buy_loop.simps Let_def
  proof (rule emits_if, goal_cases)
    case 1
    then show ?case using Cons.IH [of "saturating_add a ?x"] Cons.prems by (simp add: Let_def)
  next
    case 2
    have "is_purchase c T er (buy_params c recorder er (bo_token b) (Some ?x))"
      using Cons.prems by (simp add: is_purchase_def buy_params_def to_in_def)
    from emits_try_swap [of "is_purchase c T er", OF this] show ?case
      by (rule emits_swapping_bind [OF _ Cons.IH])
        (use Cons.prems in \<open>auto simp: asked_def buy_params_def Let_def\<close>)
  qed
qed (auto intro: emits_return)

lemma unat_amount_le:
  assumes "bigdecimal_spec B" "0 \<le> v"
  shows "of_nat (unat (yocto_to_u128 B (yv_to_amount (nv_to_yocto (NearValue v))))) \<le> v * 10 ^ 24"
proof (cases "v = 0")
  case True
  then show ?thesis using assms by (simp add: yocto_to_u128_def yv_to_amount_def nv_to_yocto_def bd_to_u128_eq)
next
  case False
  with assms floor_tenth [OF assms(1), of "v * 10 ^ 24"] show ?thesis
    by (simp add: yv_to_amount_def nv_to_yocto_def bd_of_def YOCTO_PER_NEAR_def)
qed

text \<open>The shares of the purchases, truncated, stay within the balance; the factor may be rounded up by
  less than one unit of it.\<close>

lemma sum_buy_amounts:
  fixes ratio :: "rat option"
  defines "g \<equiv> case ratio of Some r \<Rightarrow> r | None \<Rightarrow> 1"
  assumes "bigdecimal_spec B" "0 \<le> g" "\<forall>b \<in> set bs. nv_zero \<le> bo_near_value b"
    and "of_nat (unat a) + g * (\<Sum>b \<leftarrow> bs. nv_val (bo_near_value b)) * 10 ^ 24 < of_nat (unat d) + (1::rat)"
  shows "unat a + sum_list (map unat (buy_amounts B d ratio bs a)) \<le> unat d"
  using assms(4,5)
proof (induction bs arbitrary: a)
  case Nil
  then have "(of_nat (unat a) :: rat) < of_nat (unat d + 1)" by simp
  then show ?case unfolding of_nat_less_iff by simp
next
  case (Cons b bs)
  define v where "v = nv_val (bo_near_value b)"
  define x where "x = buy_amount B d ratio (bs = []) a (bo_near_value b)"
  have v: "0 \<le> v" using Cons.prems(1) by (simp add: v_def near_value_order)
  have rest: "0 \<le> (\<Sum>b \<leftarrow> bs. nv_val (bo_near_value b))"
    using Cons.prems(1) by (auto simp: near_value_order intro!: sum_list_nonneg)
  show ?case
  proof (cases "bs = [] \<and> ratio \<noteq> None")
    case True
    have "0 \<le> g * v * 10 ^ 24" using v assms(3) by simp
    then have "(of_nat (unat a) :: rat) < of_nat (unat d + 1)"
      using Cons.prems(2) True by (simp add: v_def)
    then have "unat a \<le> unat d" unfolding of_nat_less_iff by simp
    then show ?thesis using True by (auto simp: buy_amount_def unat_saturating_sub)
  next
    case False
    then have "x = yocto_to_u128 B (yv_to_amount (nv_to_yocto (NearValue (v * g))))"
      by (auto simp: x_def buy_amount_def nv_scale_def v_def g_def split: option.splits)
    with unat_amount_le [OF assms(2), of "v * g"] v assms(3)
    have x: "of_nat (unat x) \<le> g * v * 10 ^ 24" by (simp add: mult.commute)
    have sum: "of_nat (unat a) + of_nat (unat x) + g * (\<Sum>b \<leftarrow> bs. nv_val (bo_near_value b)) * 10 ^ 24 <
        of_nat (unat d) + (1::rat)"
      using x Cons.prems(2) by (simp add: v_def algebra_simps)
    moreover have "0 \<le> g * (\<Sum>b \<leftarrow> bs. nv_val (bo_near_value b)) * 10 ^ 24" using rest assms(3) by simp
    ultimately have "(of_nat (unat a + unat x) :: rat) < of_nat (unat d + 1)" by simp
    then have le: "unat a + unat x \<le> unat d" unfolding of_nat_less_iff by simp
    then have add: "unat (saturating_add a x) = unat a + unat x"
      using unsigned_less [of d, where 'a = nat] by (simp add: unat_saturating_add)
    have "unat (saturating_add a x) + sum_list (map unat (buy_amounts B d ratio bs (saturating_add a x))) \<le> unat d"
      by (rule Cons.IH) (use Cons.prems(1) sum in \<open>auto simp: add\<close>)
    then show ?thesis by (simp add: add Let_def x_def [symmetric])
  qed
qed

lemma nv_sum_val: "nv_val (nv_sum vs) = sum_list (map nv_val vs)"
proof -
  have "nv_val (foldl nv_add v vs) = nv_val v + sum_list (map nv_val vs)" for v
    by (induction vs arbitrary: v) (simp_all add: nv_add_def)
  then show ?thesis by (simp add: nv_sum_def nv_zero_def)
qed

lemma buys_within_deposit:
  assumes B: "bigdecimal_spec B" and pos: "\<forall>b \<in> set bs. nv_zero \<le> bo_near_value b" and d: "d \<noteq> 0"
  defines "have_value \<equiv> yv_to_near B (YoctoValue (bd_of d))" and "need \<equiv> nv_sum (map bo_near_value bs)"
  shows "sum_list (map unat (buy_amounts B d
    (if have_value < need then Some (nv_ratio B have_value need) else None) bs 0)) \<le> unat d"
proof -
  define S where "S = (\<Sum>b \<leftarrow> bs. nv_val (bo_near_value b))"
  have need: "nv_val need = S" by (simp add: need_def nv_sum_val S_def o_def)
  have have_value: "have_value = NearValue (bd_of d / 10 ^ 24)"
    using bd_div_exact [OF B, of "10 ^ 24" "bd_of d"] decimal_digits_yocto [of d]
    by (simp add: have_value_def yv_to_near_def bd_of_def YOCTO_PER_NEAR_def)
  have dpos: "(0::rat) < bd_of d" using d by (metis bd_of_le_0_iff not_le)
  show ?thesis
  proof (cases "have_value < need")
    case True
    define q where "q = nv_ratio B have_value need"
    have S: "0 < S" "bd_of d / 10 ^ 24 < S" using True dpos by (simp_all add: have_value need less_near_value_def order.strict_trans1 [of 0 "bd_of d / 10 ^ 24" S])
    have q: "q = bd_div B (bd_of d / 10 ^ 24) S" using S by (simp add: q_def nv_ratio_def need have_value)
    let ?x = "bd_of d / 10 ^ 24 / S :: rat"
    have x: "0 < ?x" using dpos S by simp
    have "\<bar>q - ?x\<bar> \<le> \<bar>?x\<bar> / 10 ^ 99" unfolding q by (rule bd_div_error [OF B]) (use S in simp)
    then have err: "\<bar>q - ?x\<bar> \<le> ?x / 10 ^ 99" using x by simp
    have "?x / 10 ^ 99 \<le> ?x" using x by (simp add: field_simps)
    then have q0: "0 \<le> q" using err by linarith
    have "q \<le> ?x + ?x / 10 ^ 99" using err by linarith
    then have "q * S * 10 ^ 24 \<le> (?x + ?x / 10 ^ 99) * S * 10 ^ 24"
      using S by (intro mult_right_mono) simp_all
    also have "\<dots> = bd_of d + bd_of d / 10 ^ 99" using S by (simp add: field_simps)
    also have "\<dots> < bd_of d + 1"
    proof -
      have "unat d < 10 ^ 99" using unsigned_less [of d, where 'a = nat] by simp
      then have "(of_nat (unat d) :: rat) < of_nat (10 ^ 99)" by (simp only: of_nat_less_iff)
      then show ?thesis by (simp add: bd_of_def)
    qed
    finally show ?thesis using sum_buy_amounts [of B "Some q" bs 0 d] B pos q0 True
      by (simp add: q_def [symmetric] S_def [symmetric] bd_of_def)
  next
    case False
    then have "S * 10 ^ 24 \<le> bd_of d" by (simp add: have_value need less_near_value_def not_less field_simps)
    with sum_buy_amounts [of B None bs 0 d] B pos False show ?thesis
      by (simp add: S_def [symmetric] bd_of_def)
  qed
qed

section \<open>A rebalancing\<close>

text \<open>The wrapped NEAR a reply to \<^verbatim>\<open>get_deposits\<close> has; nothing when the call fails.\<close>

definition deposit_reply :: "'w client \<Rightarrow> string + string \<Rightarrow> nat" where
  "deposit_reply c x = (case x of Inl _ \<Rightarrow> 0 | Inr b \<Rightarrow>
     case de_deposits c b of None \<Rightarrow> 0 | Some d \<Rightarrow> unat (wnear_deposit c (btree_collect d)))"

definition buying :: "bigdecimal \<Rightarrow> 'w client \<Rightarrow> wallet \<Rightarrow> token_account set \<Rightarrow> (token_out_account, f64) btree_map \<Rightarrow>
    event list \<Rightarrow> bool" where
  "buying B c w T er es \<longleftrightarrow> es = [] \<or> (\<exists>x buys.
     es = View (CONTRACT_ADDRESS c) ''get_deposits'' (JObj [(''account_id'', JStr (w_account w))]) x # buys \<and>
     swapping B c w (is_purchase c T er) (deposit_reply c x) buys)"

lemma emits_remainder_buys:
  assumes B: "bigdecimal_spec (env_decimal E)"
    and bs: "\<forall>b \<in> set bs. bo_token b \<in> T \<and> nv_zero \<le> bo_near_value b"
  shows "emits (remainder_buys E c w recorder cfg er bs) (\<lambda>es r. buying (env_decimal E) c w T er es)"
proof (cases "bs = []")
  case False
  let ?view = "View (CONTRACT_ADDRESS c) ''get_deposits'' (JObj [(''account_id'', JStr (w_account w))])"
  have tok: "\<forall>b \<in> set bs. bo_token b \<in> T" and pos: "\<forall>b \<in> set bs. nv_zero \<le> bo_near_value b" using bs by auto
  have loop: "emits (buy_loop E c w recorder cfg er d (if yv_to_near (env_decimal E) (YoctoValue (bd_of d)) <
        nv_sum (map bo_near_value bs) then Some (nv_ratio (env_decimal E)
          (yv_to_near (env_decimal E) (YoctoValue (bd_of d))) (nv_sum (map bo_near_value bs))) else None) bs 0 k)
      (\<lambda>es r. buying (env_decimal E) c w T er ([?view x] @ es))"
    if "d \<noteq> 0" "deposit_reply c x = unat d" for d x k
  proof (rule emits_conseq [OF emits_buy_loop [OF tok]])
    fix es and r :: "phase_counters outcome"
    assume "swapping (env_decimal E) c w (is_purchase c T er) (sum_list (map unat (buy_amounts (env_decimal E) d
      (if yv_to_near (env_decimal E) (YoctoValue (bd_of d)) < nv_sum (map bo_near_value bs)
        then Some (nv_ratio (env_decimal E) (yv_to_near (env_decimal E) (YoctoValue (bd_of d)))
          (nv_sum (map bo_near_value bs))) else None) bs 0))) es"
    from swapping_append [OF this swapping_Nil [of _ c w _ 0], of "unat d"] buys_within_deposit [OF B pos that(1)]
    have "swapping (env_decimal E) c w (is_purchase c T er) (unat d) es" by simp
    with that(2) show "buying (env_decimal E) c w T er ([?view x] @ es)" by (auto simp: buying_def)
  qed
  have quiet_view: "buying (env_decimal E) c w T er [?view x]" for x by (simp add: buying_def)
  show ?thesis unfolding remainder_buys_def Let_def
    by (simp only: False if_False, rule emits_bind, rule emits_get_deposits, unfold after_simps, rule emits_if)
      (simp_all add: quiet_view deposit_reply_def emits_return loop del: append_Cons append_Nil split del: if_split)
qed (simp add: remainder_buys_def buying_def emits_return)

text \<open>The tokens a rebalancing may trade: the ones with a target weight, without wrapped NEAR.\<close>

definition traded_tokens :: "'w client \<Rightarrow> (token_out_account \<times> rat) list \<Rightarrow> token_account set" where
  "traded_tokens c target_weights = out_inner ` fst ` set target_weights - {WNEAR_TOKEN c}"

definition operations_on :: "token_account set \<Rightarrow> sell_operation list \<Rightarrow> buy_operation list \<Rightarrow> bool" where
  "operations_on T ss bs \<longleftrightarrow> so_token ` set ss \<subseteq> T \<and> bo_token ` set bs \<subseteq> T \<and> no_debts ss bs"

lemma emits_held_spot_rate: "emits (held_spot_rate E c t a) (\<lambda>es r. es = [])"
  unfolding held_spot_rate_def by (auto split: option.splits intro!: emits_intros)

lemma emits_rebalance_operations:
  "emits (rebalance_operations E c balances v ws) (\<lambda>es r. es = [] \<and>
     (\<forall>ss bs. r = Ok (ss, bs) \<longrightarrow> operations_on (traded_tokens c ws) ss bs))"
proof (induction ws)
  case (Cons tw ws)
  obtain token weight where tw: "tw = (token, weight)" by (cases tw)
  let ?T = "traded_tokens c ((token, weight) # ws)"
  have mono: "operations_on ?T ss bs" if "operations_on (traded_tokens c ws) ss bs" for ss bs
    using that unfolding operations_on_def traded_tokens_def by auto
  have more: "operations_on ?T (ss @ ss') (bs @ bs')"
    if "operations_on (traded_tokens c ws) ss' bs'" "operations_on {out_inner token} ss bs"
      "out_inner token \<noteq> WNEAR_TOKEN c" for ss ss' bs bs'
    using that unfolding operations_on_def traded_tokens_def no_debts_def by auto
  have abs: "nv_zero \<le> nv_abs u" for u by (simp add: nv_abs_def near_value_order)
  have rest: "emits (io_bind (rebalance_operations E c balances v ws) (\<lambda>(ss', bs'). io_return (ss @ ss', bs @ bs')))
      (\<lambda>es r. es = [] \<and> (\<forall>ss bs. r = Ok (ss, bs) \<longrightarrow> operations_on ?T ss bs))"
    if "operations_on {out_inner token} ss bs" "out_inner token \<noteq> WNEAR_TOKEN c" for ss bs
    by (rule emits_seq [OF Cons.IH]) (auto intro!: emits_return more that)
  have one: "emits (if diff < nv_zero \<and> nv_one \<le> nv_abs diff
        then io_bind (io_option (Msg ''No cached rate for sell operation'' []) spot_rate) (\<lambda>rate.
          io_return ([\<lparr>so_token = out_inner token, so_near_value = nv_abs diff, so_exchange_rate = rate\<rparr>], []))
        else if nv_zero < diff \<and> nv_one \<le> diff
        then io_return ([], [\<lparr>bo_token = out_inner token, bo_near_value = diff\<rparr>])
        else io_return ([], [])) (\<lambda>es r. es = [] \<and> (\<forall>ss bs. r = Ok (ss, bs) \<longrightarrow> operations_on {out_inner token} ss bs))"
    for diff spot_rate
    by (auto simp: operations_on_def no_debts_def abs intro!: emits_bind emits_option emits_return)
  show ?case
  proof (cases "weight < 0 \<or> out_inner token = WNEAR_TOKEN c")
    case True
    then show ?thesis by (auto simp: tw intro!: emits_conseq [OF Cons.IH] mono)
  next
    case False
    then show ?thesis unfolding tw rebalance_operations.simps Let_def
      by (simp only: if_False, intro emits_seq [OF emits_held_spot_rate] emits_seq [OF one])
        (auto intro!: rest)
  qed
qed (auto intro!: emits_return simp: operations_on_def no_debts_def)

definition swaps_on :: "token_account set \<Rightarrow> direct_swap list \<Rightarrow> bool" where
  "swaps_on T ds \<longleftrightarrow> (\<forall>d \<in> set ds. ds_sell_token d \<in> T \<and> ds_buy_token d \<in> T)"

definition result_on :: "token_account set \<Rightarrow> match_result \<Rightarrow> bool" where
  "result_on T r \<longleftrightarrow> so_token ` set (remaining_sells r) \<subseteq> T \<and> bo_token ` set (remaining_buys r) \<subseteq> T \<and>
     swaps_on T (direct_swaps r)"

lemma match_loop_tokens:
  assumes "so_token ` set (s # ss) \<subseteq> T" "bo_token ` set (b # bs) \<subseteq> T" "swaps_on T ds"
  shows "result_on T (match_loop s v ss b u bs ds)"
  using assms
proof (induction s v ss b u bs ds rule: match_loop_induct)
  case (round s v ss b u bs ds)
  note result_def = result_on_def [of _ "\<lparr>direct_swaps = _, remaining_sells = _, remaining_buys = _\<rparr>"]
  have add: "swaps_on T (add_swap s b x ds)" for x
    using round.prems by (auto simp: add_swap_def swaps_on_def)
  consider "v < u" | "v = u" | "u < v" by (rule linorder_cases)
  then show ?case
  proof cases
    case 1
    then show ?thesis using round.prems add by (cases ss) (simp_all add: match_loop_less result_def round.IH)
  next
    case 3
    then show ?thesis using round.prems add by (cases bs) (simp_all add: match_loop_greater result_def round.IH)
  next
    case 2
    then show ?thesis using round.prems add by (cases ss; cases bs) (auto simp: match_loop_equal result_def round.IH)
  qed
qed

lemma match_operations_on:
  assumes "unstable_sort so_near_value sort_s" "unstable_sort bo_near_value sort_b" "operations_on T ss bs"
  defines "r \<equiv> match_rebalance_operations sort_s sort_b ss bs"
  shows "result_on T r \<and> no_debts (remaining_sells r) (remaining_buys r) \<and>
    (\<forall>d \<in> set (direct_swaps r). nv_zero < ds_near_value d)"
proof -
  have perm: "mset (sort_s ss) = mset ss" "mset (sort_b bs) = mset bs"
    using assms(1,2) by (auto simp: unstable_sort_def)
  then show ?thesis
  proof (cases rule: match_rebalance_cases)
    case 1
    then show ?thesis using assms(3) by (simp add: r_def result_on_def swaps_on_def operations_on_def)
  next
    case (2 s xs b ys)
    have "set ss = set (s # xs)" "set bs = set (b # ys)" using perm 2 by (metis mset_eq_setD)+
    then have ops: "so_token ` set (s # xs) \<subseteq> T" "bo_token ` set (b # ys) \<subseteq> T" "no_debts (s # xs) (b # ys)"
      using assms(3) by (simp_all add: operations_on_def no_debts_def)
    have "result_on T r" unfolding r_def 2(3) by (rule match_loop_tokens [OF ops(1,2)]) (simp add: swaps_on_def)
    moreover note match_loop_shape [of s "so_near_value s" xs b "bo_near_value b" ys "[]", unfolded Let_def]
    ultimately show ?thesis using ops(3) unfolding r_def 2(3) by simp
  qed
qed

definition is_read :: "event \<Rightarrow> bool" where
  "is_read e = (case e of View _ _ _ _ \<Rightarrow> True | _ \<Rightarrow> False)"

abbreviation "reads_only es \<equiv> list_all is_read es"

lemma is_read_View [simp]: "is_read (View a m args r)"
  by (simp add: is_read_def)

lemma emits_balances_loop: "emits (balances_loop E c deposits ts m) (\<lambda>es r. reads_only es)"
proof (induction ts arbitrary: m)
  case (Cons t ts)
  show ?case unfolding balances_loop.simps Let_def
    by (intro emits_bind emits_get_token_decimals_cached) (simp_all add: Cons.IH)
qed (simp add: emits_return)

lemma emits_get_current_portfolio_balances: "emits (get_current_portfolio_balances E c w ts) (\<lambda>es r. reads_only es)"
  unfolding get_current_portfolio_balances_def
  by (intro emits_bind emits_get_deposits) (simp_all add: emits_balances_loop)

lemma emits_latest_rate: "emits (latest_rate E c t) (\<lambda>es r. es = [])"
  unfolding latest_rate_def by (auto intro!: emits_intros split: option.splits)

lemma emits_portfolio_value:
  assumes "\<And>t. emits (f t) (\<lambda>es r. es = [])"
  shows "emits (portfolio_value_loop B c f hs acc) (\<lambda>es r. es = [])"
proof (induction hs arbitrary: acc)
  case (Cons h hs)
  have tried: "emits (io_try (f t)) (\<lambda>es r. es = [])" for t
    by (rule emits_try, rule emits_conseq [OF assms]) (simp split: outcome.splits)
  show ?case
    by (cases h, simp only: portfolio_value_loop.simps)
      (intro emits_if emits_seq [OF tried] Cons.IH; simp add: Cons.IH)
qed (auto intro: emits_return)

end
