(* ===== verification/Execution_Traces.thy ===== *)
theory Execution_Traces
  imports Rebalance_Swaps
begin

text \<open>
  What the operations of \<^verbatim>\<open>trade/src/execution.rs\<close> leave in the trace: a rebalancing spends no more
  wrapped NEAR on purchases than the deposit it has just read, a liquidation sells whole positions
  and reports the ones it could not sell, and stopping leaves the reserve on the account.
\<close>

section \<open>Rebalancing\<close>

text \<open>The trace of a rebalancing: reads, then the sales, then one look at the deposits and purchases that
  together ask for no more wrapped NEAR than it showed.\<close>

definition rebalance_trace :: "bigdecimal \<Rightarrow> 'w client \<Rightarrow> wallet \<Rightarrow> token_account set \<Rightarrow>
    (token_out_account, f64) btree_map \<Rightarrow> event list \<Rightarrow> bool" where
  "rebalance_trace B c w T er es \<longleftrightarrow> (\<exists>reads sales purchases. es = reads @ sales @ purchases \<and> reads_only reads \<and>
     selling B c w T sales \<and> buying B c w T er purchases)"

lemma rebalance_traceI:
  "reads_only reads \<Longrightarrow> selling B c w T sales \<Longrightarrow> buying B c w T er purchases \<Longrightarrow>
    es = reads @ sales @ purchases \<Longrightarrow> rebalance_trace B c w T er es"
  unfolding rebalance_trace_def by blast

lemma buying_Nil [simp]: "buying B c w T er []"
  by (simp add: buying_def)

lemma emits_rebalance_phases:
  assumes B: "bigdecimal_spec (env_decimal E)"
    and M: "result_on T m" "no_debts (remaining_sells m) (remaining_buys m)"
      "\<forall>d \<in> set (direct_swaps m). nv_zero < ds_near_value d"
  shows "emits (rebalance_phases E c w recorder cfg er m) (\<lambda>es r. rebalance_trace (env_decimal E) c w T er es)"
proof -
  let ?B = "env_decimal E"
  have ds: "\<forall>d \<in> set (direct_swaps m). ds_sell_token d \<in> T \<and> ds_buy_token d \<in> T"
    using M by (simp add: result_on_def swaps_on_def)
  have sells: "\<forall>s \<in> set (remaining_sells m @ fs). so_token s \<in> T" if "falls_back (direct_swaps m) fs fb" for fs fb
  proof -
    have "ds_sell_token ` set (direct_swaps m) \<subseteq> T" using ds by blast
    with that have "so_token ` set fs \<subseteq> T" unfolding falls_back_def by (metis subset_trans)
    then show ?thesis using M(1) by (auto simp: result_on_def)
  qed
  have buys: "\<forall>b \<in> set (remaining_buys m @ fb). bo_token b \<in> T \<and> nv_zero \<le> bo_near_value b"
    if fb: "falls_back (direct_swaps m) fs fb" for fs fb
  proof -
    have "bo_token b \<in> T \<and> nv_zero \<le> bo_near_value b" if "b \<in> set fb" for b
    proof -
      from fb that have "(bo_token b, bo_near_value b) \<in> (\<lambda>d. (ds_buy_token d, ds_near_value d)) ` set (direct_swaps m)"
        unfolding falls_back_def by blast
      then show ?thesis using ds M(3) by (auto simp: less_imp_le)
    qed
    then show ?thesis using M(1,2) by (auto simp: result_on_def no_debts_def)
  qed
  have trace: "rebalance_trace ?B c w T er (xs @ ys @ zs)"
    if "selling ?B c w T xs" "selling ?B c w T ys" "buying ?B c w T er zs" for xs ys zs
    by (rule rebalance_traceI [of "[]", OF _ selling_append [OF that(1,2)] that(3)]) simp_all
  show ?thesis unfolding rebalance_phases_def
  proof (rule emits_seq [OF emits_direct_swaps_phase [OF ds]], goal_cases)
    case (1 xs x)
    obtain k fs fb where x: "x = (k, fs, fb)" by (cases x)
    with 1 have fall: "falls_back (direct_swaps m) fs fb" and xs: "selling ?B c w T xs" by auto
    show ?case unfolding x prod.case Let_def
    proof (rule emits_seq [OF emits_remainder_sells [OF sells [OF fall]]], goal_cases)
      case (1 ys k')
      note tr = trace [OF xs 1]
      show ?case
        by (rule emits_seq [OF emits_remainder_buys [OF B buys [OF fall]]])
          (auto intro!: emits_if emits_fail emits_return tr)
    qed (use trace [OF xs _ buying_Nil] in auto)
  qed (use trace [OF _ selling_Nil buying_Nil] in auto)
qed

lemma emits_execute_rebalance:
  assumes B: "bigdecimal_spec (env_decimal E)"
    and S: "unstable_sort so_near_value (sort_sells S)" "unstable_sort bo_near_value (sort_buys S)"
  shows "emits (execute_rebalance E S c w target_weights p recorder cfg er)
    (\<lambda>es r. rebalance_trace (env_decimal E) c w (traded_tokens c target_weights) er es)"
proof -
  let ?T = "traded_tokens c target_weights" and ?B = "env_decimal E"
  have reads: "rebalance_trace ?B c w ?T er es" if "reads_only es" for es
    by (rule rebalance_traceI [OF that selling_Nil buying_Nil]) simp
  have more: "rebalance_trace ?B c w ?T er (es @ es')" if "reads_only es" "rebalance_trace ?B c w ?T er es'" for es es'
    using that unfolding rebalance_trace_def by (metis append_assoc list_all_append)
  have phases: "emits (rebalance_phases E c w recorder cfg er (match_rebalance_operations (sort_sells S) (sort_buys S) ss bs))
      (\<lambda>es r. rebalance_trace ?B c w ?T er es)" if "operations_on ?T ss bs" for ss bs
    using match_operations_on [OF S that] by (intro emits_rebalance_phases B) auto
  have operations: "emits (io_bind (rebalance_operations E c balances v target_weights) (\<lambda>(ss, bs).
      rebalance_phases E c w recorder cfg er (match_rebalance_operations (sort_sells S) (sort_buys S) ss bs)))
      (\<lambda>es r. rebalance_trace ?B c w ?T er es)" for balances v
    by (rule emits_seq [OF emits_rebalance_operations]) (auto intro: phases reads)
  have valued: "emits (io_bind (calculate_total_portfolio_value E c balances) (\<lambda>v.
      io_bind (rebalance_operations E c balances v target_weights) (\<lambda>(ss, bs).
      rebalance_phases E c w recorder cfg er (match_rebalance_operations (sort_sells S) (sort_buys S) ss bs))))
      (\<lambda>es r. rebalance_trace ?B c w ?T er es)" for balances
    unfolding calculate_total_portfolio_value_def calculate_portfolio_value_def
    by (rule emits_seq [OF emits_portfolio_value [OF emits_latest_rate]]) (auto intro: operations reads)
  have balances: "emits (case h of Some h \<Rightarrow> io_return h
      | None \<Rightarrow> get_current_portfolio_balances E c w ts) (\<lambda>es r. reads_only es)" for h ts
    by (cases h) (simp_all add: emits_get_current_portfolio_balances emits_return)
  show ?thesis unfolding execute_rebalance_def
    by (rule emits_bind, rule emits_db, unfold after_simps append_Nil, rule emits_seq [OF balances])
      (auto intro: reads more intro!: emits_conseq [OF valued])
qed

text \<open>
  C32. A rebalancing trades only the tokens that have a target weight, wrapped NEAR excepted, and
  cannot overspend: it reads, then sells amounts of these tokens for each other or for wrapped
  NEAR, then looks at the deposits once and buys, and all the purchases together ask for no more
  wrapped NEAR than that look showed, whichever swaps fail in between. Every purchase is
  protected by the policy of its expected return.
\<close>

theorem rebalance_spends_within_deposit:
  assumes "bigdecimal_spec (env_decimal E)"
    and "unstable_sort so_near_value (sort_sells S)" "unstable_sort bo_near_value (sort_buys S)"
  shows "\<exists>es r s'. execute_rebalance E S c w target_weights period_id recorder cfg expected_returns s = (r, s') \<and>
    trace s' = trace s @ es \<and>
    rebalance_trace (env_decimal E) c w (traded_tokens c target_weights) expected_returns es"
  using emitsD [OF emits_execute_rebalance [OF assms]] by (metis surj_pair)

definition sample_sorts :: sorts where
  "sample_sorts = \<lparr>sort_sells = sort_desc so_near_value, sort_buys = sort_desc bo_near_value\<rparr>"

definition sample_recorder :: trade_recorder where
  "sample_recorder = \<lparr>tr_batch_id = ''batch'', tr_evaluation_period_id = ''p''\<rparr>"

theorem rebalance_spends_within_deposit_witness:
  "\<exists>es r s'. execute_rebalance no_tables_env sample_sorts sample_client sample_wallet
      [(TokenOutAccount (TokenAccount ''a''), 1 / 2)] ''p'' sample_recorder empty_config [] sample_sys = (r, s') \<and>
    trace s' = trace sample_sys @ es \<and>
    rebalance_trace exact_decimal sample_client sample_wallet
      (traded_tokens sample_client [(TokenOutAccount (TokenAccount ''a''), 1 / 2)]) [] es"
proof -
  have "env_decimal no_tables_env = exact_decimal" by (simp add: no_tables_env_def)
  with rebalance_spends_within_deposit [of no_tables_env sample_sorts] show ?thesis
    by (simp add: sample_sorts_def exact_decimal_spec sort_desc_spec)
qed

section \<open>Liquidation\<close>

definition deposits_view :: "'w client \<Rightarrow> wallet \<Rightarrow> string + string \<Rightarrow> event" where
  "deposits_view c w = View (CONTRACT_ADDRESS c) ''get_deposits'' (JObj [(''account_id'', JStr (w_account w))])"

text \<open>The deposit of a token in a reply.\<close>

definition token_reply :: "'w client \<Rightarrow> token_account \<Rightarrow> string + string \<Rightarrow> u128" where
  "token_reply c t x = (case x of Inl _ \<Rightarrow> 0 | Inr b \<Rightarrow> case de_deposits c b of None \<Rightarrow> 0 | Some d \<Rightarrow>
     (case map_of (btree_collect d) t of Some u \<Rightarrow> u | None \<Rightarrow> 0))"

text \<open>
  The tokens in turn: a look at the deposits, and if there is something of the token a sale of all
  of it. The tokens whose sale failed are returned; the loop ends early only when the deposits
  cannot be read or a sale panics.
\<close>

fun liquidation :: "bigdecimal \<Rightarrow> 'w client \<Rightarrow> wallet \<Rightarrow> trade_recorder \<Rightarrow> token_account list \<Rightarrow> event list \<Rightarrow>
    token_account list outcome \<Rightarrow> bool" where
  "liquidation B c w recorder [] es r \<longleftrightarrow> es = [] \<and> r = Ok []"
| "liquidation B c w recorder (t # ts) es r \<longleftrightarrow> (\<exists>x rest. es = deposits_view c w x # rest \<and>
     (rest = [] \<and> (\<exists>e. r = Err e) \<or>
      token_reply c t x = 0 \<and> liquidation B c w recorder ts rest r \<or>
      0 < token_reply c t x \<and> (\<exists>sale later q. rest = sale @ later \<and>
        direct_swap_trace B c w (whole_sale c recorder t) sale (q :: unit outcome) \<and>
        (case q of
           Ok _ \<Rightarrow> liquidation B c w recorder ts later r
         | Err _ \<Rightarrow> (\<exists>r'. liquidation B c w recorder ts later r' \<and> r = map_outcome (Cons t) r')
         | Panic p \<Rightarrow> later = [] \<and> r = Panic p))))"

lemma liquidation_sale:
  assumes q: "direct_swap_trace B c w (whole_sale c recorder t) sale (q :: unit outcome)" and pos: "0 < token_reply c t x"
    and rest: "case q of Ok _ \<Rightarrow> liquidation B c w recorder ts later r
         | Err _ \<Rightarrow> (\<exists>r'. liquidation B c w recorder ts later r' \<and> r = map_outcome (Cons t) r')
         | Panic p \<Rightarrow> later = [] \<and> r = Panic p"
  shows "liquidation B c w recorder (t # ts) (deposits_view c w x # sale @ later) r"
  unfolding liquidation.simps
  by (rule exI [of _ x], rule exI [of _ "sale @ later"], rule conjI [OF refl], rule disjI2, rule disjI2,
      rule conjI [OF pos], rule exI [of _ sale], rule exI [of _ later], rule exI [of _ q])
    (simp add: q rest)

declare liquidation.simps(2) [simp del]

lemma emits_liquidate_loop:
  "emits (liquidate_loop E c w recorder cfg ts) (\<lambda>es r. liquidation (env_decimal E) c w recorder ts es r)"
proof (induction ts)
  case (Cons t ts)
  let ?L = "liquidation (env_decimal E) c w recorder (t # ts)"
  let ?rest = "\<lambda>x. io_bind (liquidate_loop E c w recorder cfg ts) (\<lambda>failed_tokens.
       io_return ((case x of Inr (_ :: unit) \<Rightarrow> [] | Inl (_ :: error) \<Rightarrow> [t]) @ failed_tokens))"
  have rest: "emits (?rest x) (\<lambda>es r. \<exists>r'. liquidation (env_decimal E) c w recorder ts es r' \<and>
      r = map_outcome (append (case x of Inr _ \<Rightarrow> [] | Inl _ \<Rightarrow> [t])) r')" for x
    by (rule emits_seq [OF Cons.IH]) (force intro!: emits_return)+
  have id: "map_outcome (append []) r = r" for r :: "token_account list outcome" by (cases r) simp_all
  have one: "append [t] = Cons t" by (simp add: fun_eq_iff)
  have sale: "emits (io_bind (io_try (execute_direct_swap E c w (whole_sale c recorder t) cfg)) ?rest)
      (\<lambda>es r. ?L (deposits_view c w x # es) r)" if pos: "0 < token_reply c t x" for x
  proof (rule emits_bind, rule emits_try, rule emits_conseq [OF emits_execute_direct_swap])
    fix es and q :: "unit outcome"
    assume q: "direct_swap_trace (env_decimal E) c w (whole_sale c recorder t) es q"
    note sale = liquidation_sale [OF q pos]
    have later: "emits (?rest (Inr u)) (\<lambda>es' r. ?L (deposits_view c w x # es @ es') r)" if "q = Ok u" for u
      by (rule emits_conseq [OF rest]) (use that sale in \<open>auto simp: id\<close>)
    have failed: "emits (?rest (Inl e)) (\<lambda>es' r. ?L (deposits_view c w x # es @ es') r)" if "q = Err e" for e
      by (rule emits_conseq [OF rest]) (use that sale in \<open>auto simp: one\<close>)
    have panicked: "?L (deposits_view c w x # es) (Panic p)" if "q = Panic p" for p
      using sale [of ts "[]" "Panic p"] that by simp
    show "case q of Ok u \<Rightarrow> after ?rest (\<lambda>es r. ?L (deposits_view c w x # es) r) es (Ok (Inr u))
        | Err e \<Rightarrow> after ?rest (\<lambda>es r. ?L (deposits_view c w x # es) r) es (Ok (Inl e))
        | Panic p \<Rightarrow> after ?rest (\<lambda>es r. ?L (deposits_view c w x # es) r) es (Panic p)"
      by (cases q) (simp_all only: outcome.case after_simps later failed panicked)
  qed
  have reply: "token_reply c t (Inr b) = (case map_of (btree_collect d) t of Some u \<Rightarrow> u | None \<Rightarrow> 0)"
    if "de_deposits c b = Some d" for b d using that by (simp add: token_reply_def)
  have unreadable: "?L [deposits_view c w x] (Err e)" for x e by (auto simp: liquidation.simps(2))
  have skipped: "?L (deposits_view c w x # es) r"
    if "token_reply c t x = 0" "liquidation (env_decimal E) c w recorder ts es r" for x es r using that by (auto simp: liquidation.simps(2))
  show ?case unfolding liquidate_loop.simps
    by (rule emits_bind, rule emits_get_deposits, unfold deposits_view_def [symmetric] after_simps append_Cons append_Nil,
        rule emits_if)
      (simp_all add: reply [symmetric] emits_conseq [OF Cons.IH skipped] sale unreadable word_neq_0_conv)
qed (simp add: emits_return)

text \<open>The whole liquidation: nothing without a period; else a look at the deposits, the liquidation of all
  that is there but wrapped NEAR, and a last look for the balance to report.\<close>

definition liquidation_run :: "bigdecimal \<Rightarrow> 'w client \<Rightarrow> wallet \<Rightarrow> event list \<Rightarrow> liquidation_result outcome \<Rightarrow> bool" where
  "liquidation_run B c w es r \<longleftrightarrow>
     es = [] \<and> (r = Ok \<lparr>lr_wrap_near_balance = yocto_zero, lr_failed_tokens = []\<rparr> \<or> (\<exists>e. r = Err e)) \<or>
     (\<exists>x. es = [deposits_view c w x] \<and> (\<exists>e. r = Err e)) \<or>
     (\<exists>b d ts rest. es = deposits_view c w (Inr b) # rest \<and> de_deposits c b = Some d \<and>
        ts = filter_tokens_to_liquidate (btree_collect d) (WNEAR_TOKEN c) \<and>
        (ts = [] \<and> rest = [] \<and> r = Ok \<lparr>lr_wrap_near_balance = yocto_from_u128 (wnear_deposit c (btree_collect d)),
           lr_failed_tokens = []\<rparr> \<or>
         (\<exists>recorder sales q later. ts \<noteq> [] \<and> rest = sales @ later \<and> liquidation B c w recorder ts sales q \<and>
           (case q of
              Ok failed \<Rightarrow> \<exists>x. later = [deposits_view c w x] \<and>
                (\<forall>res. r = Ok res \<longrightarrow> lr_failed_tokens res = failed \<and>
                   lr_wrap_near_balance res = yocto_from_u128 (token_reply c (WNEAR_TOKEN c) x))
            | Err e \<Rightarrow> later = [] \<and> r = Err e
            | Panic p \<Rightarrow> later = [] \<and> r = Panic p))))"

lemma token_reply_wnear: "de_deposits c b = Some d \<Longrightarrow> token_reply c (WNEAR_TOKEN c) (Inr b) = wnear_deposit c (btree_collect d)"
  by (simp add: token_reply_def wnear_deposit_def)

lemma emits_liquidate_all_positions:
  "emits (liquidate_all_positions E c w cfg) (liquidation_run (env_decimal E) c w)"
proof -
  let ?Q = "liquidation_run (env_decimal E) c w"
  have sales: "emits (io_bind (liquidate_loop E c w recorder cfg ts) (\<lambda>failed_tokens.
      io_bind (get_deposits c (w_account w)) (\<lambda>deposits. io_return
        \<lparr>lr_wrap_near_balance = yocto_from_u128 (wnear_deposit c deposits), lr_failed_tokens = failed_tokens\<rparr>)))
      (\<lambda>es r. ?Q (deposits_view c w (Inr b) # es) r)"
    if d: "de_deposits c b = Some d" "ts = filter_tokens_to_liquidate (btree_collect d) (WNEAR_TOKEN c)" "ts \<noteq> []"
    for recorder ts b d
  proof -
    have run: "?Q (deposits_view c w (Inr b) # sales @ later) r"
      if "liquidation (env_decimal E) c w recorder ts sales q"
        "case q of Ok failed \<Rightarrow> \<exists>x. later = [deposits_view c w x] \<and> (\<forall>res. r = Ok res \<longrightarrow> lr_failed_tokens res = failed \<and>
             lr_wrap_near_balance res = yocto_from_u128 (token_reply c (WNEAR_TOKEN c) x))
         | Err e \<Rightarrow> later = [] \<and> r = Err e | Panic p \<Rightarrow> later = [] \<and> r = Panic p" for sales later q r
      unfolding liquidation_run_def
      by (rule disjI2, rule disjI2, rule exI [of _ b], rule exI [of _ d], rule exI [of _ ts], rule exI [of _ "sales @ later"],
          rule conjI [OF refl], rule conjI [OF d(1)], rule conjI [OF d(2)], rule disjI2, rule exI [of _ recorder],
          rule exI [of _ sales], rule exI [of _ q], rule exI [of _ later], rule conjI [OF d(3)], rule conjI [OF refl],
          rule conjI [OF that])
    show ?thesis
    proof (rule emits_seq [OF emits_liquidate_loop], goal_cases)
      case (1 es failed)
      note R = run [OF 1, unfolded outcome.case]
      show ?case
        by (rule emits_bind, rule emits_get_deposits, unfold deposits_view_def [symmetric] after_simps,
            rule emits_return, unfold append_assoc append_Nil2)
          (rule R, auto simp: token_reply_wnear)+
    next
      case (2 es e)
      then show ?case using run [of es "Err e" "[]" "Err e"] by simp
    next
      case (3 es p)
      then show ?case using run [of es "Panic p" "[]" "Panic p"] by simp
    qed
  qed
  have none: "?Q [deposits_view c w x] (Err e)" "?Q [] (Err e)"
    "?Q [] (Ok \<lparr>lr_wrap_near_balance = yocto_zero, lr_failed_tokens = []\<rparr>)" for x e by (auto simp: liquidation_run_def)
  have empty: "?Q [deposits_view c w (Inr b)] (Ok \<lparr>lr_wrap_near_balance = yocto_from_u128 (wnear_deposit c (btree_collect d)),
      lr_failed_tokens = []\<rparr>)"
    if "de_deposits c b = Some d" "filter_tokens_to_liquidate (btree_collect d) (WNEAR_TOKEN c) = []" for b d
    using that by (auto simp: liquidation_run_def)
  have recorded: "emits (io_bind (recorder_new E p) f) (\<lambda>es r. ?Q (deposits_view c w (Inr b) # es) r)"
    if "\<And>recorder. emits (f recorder) (\<lambda>es r. ?Q (deposits_view c w (Inr b) # es) r)" for p f b
    by (rule emits_bind, rule emits_recorder_new) (simp add: that)
  show ?thesis unfolding liquidate_all_positions_def Let_def
    by (rule emits_bind, rule emits_db, unfold after_simps append_Nil,
        (split option.split, intro conjI allI impI, rule emits_return, rule none(3))[1])
      (rule emits_bind, rule emits_get_deposits,
       auto simp: none empty deposits_view_def [symmetric] intro!: emits_return recorded sales)
qed


end
