(* ===== verification/Period_Traces.thy ===== *)
theory Period_Traces
  imports Execution_Traces
begin

text \<open>
  The end of an evaluation period (\<^verbatim>\<open>trade/src/execution.rs\<close>): stopping sends what is above the reserve to
  the harvest account, in confirmed steps, and \<^verbatim>\<open>manage_evaluation_period\<close> keeps a running period,
  starts a new one with the balance that is left, or reports that trading has stopped.
\<close>

section \<open>Stopping\<close>

text \<open>Events that follow a list of predicates in turn, possibly not to its end.\<close>

fun follows :: "(event \<Rightarrow> bool) list \<Rightarrow> event list \<Rightarrow> bool" where
  "follows Ps [] \<longleftrightarrow> True"
| "follows [] (e # es) \<longleftrightarrow> False"
| "follows (P # Ps) (e # es) \<longleftrightarrow> P e \<and> follows Ps es"

definition succeeded :: "event \<Rightarrow> bool" where
  "succeeded e = (case e of
     View _ _ _ x \<Rightarrow> \<not> isl x | Exec _ _ _ _ _ x \<Rightarrow> \<not> isl x | Transfer _ _ _ x \<Rightarrow> \<not> isl x
   | Wait_Success _ b \<Rightarrow> b | Wait_Executed _ b \<Rightarrow> b | Native_Amount _ x \<Rightarrow> \<not> isl x | _ \<Rightarrow> True)"

definition waits :: "event \<Rightarrow> bool" where
  "waits e = (case e of Wait_Success _ _ \<Rightarrow> True | Wait_Executed _ _ \<Rightarrow> True | _ \<Rightarrow> False)"

definition withdraws :: "'w client \<Rightarrow> wallet \<Rightarrow> u128 \<Rightarrow> event \<Rightarrow> bool" where
  "withdraws c w amount e \<longleftrightarrow> (\<exists>r. e = Exec (w_signer w) (CONTRACT_ADDRESS c) ''withdraw''
     (JObj [(''token_id'', JStr (as_account_id (WNEAR_TOKEN c))), (''amount'', JU128 amount),
       (''skip_unwrap_near'', JBool False)]) 1 r)"

definition unwraps :: "'w client \<Rightarrow> wallet \<Rightarrow> u128 \<Rightarrow> event \<Rightarrow> bool" where
  "unwraps c w amount e \<longleftrightarrow> (\<exists>r. e = Exec (w_signer w) (as_account_id (WNEAR_TOKEN c)) ''near_withdraw''
     (JObj [(''amount'', JU128 amount)]) 1 r)"

text \<open>The transfer of what a native balance of the trace has above the reserve.\<close>

definition sends_rest :: "wallet \<Rightarrow> account_id \<Rightarrow> u128 \<Rightarrow> event list \<Rightarrow> event \<Rightarrow> bool" where
  "sends_rest w account reserve es e \<longleftrightarrow> (\<exists>n a r. e = Transfer (w_signer w) account a r \<and>
     Native_Amount (w_account w) (Inr n) \<in> set es \<and> unat a + unat reserve = unat n \<and> 0 < a)"

definition stop_trace :: "('w, 'f, 'j) trade_env \<Rightarrow> 'w client \<Rightarrow> wallet \<Rightarrow> config_stores \<Rightarrow> event list \<Rightarrow> bool" where
  "stop_trace E c w cfg es \<longleftrightarrow> es = [] \<or> (\<exists>v account x amount rest.
     stop_account cfg = Some v \<and> env_account E v = Some account \<and> account \<noteq> w_account w \<and>
     es = deposits_view c w x # rest \<and> amount = token_reply c (WNEAR_TOKEN c) x \<and> (rest = [] \<or> 0 < amount) \<and>
     list_all succeeded (butlast rest) \<and>
     follows [withdraws c w amount, waits, unwraps c w amount, waits,
       \<lambda>e. \<exists>x. e = Native_Amount (w_account w) x,
       sends_rest w account (stop_reserve (env_decimal E) cfg) rest, waits] rest)"

lemma stop_events [simp]:
  "succeeded (Exec sg rc m args d (Inr tx))" "succeeded (Wait_Success tx True)" "succeeded (Wait_Executed tx True)"
  "succeeded (Native_Amount a (Inr n))" "succeeded (Transfer sg rc amount (Inr tx))"
  "waits (Wait_Success tx b)" "waits (Wait_Executed tx b)"
  by (simp_all add: succeeded_def waits_def)

lemma unat_diff_reserve:
  fixes n r :: u128
  assumes "r < n"
  shows "unat (saturating_sub n r) + unat r = unat n" "0 < saturating_sub n r"
proof -
  have "unat r < unat n" using assms by (simp add: word_less_nat_alt)
  then show "unat (saturating_sub n r) + unat r = unat n" by (simp add: unat_saturating_sub)
  with \<open>unat r < unat n\<close> have "0 < unat (saturating_sub n r)" by simp
  then show "0 < saturating_sub n r" by (simp add: word_less_nat_alt)
qed

lemma emits_unwrap_and_transfer_wnear:
  "emits (unwrap_and_transfer_wnear E c w cfg) (\<lambda>es r. stop_trace E c w cfg es)"
proof (cases "stop_account cfg")
  case None
  then show ?thesis by (simp add: unwrap_and_transfer_wnear_def emits_return stop_trace_def)
next
  case (Some v)
  have nothing: "stop_trace E c w cfg []" by (simp add: stop_trace_def)
  show ?thesis
  proof (cases "\<exists>account. env_account E v = Some account \<and> account \<noteq> w_account w")
    case False
    with Some nothing show ?thesis
      by (auto simp: unwrap_and_transfer_wnear_def stop_trace_def intro!: emits_bind emits_option emits_return)
  next
    case True
    then obtain account where account: "env_account E v = Some account" "account \<noteq> w_account w" by blast
    have script: "stop_trace E c w cfg (deposits_view c w x # rest)"
      if "rest = [] \<or> 0 < token_reply c (WNEAR_TOKEN c) x" "list_all succeeded (butlast rest)"
        "follows [withdraws c w (token_reply c (WNEAR_TOKEN c) x), waits, unwraps c w (token_reply c (WNEAR_TOKEN c) x), waits,
          \<lambda>e. \<exists>x. e = Native_Amount (w_account w) x, sends_rest w account (stop_reserve (env_decimal E) cfg) rest, waits] rest"
      for x rest
      using Some account that unfolding stop_trace_def by blast
    show ?thesis
      unfolding unwrap_and_transfer_wnear_def Some option.case Let_def withdraw_def wnear_unwrap_def account
      by (intro emits_intros)
        (auto simp: account nothing deposits_view_def [symmetric] token_reply_wnear [symmetric] word_neq_0_conv
          withdraws_def unwraps_def sends_rest_def unat_diff_reserve
          intro!: emits_intros script)
  qed
qed


section \<open>Periods\<close>

definition period_row_holds :: "new_evaluation_period \<Rightarrow> evaluation_period \<Rightarrow> bool" where
  "period_row_holds n r \<longleftrightarrow> ep_period_id r = nep_period_id n \<and> ep_start_time r = nep_start_time n \<and>
     ep_initial_value r = nep_initial_value n \<and> ep_selected_tokens r = nep_selected_tokens n"

lemma period_insert_holds:
  assumes "table_spec T rows period_row_holds" "period_insert T n w = (Inr r, w')"
  shows "period_row_holds n r"
proof -
  obtain q w1 where q: "t_insert T [n] w = (q, w1)" by (cases "t_insert T [n] w")
  with assms(2) obtain xs where xs: "q = Inr (r # xs)"
    by (auto simp: period_insert_def db_result_def db_bind_def db_call_def split: sum.splits list.splits)
  with t_insertD [OF assms(1) q] show ?thesis by (auto simp: list_all2_Cons1)
qed

text \<open>A new period has an identifier that is not empty and starts without tokens.\<close>

lemma emits_create_period:
  assumes "table_spec (te_periods E) rows period_row_holds"
  shows "emits (create_period E v) (\<lambda>es r. es = [] \<and> (\<forall>p. r = Ok p \<longrightarrow> ep_period_id p \<noteq> [] \<and>
    ep_initial_value p = v \<and> ep_selected_tokens p = None) \<and> (\<forall>m. r \<noteq> Panic m))"
proof -
  have uuid: "emits (io_uuid E) (\<lambda>es r. es = [] \<and> (\<exists>i. r = Ok i))"
    by (rule emitsI) (auto simp: io_uuid_def split: prod.splits)
  have insert: "emits (io_db (period_insert (te_periods E) (new_period i now v []))) (\<lambda>es r. es = [] \<and>
      (\<forall>p. r = Ok p \<longrightarrow> ep_period_id p \<noteq> [] \<and> ep_initial_value p = v \<and> ep_selected_tokens p = None) \<and> (\<forall>m. r \<noteq> Panic m))" for i now
    by (rule emits_db_result)
      (auto dest!: period_insert_holds [OF assms] simp: period_row_holds_def new_period_def tokens_column_def)
  show ?thesis unfolding create_period_def
    by (rule emits_seq [OF uuid], rule emits_bind, rule emits_cache_ops(5)) (auto simp: insert)
qed

text \<open>The end of a period: all positions are liquidated first. What is left is the initial value of the
  next period, unless trading is disabled: then the result has no period.\<close>

definition ended :: "bigdecimal \<Rightarrow> 'w client \<Rightarrow> wallet \<Rightarrow> config_stores \<Rightarrow> event list \<Rightarrow> evaluation_period_result \<Rightarrow> bool" where
  "ended B c w cfg es res \<longleftrightarrow>
     (\<exists>liq rest q. es = liq @ rest \<and> liquidation_run B c w liq (Ok q) \<and> er_failed_liquidations res = lr_failed_tokens q) \<and>
     (er_period_id res = [] \<longleftrightarrow> \<not> trade_enabled cfg) \<and> er_is_new_period res = trade_enabled cfg \<and>
     er_existing_tokens res = [] \<and> er_liquidated_balance res \<noteq> None"

lemma endedI:
  "liquidation_run B c w liq (Ok q) \<Longrightarrow> er_failed_liquidations res = lr_failed_tokens q \<Longrightarrow>
    (er_period_id res = [] \<longleftrightarrow> \<not> trade_enabled cfg) \<Longrightarrow> er_is_new_period res = trade_enabled cfg \<Longrightarrow>
    er_existing_tokens res = [] \<Longrightarrow> er_liquidated_balance res \<noteq> None \<Longrightarrow> ended B c w cfg (liq @ rest) res"
  unfolding ended_def by blast

lemma emits_end_period:
  assumes B: "bigdecimal_spec (env_decimal E)" and T: "table_spec (te_periods E) rows period_row_holds"
  shows "emits (end_period E c w p cfg) (\<lambda>es r. \<forall>res. r = Ok res \<longrightarrow> ended (env_decimal E) c w cfg es res)"
proof -
  let ?B = "env_decimal E"
  have harvest: "emits (io_try (check_and_execute_harvest E c w v u i cfg)) (\<lambda>es r. True)" for v u i
    by (rule emits_try, rule emits_conseq [OF emits_check_and_execute_harvest [OF B]]) (simp split: outcome.splits)
  have balance: "emits (post_harvest_balance c w h b) (\<lambda>es r. True)" for h b
    unfolding post_harvest_balance_def by (intro emits_intros; simp add: emits_return)
  have stop: "emits (if b then io_bind (io_try (unwrap_and_transfer_wnear E c w cfg)) (\<lambda>_. io_return ()) else io_return ())
      (\<lambda>es r. True)" for b
    by (intro emits_if emits_return TrueI emits_bind emits_try emits_conseq [OF emits_unwrap_and_transfer_wnear])
      (simp add: emits_return split: outcome.splits)
  have fin: "emits (if \<not> trade_enabled cfg
     then io_bind (if trade_unwrap_on_stop cfg
           then io_bind (io_try (unwrap_and_transfer_wnear E c w cfg)) (\<lambda>_. io_return ()) else io_return ()) (\<lambda>_.
         io_return \<lparr>er_period_id = [], er_is_new_period = False, er_existing_tokens = [],
           er_liquidated_balance = Some b, er_failed_liquidations = lr_failed_tokens q\<rparr>)
     else io_bind (create_period E (yv_to_amount (yocto_to_value b))) (\<lambda>created.
         io_return \<lparr>er_period_id = ep_period_id created, er_is_new_period = True, er_existing_tokens = [],
           er_liquidated_balance = Some b, er_failed_liquidations = lr_failed_tokens q\<rparr>))
     (\<lambda>es r. \<forall>res. r = Ok res \<longrightarrow> ended ?B c w cfg (liq @ mid @ es) res)"
    if "liquidation_run ?B c w liq (Ok q)" for liq mid q b
  proof (rule emits_if, goal_cases)
    case 1
    show ?case by (rule emits_seq [OF stop]) (use 1 in \<open>auto intro!: emits_return endedI [OF that]\<close>)
  next
    case 2
    show ?case by (rule emits_seq [OF emits_create_period [OF T]]) (use 2 in \<open>auto intro!: emits_return endedI [OF that]\<close>)
  qed
  show ?thesis unfolding end_period_def Let_def
  proof (rule emits_seq [OF emits_liquidate_all_positions], goal_cases)
    case (1 liq q)
    note fin = fin [OF 1, where mid = "xs @ ys" for xs ys, unfolded append_assoc]
    show ?case
      by (rule emits_seq [OF harvest], rule emits_seq [OF balance]) (simp_all add: fin)
  qed auto
qed


text \<open>A world that is the table of periods, empty at first.\<close>

definition sample_period_row :: "nat \<Rightarrow> new_evaluation_period \<Rightarrow> evaluation_period" where
  "sample_period_row i n = \<lparr>ep_id = of_nat i, ep_period_id = nep_period_id n, ep_start_time = nep_start_time n,
     ep_initial_value = nep_initial_value n, ep_selected_tokens = nep_selected_tokens n, ep_created_at = nep_start_time n\<rparr>"

definition periods_env :: "(evaluation_period list, rat, unit) trade_env" where
  "periods_env = \<lparr>env_decimal = exact_decimal, env_float = rat_ops, env_dijkstra = sample_scores 0,
     env_isqrt = sample_isqrt, env_account = Some, env_duration = (\<lambda>_. None),
     env_json = \<lparr>ser_tokens = (\<lambda>_. None), de_tokens = (\<lambda>_. None), ser_amounts = (\<lambda>_. None),
       de_amounts = (\<lambda>_. None), ser_supply = (\<lambda>_. None), de_supply = (\<lambda>_. None)\<rparr>,
     env_pools = closed_table, env_clock = (\<lambda>_. 7),
     te_rate_codec = \<lparr>parse_token = Some \<circ> TokenAccount, ser_route = (\<lambda>_. None), de_route = (\<lambda>_. None)\<rparr>,
     te_rates = closed_table, te_periods = list_table sample_period_row, te_trades = closed_table,
     te_holding_codec = \<lparr>ser_holdings = (\<lambda>_. None), de_holdings = (\<lambda>_. None)\<rparr>,
     te_holdings = closed_table, te_uuid = (\<lambda>w. (''id'', w)), te_metadata = (\<lambda>_. None)\<rparr>"

definition silent_client :: "'w client" where
  "silent_client = \<lparr>is_mainnet = True, c_view = (\<lambda>_ _ _ w. (Inl ''silent'', w)), c_exec = (\<lambda>_ _ _ _ _ w. (Inl ''silent'', w)),
     c_transfer = (\<lambda>_ _ _ w. (Inl ''silent'', w)), c_wait_success = (\<lambda>_ w. (Inl ''silent'', w)),
     c_wait_executed = (\<lambda>_ w. (Inl ''silent'', w)), c_native_amount = (\<lambda>_ w. (Inl ''silent'', w)),
     c_gas_price = (\<lambda>w. (Inl ''silent'', w)), c_now = (\<lambda>w. (0, w)), de_u128 = (\<lambda>_. None), de_bounds = (\<lambda>_. None),
     de_balance = (\<lambda>_. None), de_deposits = (\<lambda>_. None)\<rparr>"

definition world_sys :: "'w \<Rightarrow> 'w sys" where
  "world_sys x = \<lparr>world = x, trace = [], last_harvest = 0, last_harvest_time = 0, decimals_cache = Map.empty,
     decimals_failures = Map.empty\<rparr>"


end
