(* ===== verification/Float_Math.thy ===== *)
theory Float_Math
  imports Float64
begin

text \<open>
  What the statistics of the trading strategy use of \<^verbatim>\<open>f64\<close> beyond the basic operations: sums,
  squares, square roots, the conversions from integers, and the clamp with its panic. The
  conversions between decimals and floating point numbers belong to the crate \<^verbatim>\<open>bigdecimal\<close> and are
  a parameter.
\<close>

section \<open>Square roots\<close>

function isqrt :: "int \<Rightarrow> int" where
  "isqrt n = (if n \<le> 0 then 0 else
     let r = 2 * isqrt (n div 4) in if (r + 1) ^ 2 \<le> n then r + 1 else r)"
  by pat_completeness auto

termination
  by (relation "measure nat") auto

declare isqrt.simps [simp del]

lemma isqrt_bounds: "0 \<le> n \<Longrightarrow> 0 \<le> isqrt n \<and> isqrt n ^ 2 \<le> n \<and> n < (isqrt n + 1) ^ 2"
proof (induction n rule: isqrt.induct)
  case (1 n)
  show ?case
  proof (cases "n = 0")
    case True
    then show ?thesis by (simp add: isqrt.simps)
  next
    case False
    define r where "r = isqrt (n div 4)"
    have IH: "0 \<le> r" "r ^ 2 \<le> n div 4" "n div 4 < (r + 1) ^ 2"
      using 1 False unfolding r_def by simp_all
    have lo: "(2 * r) ^ 2 \<le> n" using IH(2) by (simp add: power_mult_distrib)
    have "n div 4 + 1 \<le> (r + 1) ^ 2" using IH(3) by simp
    then have hi: "n < (2 * r + 2) ^ 2" by (simp add: power2_eq_square algebra_simps)
    have "isqrt n = (if (2 * r + 1) ^ 2 \<le> n then 2 * r + 1 else 2 * r)"
      using False 1(2) by (subst isqrt.simps) (simp add: r_def Let_def)
    then show ?thesis using lo hi IH(1) by (simp add: add.assoc)
  qed
qed

text \<open>The root is rounded to the nearest number with 53 significant bits; the root of a
  normal or subnormal number is never subnormal.\<close>

definition round_root :: "rat \<Rightarrow> int" where
  "round_root x = (let s = isqrt \<lfloor>x\<rfloor>; h = (of_int s + 1 / 2) ^ 2 in
     if x < h then s else if h < x then s + 1 else if even s then s else s + 1)"

definition root_quantum :: "rat \<Rightarrow> int" where
  "root_quantum a = binade a div 2 - 52"

fun f64_sqrt :: "f64 \<Rightarrow> f64" where
  "f64_sqrt NaN = NaN" | "f64_sqrt PosInf = PosInf" | "f64_sqrt NegInf = NaN"
| "f64_sqrt (Fin a) = (if a < 0 then NaN else if a = 0 then Fin 0
     else Fin (of_int (round_root (a / pow2 (2 * root_quantum a))) * pow2 (root_quantum a)))"

lemma round_root_nearest:
  assumes "0 \<le> x"
  shows "0 \<le> round_root x" "x \<le> (of_int (round_root x) + 1 / 2) ^ 2"
    "round_root x = 0 \<or> (of_int (round_root x) - 1 / 2) ^ 2 \<le> x"
proof -
  define s where "s = isqrt \<lfloor>x\<rfloor>"
  have s: "0 \<le> s" "s ^ 2 \<le> \<lfloor>x\<rfloor>" "\<lfloor>x\<rfloor> < (s + 1) ^ 2"
    using isqrt_bounds [of "\<lfloor>x\<rfloor>"] assms by (simp_all add: s_def)
  have "of_int (s ^ 2) \<le> x" using s(2) by (simp only: le_floor_iff)
  then have lo: "(of_int s) ^ 2 \<le> x" by simp
  have "x < of_int ((s + 1) ^ 2)" using s(3) by (simp only: floor_less_iff)
  then have hi: "x < (of_int s + 1) ^ 2" by simp
  have half: "(of_int s - 1 / 2) ^ 2 \<le> (of_int s :: rat) ^ 2" if "s \<noteq> 0"
    using that s(1) by (intro power_mono) auto
  have hi': "(of_int s + 1) ^ 2 \<le> (of_int s + 1 + 1 / 2 :: rat) ^ 2" using s(1) by (intro power_mono) auto
  have r: "round_root x = (if x < (of_int s + 1 / 2) ^ 2 then s
      else if (of_int s + 1 / 2) ^ 2 < x then s + 1 else if even s then s else s + 1)"
    by (simp add: round_root_def s_def Let_def)
  show "0 \<le> round_root x" using s(1) by (simp add: r)
  show "x \<le> (of_int (round_root x) + 1 / 2) ^ 2"
    using hi hi' by (simp add: r)
  show "round_root x = 0 \<or> (of_int (round_root x) - 1 / 2) ^ 2 \<le> x"
  proof (cases "round_root x = s")
    case True
    then show ?thesis using lo half by (cases "s = 0") auto
  next
    case False
    then have "round_root x = s + 1" "(of_int s + 1 / 2) ^ 2 \<le> x" by (auto simp: r split: if_splits)
    moreover have "of_int (s + 1) - 1 / 2 = (of_int s + 1 / 2 :: rat)" by simp
    ultimately show ?thesis by metis
  qed
qed

lemma f64_sqrt_nearest:
  assumes "0 < a"
  obtains m where "f64_sqrt (Fin a) = Fin (of_int m * pow2 (root_quantum a))" "2 ^ 52 \<le> m"
    "a \<le> ((of_int m + 1 / 2) * pow2 (root_quantum a)) ^ 2"
    "((of_int m - 1 / 2) * pow2 (root_quantum a)) ^ 2 \<le> a"
proof -
  define q x where "q = root_quantum a" and "x = a / pow2 (2 * q)"
  have p: "pow2 (2 * q) = pow2 q ^ 2" by (simp add: power2_eq_square flip: pow2_add)
  have a: "a = x * pow2 q ^ 2" by (simp add: x_def p)
  have "pow2 (104 + 2 * q) \<le> a"
  proof -
    have "104 + 2 * q \<le> binade a" by (simp add: q_def root_quantum_def)
    then have "pow2 (104 + 2 * q) \<le> pow2 (binade a)" by (rule pow2_mono)
    then show ?thesis using binade_bounds [OF assms] by linarith
  qed
  then have x: "2 ^ 104 \<le> x" by (simp add: x_def pow2_add pow2_of_nat [of 104, simplified] pos_le_divide_eq)
  then have x0: "0 \<le> x" by (rule order_trans [rotated]) simp
  define m where "m = round_root x"
  note m = round_root_nearest [OF x0, folded m_def]
  have m52: "2 ^ 52 \<le> m"
  proof (rule ccontr)
    assume "\<not> 2 ^ 52 \<le> m"
    then have "m \<le> 2 ^ 52 - 1" by simp
    then have "of_int m \<le> (of_int (2 ^ 52 - 1) :: rat)" by (simp only: of_int_le_iff)
    then have "of_int m + 1 / 2 \<le> (2 ^ 52 - 1 / 2 :: rat)" by simp
    then have "(of_int m + 1 / 2) ^ 2 \<le> (2 ^ 52 - 1 / 2 :: rat) ^ 2" using m(1) by (intro power_mono) auto
    also have "\<dots> < 2 ^ 104" by (simp add: power2_eq_square)
    finally show False using m(2) x by linarith
  qed
  show ?thesis
  proof
    show "f64_sqrt (Fin a) = Fin (of_int m * pow2 (root_quantum a))" using assms by (simp add: m_def x_def q_def)
    show "2 ^ 52 \<le> m" by (rule m52)
    have "x * pow2 q ^ 2 \<le> (of_int m + 1 / 2) ^ 2 * pow2 q ^ 2" using m(2) by (rule mult_right_mono) simp
    then show "a \<le> ((of_int m + 1 / 2) * pow2 (root_quantum a)) ^ 2"
      unfolding power_mult_distrib q_def [symmetric] a [symmetric] .
    have "(of_int m - 1 / 2) ^ 2 * pow2 q ^ 2 \<le> x * pow2 q ^ 2" using m(3) m52 by (intro mult_right_mono) auto
    then show "((of_int m - 1 / 2) * pow2 (root_quantum a)) ^ 2 \<le> a"
      unfolding power_mult_distrib q_def [symmetric] a [symmetric] .
  qed
qed

lemma f64_sqrt_zero_iff: "f64_sqrt x = Fin 0 \<longleftrightarrow> x = Fin 0"
proof (cases x)
  case (Fin a)
  show ?thesis
  proof (cases "0 < a")
    case True
    from f64_sqrt_nearest [OF this] obtain m where "f64_sqrt (Fin a) = Fin (of_int m * pow2 (root_quantum a))" "2 ^ 52 \<le> m"
      by blast
    with True Fin show ?thesis by auto
  qed (auto simp: Fin)
qed simp_all

section \<open>Sums, squares and integers\<close>

definition f64_sum :: "f64 list \<Rightarrow> f64" where
  "f64_sum xs = foldl f64_add (Fin 0) xs"

definition f64_sq :: "f64 \<Rightarrow> f64" where
  "f64_sq x = f64_mul x x"

definition f64_of_nat :: "nat \<Rightarrow> f64" where
  "f64_of_nat n = f64_of (of_nat n)"

text \<open>\<^verbatim>\<open>f64::clamp\<close> panics unless the bounds are in order, in particular on a bound that is \<open>NaN\<close>.\<close>

definition f64_clamp_checked :: "f64 \<Rightarrow> f64 \<Rightarrow> f64 \<Rightarrow> f64 option" where
  "f64_clamp_checked x lo hi = (if f64_le lo hi then Some (f64_clamp x lo hi) else None)"

lemma f64_of_0 [simp]: "f64_of 0 = Fin 0"
  using f64_of_finite [of 0] by (simp add: round_to_f64_def)

lemma f64_of_between:
  assumes "representable lo" "representable hi" "\<bar>lo\<bar> < pow2 1024" "\<bar>hi\<bar> < pow2 1024" "lo \<le> x" "x \<le> hi"
  obtains y where "f64_of x = Fin y" "lo \<le> y" "y \<le> hi"
proof -
  have b: "lo \<le> round_to_f64 x" "round_to_f64 x \<le> hi"
    using round_to_f64_mono [OF assms(5)] round_to_f64_mono [OF assms(6)] round_representable assms(1,2) by simp_all
  then have "\<bar>round_to_f64 x\<bar> < pow2 1024" using assms(3,4) by linarith
  then show ?thesis using that b f64_of_finite by blast
qed

lemma f64_clamp_between:
  assumes "lo \<le> hi" "x \<noteq> NaN"
  obtains y where "f64_clamp x (Fin lo) (Fin hi) = Fin y" "lo \<le> y" "y \<le> hi"
proof -
  have "\<exists>y. f64_clamp x (Fin lo) (Fin hi) = Fin y \<and> lo \<le> y \<and> y \<le> hi"
    using assms by (cases x) (auto simp: f64_clamp_def Let_def)
  then show ?thesis using that by blast
qed

lemma f64_clamp_NaN [simp]: "f64_clamp NaN lo hi = NaN"
  by (cases lo; cases hi) (auto simp: f64_clamp_def)

section \<open>Decimals\<close>

record conversions =
  cv_to_f64 :: "rat \<Rightarrow> f64 option"
  cv_from_f64 :: "f64 \<Rightarrow> rat option"
  cv_round :: "nat \<Rightarrow> rat \<Rightarrow> rat"

text \<open>A decimal has no infinity and no \<open>NaN\<close>; rounding to a number of digits moves a decimal by at
  most half a unit of the last one and does not change its sign.\<close>

definition conversions_spec :: "conversions \<Rightarrow> bool" where
  "conversions_spec V \<longleftrightarrow>
     (\<forall>a. \<exists>d. cv_from_f64 V (Fin a) = Some d \<and> (0 \<le> a \<longrightarrow> 0 \<le> d)) \<and>
     (\<forall>x. (\<forall>a. x \<noteq> Fin a) \<longrightarrow> cv_from_f64 V x = None) \<and>
     (\<forall>k d. \<bar>cv_round V k d - d\<bar> \<le> 1 / (2 * 10 ^ k) \<and> (0 \<le> d \<longrightarrow> 0 \<le> cv_round V k d))"

definition exact_conversions :: conversions where
  "exact_conversions = \<lparr>
     cv_to_f64 = (\<lambda>d. Some (f64_of d)),
     cv_from_f64 = (\<lambda>x. case x of Fin a \<Rightarrow> Some a | _ \<Rightarrow> None),
     cv_round = (\<lambda>k d. of_int (\<lfloor>d * 10 ^ k + 1 / 2\<rfloor>) / 10 ^ k)\<rparr>"

lemma exact_conversions_spec: "conversions_spec exact_conversions"
proof -
  have r: "\<bar>of_int \<lfloor>d * 10 ^ k + 1 / 2\<rfloor> / 10 ^ k - d\<bar> \<le> 1 / (2 * 10 ^ k)" for d :: rat and k
  proof -
    define y f where "y = d * 10 ^ k" and "f = (of_int \<lfloor>y + 1 / 2\<rfloor> :: rat)"
    have "\<bar>f - y\<bar> \<le> 1 / 2" unfolding f_def
      using floor_correct [of "y + 1 / 2"] unfolding abs_le_iff by linarith
    then have "\<bar>f - y\<bar> / 10 ^ k \<le> 1 / 2 / 10 ^ k" by (intro divide_right_mono) auto
    also have "\<bar>f - y\<bar> / 10 ^ k = \<bar>f / 10 ^ k - d\<bar>"
      using abs_divide [of "f - y" "10 ^ k"] by (simp add: y_def diff_divide_distrib)
    finally show ?thesis by (simp add: f_def y_def)
  qed
  have n: "0 \<le> of_int \<lfloor>d * 10 ^ k + 1 / 2\<rfloor> / (10 ^ k :: rat)" if "0 \<le> d" for d :: rat and k
    using that by simp
  show ?thesis using r n
    by (auto simp: conversions_spec_def exact_conversions_def split: f64.splits)
qed

end
