(* ===== verification/Portfolio_Stats.thy ===== *)
theory Portfolio_Stats
  imports Float_Math Units Ordered_Map
begin

text \<open>
  The data and the statistics of \<^verbatim>\<open>common/src/algorithm/portfolio.rs\<close>: returns, the shrunk
  covariance matrix, volatility, and the measures of a portfolio. The sums are taken in the order
  of the source. The factorisations and products of \<^verbatim>\<open>nalgebra\<close> and \<^verbatim>\<open>ndarray\<close> are a parameter.
\<close>

section \<open>Data\<close>

instantiation token_out_account :: linorder
begin
definition less_eq_token_out_account :: "token_out_account \<Rightarrow> token_out_account \<Rightarrow> bool" where
  "less_eq_token_out_account a b \<longleftrightarrow> out_inner a \<le> out_inner b"
definition less_token_out_account :: "token_out_account \<Rightarrow> token_out_account \<Rightarrow> bool" where
  "less_token_out_account a b \<longleftrightarrow> out_inner a < out_inner b"
instance
  by standard (auto simp: less_eq_token_out_account_def less_token_out_account_def token_out_account.expand)
end

record price_point =
  pp_timestamp :: int
  pp_price :: token_price
  pp_volume :: "rat option"

record price_history =
  hist_token :: token_out_account
  hist_quote_token :: token_in_account
  hist_prices :: "price_point list"

record token_data =
  td_symbol :: token_out_account
  td_current_rate :: exchange_rate
  td_historical_volatility :: f64
  td_liquidity_score :: "f64 option"
  td_market_cap :: "near_value option"

record portfolio_data =
  pd_tokens :: "token_data list"
  pd_predictions :: "(token_out_account, token_price) btree_map"
  pd_historical_prices :: "(token_out_account, price_history) btree_map"
  pd_prediction_confidences :: "(token_out_account, f64) btree_map"

record wallet_info =
  wi_holdings :: "(token_out_account, token_amount) btree_map"
  wi_total_value :: near_value
  wi_cash_balance :: near_value

section \<open>Matrices\<close>

text \<open>All matrices of the source are square; a matrix is the list of its rows. Reading outside of
  it panics.\<close>

type_synonym matrix = "f64 list list"

definition square :: "nat \<Rightarrow> matrix \<Rightarrow> bool" where
  "square n M \<longleftrightarrow> length M = n \<and> (\<forall>r \<in> set M. length r = n)"

definition from_fn :: "nat \<Rightarrow> (nat \<Rightarrow> nat \<Rightarrow> f64) \<Rightarrow> matrix" where
  "from_fn n f = map (\<lambda>i. map (f i) [0..<n]) [0..<n]"

definition mat_at :: "matrix \<Rightarrow> nat \<Rightarrow> nat \<Rightarrow> f64 option" where
  "mat_at M i j = Option.bind (get_opt M i) (\<lambda>r. get_opt r j)"

definition zeros :: "nat \<Rightarrow> matrix" where
  "zeros n = from_fn n (\<lambda>i j. Fin 0)"

definition diagonal :: "f64 list \<Rightarrow> matrix" where
  "diagonal d = from_fn (length d) (\<lambda>i j. if i = j then d ! i else Fin 0)"

definition transposed :: "matrix \<Rightarrow> matrix" where
  "transposed M = from_fn (length M) (\<lambda>i j. M ! j ! i)"

text \<open>\<^verbatim>\<open>symmetric_eigen\<close>, the product of two matrices, \<^verbatim>\<open>cholesky().map(solve)\<close>, \<^verbatim>\<open>lu().solve\<close>,
  and the products \<^verbatim>\<open>dot\<close> of \<^verbatim>\<open>ndarray\<close> with a vector and of two vectors.\<close>

record linalg =
  la_eigen :: "matrix \<Rightarrow> f64 list \<times> matrix"
  la_mul :: "matrix \<Rightarrow> matrix \<Rightarrow> matrix"
  la_cholesky :: "matrix \<Rightarrow> (f64 list \<Rightarrow> f64 list) option"
  la_lu :: "matrix \<Rightarrow> f64 list \<Rightarrow> f64 list option"
  la_mat_vec :: "matrix \<Rightarrow> f64 list \<Rightarrow> f64 list"
  la_dot :: "f64 list \<Rightarrow> f64 list \<Rightarrow> f64"

text \<open>The shapes of the results, which is all that is relied on.\<close>

definition linalg_spec :: "linalg \<Rightarrow> bool" where
  "linalg_spec L \<longleftrightarrow>
     (\<forall>n M. square n M \<longrightarrow> length (fst (la_eigen L M)) = n \<and> square n (snd (la_eigen L M))) \<and>
     (\<forall>n M N. square n M \<and> square n N \<longrightarrow> square n (la_mul L M N)) \<and>
     (\<forall>n M v solve. square n M \<and> length v = n \<and> la_cholesky L M = Some solve \<longrightarrow> length (solve v) = n) \<and>
     (\<forall>n M v z. square n M \<and> length v = n \<and> la_lu L M v = Some z \<longrightarrow> length z = n) \<and>
     (\<forall>n M v. square n M \<and> length v = n \<longrightarrow> length (la_mat_vec L M v) = n)"

text \<open>A product of incompatible shapes panics.\<close>

definition mat_vec :: "linalg \<Rightarrow> matrix \<Rightarrow> f64 list \<Rightarrow> f64 list option" where
  "mat_vec L M v = (if length v = length M then Some (la_mat_vec L M v) else None)"

definition variance_of :: "linalg \<Rightarrow> matrix \<Rightarrow> f64 list \<Rightarrow> f64 option" where
  "variance_of L M w = map_option (la_dot L w) (mat_vec L M w)"

section \<open>Expected returns\<close>

definition bigdecimal_to_f64_safe :: "conversions \<Rightarrow> rat \<Rightarrow> f64" where
  "bigdecimal_to_f64_safe V d = (case cv_to_f64 V d of
     Some f \<Rightarrow> if f64_is_finite f then f else Fin 0
   | None \<Rightarrow> Fin 0)"

definition price_expected_return :: "conversions \<Rightarrow> token_price \<Rightarrow> token_price \<Rightarrow> f64" where
  "price_expected_return V current predicted =
     (let cur = bigdecimal_to_f64_safe V (price_val current);
          pred = bigdecimal_to_f64_safe V (price_val predicted)
      in if f64_eq cur (Fin 0) then Fin 0 else f64_div (f64_sub pred cur) cur)"

definition calculate_expected_returns :: "bigdecimal \<Rightarrow> conversions \<Rightarrow> token_data list \<Rightarrow>
    (token_out_account, token_price) btree_map \<Rightarrow> f64 list" where
  "calculate_expected_returns B V tokens predictions = map (\<lambda>token.
     case map_of predictions (td_symbol token) of
       Some predicted_price \<Rightarrow>
         (let current_price = rate_to_price B (td_current_rate token) in
          if price_is_zero current_price \<or> price_is_zero predicted_price then Fin 0
          else price_expected_return V current_price predicted_price)
     | None \<Rightarrow> Fin 0) tokens"

section \<open>Daily returns\<close>

definition to_f64_or_zero :: "conversions \<Rightarrow> rat \<Rightarrow> f64" where
  "to_f64_or_zero V d = (case cv_to_f64 V d of Some f \<Rightarrow> f | None \<Rightarrow> Fin 0)"

definition calculate_returns_from_prices :: "conversions \<Rightarrow> price_point list \<Rightarrow> f64 list" where
  "calculate_returns_from_prices V prices =
     (if length prices < 2 then [] else
      let fs = map (\<lambda>p. to_f64_or_zero V (price_val (pp_price p))) (sort_key pp_timestamp prices)
      in concat (map (\<lambda>(price_prev, price_current).
           if f64_less (Fin 0) price_prev then [f64_div (f64_sub price_current price_prev) price_prev] else [])
         (zip fs (tl fs))))"

fun first_of_each :: "token_out_account set \<Rightarrow> price_history list \<Rightarrow> price_history list" where
  "first_of_each seen [] = []"
| "first_of_each seen (p # ps) =
     (if hist_token p \<in> seen then first_of_each seen ps else p # first_of_each (insert (hist_token p) seen) ps)"

definition calculate_daily_returns :: "conversions \<Rightarrow> price_history list \<Rightarrow> f64 list list" where
  "calculate_daily_returns V historical_prices =
     map (\<lambda>p. calculate_returns_from_prices V (hist_prices p)) (first_of_each {} historical_prices)"

section \<open>Covariance\<close>

definition last_n :: "nat \<Rightarrow> 'a list \<Rightarrow> 'a list" where
  "last_n t xs = drop (length xs - t) xs"

definition mean_of :: "f64 list \<Rightarrow> f64" where
  "mean_of xs = f64_div (f64_sum xs) (f64_of_nat (length xs))"

definition calculate_covariance :: "f64 list \<Rightarrow> f64 list \<Rightarrow> f64" where
  "calculate_covariance returns1 returns2 =
     (let min_len = min (length returns1) (length returns2) in
      if min_len < 2 then Fin 0 else
      let r1 = last_n min_len returns1; r2 = last_n min_len returns2; mean1 = mean_of r1; mean2 = mean_of r2
      in f64_div (f64_sum (map (\<lambda>(v1, v2). f64_mul (f64_sub v1 mean1) (f64_sub v2 mean2)) (zip r1 r2)))
           (f64_of_nat (min_len - 1)))"

text \<open>The loops over the diagonal and the part above it.\<close>

definition triangle_sum :: "nat \<Rightarrow> (nat \<Rightarrow> f64) \<Rightarrow> (nat \<Rightarrow> nat \<Rightarrow> f64) \<Rightarrow> f64" where
  "triangle_sum n on_diag off_diag = foldl (\<lambda>acc i.
     foldl (\<lambda>acc j. f64_add acc (off_diag i j)) (f64_add acc (on_diag i)) [Suc i..<n]) (Fin 0) [0..<n]"

definition symmetric_fn :: "nat \<Rightarrow> (nat \<Rightarrow> nat \<Rightarrow> f64) \<Rightarrow> matrix" where
  "symmetric_fn n f = from_fn n (\<lambda>i j. f (min i j) (max i j))"

definition sample_covariance :: "f64 list list \<Rightarrow> matrix" where
  "sample_covariance aligned =
     symmetric_fn (length aligned) (\<lambda>i j. calculate_covariance (aligned ! i) (aligned ! j))"

definition shrinkage_norm :: "matrix \<Rightarrow> f64 list \<Rightarrow> f64" where
  "shrinkage_norm S x = triangle_sum (length S)
     (\<lambda>i. let diff = f64_sub (f64_mul (x ! i) (x ! i)) (S ! i ! i) in f64_mul diff diff)
     (\<lambda>i j. let diff = f64_sub (f64_mul (x ! i) (x ! j)) (S ! i ! j) in f64_mul (f64_mul (f64_of 2) diff) diff)"

definition ledoit_wolf_shrink :: "f64 list list \<Rightarrow> matrix" where
  "ledoit_wolf_shrink daily_returns = (case daily_returns of
     [] \<Rightarrow> []
   | [r] \<Rightarrow>
       [[if r = [] then Fin 0
         else f64_div (f64_sum (map (\<lambda>v. f64_sq (f64_sub v (mean_of r))) r))
           (f64_max (f64_sub (f64_of_nat (length r)) (f64_of 1)) (f64_of 1))]]
   | _ \<Rightarrow>
     (let n = length daily_returns; t = Min (set (map length daily_returns)) in
      if t < 2 then zeros n else
      let aligned = map (last_n t) daily_returns;
          means = map mean_of aligned;
          S = sample_covariance aligned;
          mu = f64_div (f64_sum (map (\<lambda>i. S ! i ! i) [0..<n])) (f64_of_nat n);
          delta_sq = triangle_sum n (\<lambda>i. f64_sq (f64_sub (S ! i ! i) mu))
            (\<lambda>i j. f64_mul (f64_of 2) (f64_sq (S ! i ! j)))
      in if f64_less delta_sq (f64_of (1 / 10 ^ 30)) then from_fn n (\<lambda>i j. if i = j then mu else Fin 0)
         else
         let beta_hat = f64_div
               (f64_sum (map (\<lambda>day. shrinkage_norm S
                  (map (\<lambda>i. f64_sub (aligned ! i ! day) (means ! i)) [0..<n])) [0..<t]))
               (f64_mul (f64_of_nat t) (f64_of_nat t));
             shrinkage = f64_clamp (f64_div beta_hat delta_sq) (Fin 0) (f64_of 1);
             one_minus_s = f64_sub (f64_of 1) shrinkage
         in symmetric_fn n (\<lambda>i j.
              if i = j then f64_add (f64_mul shrinkage mu) (f64_mul one_minus_s (S ! i ! i))
              else f64_mul one_minus_s (S ! i ! j))))"

definition MIN_EIGENVALUE_THRESHOLD :: f64 where
  "MIN_EIGENVALUE_THRESHOLD = f64_of (1 / 10 ^ 6)"

definition ensure_positive_semi_definite :: "linalg \<Rightarrow> matrix \<Rightarrow> matrix" where
  "ensure_positive_semi_definite L covariance =
     (let n = length covariance in
      if n \<le> 1 then covariance else
      let (eigenvalues, eigenvectors) = la_eigen L covariance;
          min_eigenvalue = foldl f64_min PosInf eigenvalues
      in if f64_le MIN_EIGENVALUE_THRESHOLD min_eigenvalue then covariance
         else
         let clamped = diagonal (map (\<lambda>v. f64_max v MIN_EIGENVALUE_THRESHOLD) eigenvalues);
             reconstructed = la_mul L (la_mul L eigenvectors clamped) (transposed eigenvectors)
         in from_fn n (\<lambda>i j. reconstructed ! i ! j))"

definition calculate_covariance_matrix :: "linalg \<Rightarrow> f64 list list \<Rightarrow> matrix" where
  "calculate_covariance_matrix L daily_returns =
     (if daily_returns = [] then [] else ensure_positive_semi_definite L (ledoit_wolf_shrink daily_returns))"

section \<open>Measures of a portfolio\<close>

definition calculate_portfolio_return :: "f64 list \<Rightarrow> f64 list \<Rightarrow> f64" where
  "calculate_portfolio_return weights expected_returns =
     f64_sum (map (\<lambda>(w, r). f64_mul w r) (zip weights expected_returns))"

definition calculate_portfolio_std :: "linalg \<Rightarrow> f64 list \<Rightarrow> matrix \<Rightarrow> f64 option" where
  "calculate_portfolio_std L weights covariance_matrix =
     map_option (\<lambda>v. f64_max (f64_sqrt v) (f64_of (1 / 10 ^ 10))) (variance_of L covariance_matrix weights)"

text \<open>\<open>marginal[i]\<close> of a product that is too short panics; the product has the length of the weights.\<close>

definition risk_parity_divergence :: "linalg \<Rightarrow> f64 list \<Rightarrow> matrix \<Rightarrow> f64 option" where
  "risk_parity_divergence L weights covariance_matrix =
     (let n = length weights in
      if n = 0 then Some (Fin 0) else
      Option.bind (variance_of L covariance_matrix weights) (\<lambda>port_var.
      if f64_le port_var (Fin 0) then Some (Fin 0) else
      let port_vol = f64_sqrt port_var; target_rc = f64_div port_vol (f64_of_nat n) in
      map_option (\<lambda>marginal.
        f64_div (f64_sum (map (\<lambda>(w, m). f64_sq (f64_sub (f64_div (f64_mul w m) port_vol) target_rc)) (zip weights marginal)))
          (f64_of_nat n)) (mat_vec L covariance_matrix weights)))"

definition calculate_market_volatility :: "f64 list list \<Rightarrow> f64" where
  "calculate_market_volatility daily_returns =
     (if daily_returns = [] then Fin 0
      else f64_div (f64_sum (map (\<lambda>returns.
          if length returns < 2 then Fin 0
          else f64_sqrt (f64_div (f64_sum (map (\<lambda>r. f64_sq (f64_sub r (mean_of returns))) returns))
                 (f64_of_nat (length returns - 1)))) daily_returns))
        (f64_of_nat (length daily_returns)))"

definition HIGH_VOLATILITY_THRESHOLD :: f64 where "HIGH_VOLATILITY_THRESHOLD = f64_of (157 / 10000)"

definition LOW_VOLATILITY_THRESHOLD :: f64 where "LOW_VOLATILITY_THRESHOLD = f64_of (523 / 100000)"

definition MAX_POSITION_SIZE :: f64 where "MAX_POSITION_SIZE = f64_of (6 / 10)"

definition volatility_ratio :: "f64 \<Rightarrow> f64" where
  "volatility_ratio avg_volatility = f64_clamp
     (f64_div (f64_sub avg_volatility LOW_VOLATILITY_THRESHOLD)
        (f64_sub HIGH_VOLATILITY_THRESHOLD LOW_VOLATILITY_THRESHOLD)) (Fin 0) (f64_of 1)"

definition volatility_blend_alpha :: "f64 \<Rightarrow> f64" where
  "volatility_blend_alpha avg_volatility = f64_sub (f64_of (9 / 10))
     (f64_mul (volatility_ratio avg_volatility) (f64_sub (f64_of (9 / 10)) (f64_of (7 / 10))))"

definition dynamic_max_position :: "f64 \<Rightarrow> f64" where
  "dynamic_max_position avg_volatility = f64_mul MAX_POSITION_SIZE
     (f64_sub (f64_of 1) (f64_mul (f64_of (3 / 10)) (volatility_ratio avg_volatility)))"

definition validate_weights :: "f64 list \<Rightarrow> f64 list \<times> bool" where
  "validate_weights weights =
     (let valid = (\<lambda>w. f64_is_finite w \<and> f64_le (Fin 0) w) in
      (map (\<lambda>w. if valid w then w else Fin 0) weights, list_ex (\<lambda>w. \<not> valid w) weights))"

definition needs_rebalancing :: "f64 list \<Rightarrow> f64 list \<Rightarrow> f64 \<Rightarrow> bool" where
  "needs_rebalancing current_weights target_weights rebalance_threshold =
     (if length current_weights \<noteq> length target_weights then True
      else list_ex (\<lambda>(current, target). f64_less rebalance_threshold (f64_abs (f64_sub current target)))
        (zip current_weights target_weights))"

definition calculate_turnover_rate :: "f64 list \<Rightarrow> f64 list \<Rightarrow> f64" where
  "calculate_turnover_rate old_weights new_weights =
     (if length old_weights \<noteq> length new_weights then f64_of 1
      else f64_div (f64_sum (map (\<lambda>(x, y). f64_abs (f64_sub x y)) (zip old_weights new_weights))) (f64_of 2))"

definition calculate_sortino_ratio :: "f64 list \<Rightarrow> f64 \<Rightarrow> f64" where
  "calculate_sortino_ratio returns risk_free_rate =
     (if returns = [] then Fin 0 else
      let excess_return = f64_sub (mean_of returns) risk_free_rate;
          downside_variance = f64_div
            (f64_sum (map (\<lambda>r. f64_sq (f64_min (f64_sub r risk_free_rate) (Fin 0))) returns))
            (f64_of_nat (length returns));
          downside_deviation = f64_sqrt downside_variance
      in if f64_eq downside_deviation (Fin 0) then Fin 0 else f64_div excess_return downside_deviation)"

fun drawdown_loop :: "f64 \<Rightarrow> f64 \<Rightarrow> f64 list \<Rightarrow> f64" where
  "drawdown_loop peak max_drawdown [] = max_drawdown"
| "drawdown_loop peak max_drawdown (v # vs) =
     (let peak' = (if f64_less peak v then v else peak);
          drawdown = f64_div (f64_sub peak' v) peak'
      in drawdown_loop peak'
           (if f64_less (Fin 0) peak' \<and> f64_less max_drawdown drawdown then drawdown else max_drawdown) vs)"

definition calculate_max_drawdown :: "f64 list \<Rightarrow> f64" where
  "calculate_max_drawdown cumulative_returns = (case cumulative_returns of
     [] \<Rightarrow> Fin 0 | v # vs \<Rightarrow> drawdown_loop v (Fin 0) vs)"

section \<open>Tokens\<close>

definition MIN_LIQUIDITY_SCORE :: f64 where "MIN_LIQUIDITY_SCORE = f64_of (5 / 10)"

definition min_market_cap :: near_value where "min_market_cap = NearValue 10000"

definition hard_filter_tokens :: "token_data list \<Rightarrow> token_data list" where
  "hard_filter_tokens tokens = filter (\<lambda>t.
     f64_le MIN_LIQUIDITY_SCORE (case td_liquidity_score t of Some s \<Rightarrow> s | None \<Rightarrow> Fin 0) \<and>
     (case td_market_cap t of Some cap \<Rightarrow> nv_val min_market_cap \<le> nv_val cap | None \<Rightarrow> True)) tokens"

definition LIQUIDITY_PENALTY_LAMBDA :: f64 where "LIQUIDITY_PENALTY_LAMBDA = f64_of (1 / 100)"

definition adjust_returns_for_liquidity :: "f64 list \<Rightarrow> f64 list \<Rightarrow> f64 list" where
  "adjust_returns_for_liquidity expected_returns liquidity_scores = map (\<lambda>(r, liq).
     f64_sub r (f64_mul LIQUIDITY_PENALTY_LAMBDA (f64_sub (f64_of 1) (f64_clamp liq (Fin 0) (f64_of 1)))))
     (zip expected_returns liquidity_scores)"

definition weight_from_f64 :: "conversions \<Rightarrow> f64 \<Rightarrow> rat" where
  "weight_from_f64 V x = cv_round V 10 (case cv_from_f64 V x of Some d \<Rightarrow> d | None \<Rightarrow> 0)"

section \<open>Shapes\<close>

named_theorems shapes

lemma length_from_fn [simp]: "length (from_fn n f) = n"
  by (simp add: from_fn_def)

lemma square_length: "square n M \<Longrightarrow> length M = n"
  by (simp add: square_def)

lemma square_from_fn [shapes, simp]: "square n (from_fn n f)"
  by (auto simp: square_def from_fn_def)

lemma from_fn_nth [simp]: "i < n \<Longrightarrow> j < n \<Longrightarrow> from_fn n f ! i ! j = f i j"
  by (simp add: from_fn_def)

lemma square_symmetric_fn [shapes, simp]: "square n (symmetric_fn n f)"
  by (simp add: symmetric_fn_def)

lemma symmetric_fn_nth [simp]: "i < n \<Longrightarrow> j < n \<Longrightarrow> symmetric_fn n f ! i ! j = f (min i j) (max i j)"
  by (simp add: symmetric_fn_def)

lemma mat_at_square [simp]: "square n M \<Longrightarrow> i < n \<Longrightarrow> j < n \<Longrightarrow> mat_at M i j = Some (M ! i ! j)"
  by (auto simp: square_def mat_at_def get_opt_def)

lemma mat_vec_square [simp]: "square n M \<Longrightarrow> length v = n \<Longrightarrow> mat_vec L M v = Some (la_mat_vec L M v)"
  by (simp add: mat_vec_def square_length)

lemma variance_of_square [simp]:
  "square n M \<Longrightarrow> length w = n \<Longrightarrow> variance_of L M w = Some (la_dot L w (la_mat_vec L M w))"
  by (simp add: variance_of_def)

lemma length_mat_vec: "linalg_spec L \<Longrightarrow> square n M \<Longrightarrow> length v = n \<Longrightarrow> length (la_mat_vec L M v) = n"
  by (simp add: linalg_spec_def)

definition symmetric :: "matrix \<Rightarrow> bool" where
  "symmetric M \<longleftrightarrow> (\<forall>i < length M. \<forall>j < length M. M ! i ! j = M ! j ! i)"

lemma symmetric_intros:
  "symmetric (symmetric_fn n f)" "symmetric (zeros n)" "symmetric (from_fn n (\<lambda>i j. if i = j then c else Fin 0))"
  by (simp_all add: symmetric_def zeros_def symmetric_fn_def min.commute max.commute)

lemma square_zeros [shapes, simp]: "square n (zeros n)"
  by (simp add: zeros_def)

lemma pred_Let: "(\<And>x. P (f x)) \<Longrightarrow> P (Let e f)"
  by (simp add: Let_def)

lemma pred_if: "P x \<Longrightarrow> P y \<Longrightarrow> P (if b then x else y)"
  by simp

lemma ledoit_wolf_shrink_shape [shapes]:
  "square (length rs) (ledoit_wolf_shrink rs)" "symmetric (ledoit_wolf_shrink rs)"
proof -
  consider "rs = []" | r where "rs = [r]" | r r' rs' where "rs = r # r' # rs'" by (cases rs rule: remdups_adj.cases) auto
  then have "square (length rs) (ledoit_wolf_shrink rs) \<and> symmetric (ledoit_wolf_shrink rs)"
  proof cases
    case (3 r r' rs')
    have "square (length rs) (ledoit_wolf_shrink rs)" unfolding ledoit_wolf_shrink_def 3 list.case Let_def [of "length _"]
      by (rule pred_Let [where P = "square _"] pred_if [where P = "square _"] square_zeros square_from_fn square_symmetric_fn)+
    moreover have "symmetric (ledoit_wolf_shrink rs)" unfolding ledoit_wolf_shrink_def 3 list.case
      by (rule pred_Let [where P = symmetric] pred_if [where P = symmetric] symmetric_intros)+
    ultimately show ?thesis by blast
  qed (simp_all add: ledoit_wolf_shrink_def square_def symmetric_def)
  then show "square (length rs) (ledoit_wolf_shrink rs)" "symmetric (ledoit_wolf_shrink rs)" by auto
qed

lemma ensure_positive_semi_definite_shape:
  "linalg_spec L \<Longrightarrow> square n M \<Longrightarrow> square n (ensure_positive_semi_definite L M)"
  by (simp add: ensure_positive_semi_definite_def square_length Let_def split: prod.split)

lemma calculate_covariance_matrix_shape [shapes]:
  "linalg_spec L \<Longrightarrow> square (length rs) (calculate_covariance_matrix L rs)"
  using ensure_positive_semi_definite_shape [OF _ ledoit_wolf_shrink_shape(1)]
  by (simp add: calculate_covariance_matrix_def square_def [where M = "[]"])

lemma calculate_portfolio_std_square [simp]: "square n M \<Longrightarrow> length w = n \<Longrightarrow>
    calculate_portfolio_std L w M = Some (f64_max (f64_sqrt (la_dot L w (la_mat_vec L M w))) (f64_of (1 / 10 ^ 10)))"
  by (simp add: calculate_portfolio_std_def)

lemma risk_parity_divergence_square:
  "square n M \<Longrightarrow> length w = n \<Longrightarrow> \<exists>d. risk_parity_divergence L w M = Some d"
  by (auto simp: risk_parity_divergence_def Let_def)

lemma first_of_each_distinct: "distinct (map hist_token ps) \<Longrightarrow> seen \<inter> hist_token ` set ps = {} \<Longrightarrow> first_of_each seen ps = ps"
  by (induction seen ps rule: first_of_each.induct) auto

section \<open>No return is undefined\<close>

lemma f64_of_not_NaN [simp]: "f64_of x \<noteq> NaN"
  by (simp add: f64_of_def Let_def)

lemma f64_div_finite_not_NaN: "x \<noteq> NaN \<Longrightarrow> b \<noteq> 0 \<Longrightarrow> f64_div x (Fin b) \<noteq> NaN"
  by (cases x) (auto simp: f64_div_def inf_of_def sgn_if)

lemma f64_sub_not_NaN: "x \<noteq> NaN \<Longrightarrow> f64_sub x (Fin b) \<noteq> NaN"
  by (cases x) (auto simp: f64_sub_def)

lemma to_f64_safe_finite: "\<exists>a. bigdecimal_to_f64_safe V d = Fin a"
  by (auto simp: bigdecimal_to_f64_safe_def f64_is_finite_def split: option.splits f64.splits)

lemma price_expected_return_not_NaN: "price_expected_return V cur pred \<noteq> NaN"
proof -
  obtain a b where "bigdecimal_to_f64_safe V (price_val cur) = Fin a" "bigdecimal_to_f64_safe V (price_val pred) = Fin b"
    using to_f64_safe_finite by metis
  then show ?thesis
    using f64_div_finite_not_NaN [OF f64_sub_not_NaN, of "Fin b" a a] by (simp add: price_expected_return_def f64_eq_def Let_def)
qed

lemma expected_returns_not_NaN: "NaN \<notin> set (calculate_expected_returns B V tokens predictions)"
  using price_expected_return_not_NaN
  by (auto simp: calculate_expected_returns_def Let_def split: option.splits if_splits) metis+

section \<open>Volatility\<close>

lemma f64_of_mono_between:
  assumes "lo \<le> x" "x \<le> hi" "\<bar>round_to_f64 lo\<bar> \<le> 2" "\<bar>round_to_f64 hi\<bar> \<le> 2"
  shows "f64_of x = Fin (round_to_f64 x)" "round_to_f64 lo \<le> round_to_f64 x" "round_to_f64 x \<le> round_to_f64 hi"
proof -
  show b: "round_to_f64 lo \<le> round_to_f64 x" "round_to_f64 x \<le> round_to_f64 hi"
    using assms by (auto intro: round_to_f64_mono)
  have "(2 :: rat) < pow2 2" by (simp add: pow2_def)
  also have "\<dots> \<le> pow2 1024" by (rule pow2_mono) simp
  finally have "(2 :: rat) < pow2 1024" .
  then show "f64_of x = Fin (round_to_f64 x)" using b assms(3,4) by (intro f64_of_finite) linarith
qed

lemma volatility_constants:
  "f64_sub HIGH_VOLATILITY_THRESHOLD LOW_VOLATILITY_THRESHOLD = Fin (fin (f64_sub HIGH_VOLATILITY_THRESHOLD LOW_VOLATILITY_THRESHOLD))"
  "fin (f64_sub HIGH_VOLATILITY_THRESHOLD LOW_VOLATILITY_THRESHOLD) \<noteq> 0"
  "LOW_VOLATILITY_THRESHOLD = Fin (fin LOW_VOLATILITY_THRESHOLD)"
  "f64_of 1 = Fin 1" "round_to_f64 1 = 1"
  by code_simp+

lemma volatility_ratio_bounds:
  assumes "v \<noteq> NaN"
  obtains r where "volatility_ratio v = Fin r" "0 \<le> r" "r \<le> 1"
proof -
  have "f64_div (f64_sub v LOW_VOLATILITY_THRESHOLD) (f64_sub HIGH_VOLATILITY_THRESHOLD LOW_VOLATILITY_THRESHOLD) \<noteq> NaN"
    using f64_div_finite_not_NaN [OF f64_sub_not_NaN [OF assms]] volatility_constants by metis
  from f64_clamp_between [OF zero_le_one this] show ?thesis
    using that by (simp add: volatility_ratio_def volatility_constants(4)) metis
qed

lemma alpha_constants:
  "f64_of (9 / 10) = Fin (fin (f64_of (9 / 10))) \<and>
   f64_sub (f64_of (9 / 10)) (f64_of (7 / 10)) = Fin (fin (f64_sub (f64_of (9 / 10)) (f64_of (7 / 10)))) \<and>
   0 \<le> fin (f64_sub (f64_of (9 / 10)) (f64_of (7 / 10))) \<and>
   \<bar>round_to_f64 (fin (f64_sub (f64_of (9 / 10)) (f64_of (7 / 10))))\<bar> \<le> 2 \<and>
   69 / 100 \<le> round_to_f64 (fin (f64_of (9 / 10)) - round_to_f64 (fin (f64_sub (f64_of (9 / 10)) (f64_of (7 / 10))))) \<and>
   round_to_f64 (fin (f64_of (9 / 10)) - round_to_f64 (fin (f64_sub (f64_of (9 / 10)) (f64_of (7 / 10))))) \<le> 2 \<and>
   round_to_f64 (fin (f64_of (9 / 10))) = fin (f64_of (9 / 10)) \<and>
   \<bar>fin (f64_of (9 / 10))\<bar> \<le> 2"
  by code_simp

lemma volatility_blend_alpha_bounds:
  assumes "v \<noteq> NaN"
  obtains a where "volatility_blend_alpha v = Fin a" "69 / 100 \<le> a" "a \<le> fin (f64_of (9 / 10))"
proof -
  obtain r where r: "volatility_ratio v = Fin r" "0 \<le> r" "r \<le> 1" using volatility_ratio_bounds [OF assms] .
  define d c where "d = fin (f64_sub (f64_of (9 / 10)) (f64_of (7 / 10)))" and "c = fin (f64_of (9 / 10))"
  have d: "f64_sub (f64_of (9 / 10)) (f64_of (7 / 10)) = Fin d" "0 \<le> d" "\<bar>round_to_f64 d\<bar> \<le> 2"
    and c: "f64_of (9 / 10) = Fin c" "round_to_f64 c = c" "\<bar>c\<bar> \<le> 2"
    and dc: "69 / 100 \<le> round_to_f64 (c - round_to_f64 d)" "round_to_f64 (c - round_to_f64 d) \<le> 2"
    using alpha_constants unfolding d_def c_def by blast+
  have rd: "0 \<le> r * d" "r * d \<le> d" using r d(2) by (auto simp: mult_left_le_one_le)
  note x = f64_of_mono_between [OF rd _ d(3)]
  have z: "round_to_f64 0 = 0" by (simp add: round_to_f64_def)
  define x where "x = round_to_f64 (r * d)"
  have x: "f64_of (r * d) = Fin x" "0 \<le> x" "x \<le> round_to_f64 d" using x z by (simp_all add: x_def)
  have y: "f64_of (c - x) = Fin (round_to_f64 (c - x))" "round_to_f64 (c - round_to_f64 d) \<le> round_to_f64 (c - x)"
    "round_to_f64 (c - x) \<le> c"
    using f64_of_mono_between [of "c - round_to_f64 d" "c - x" c] x dc c by auto
  have "volatility_blend_alpha v = Fin (round_to_f64 (c - x))"
    unfolding volatility_blend_alpha_def d(1) unfolding r(1) c(1) f64_mul_def by (simp add: x(1) f64_sub_def y(1))
  then show ?thesis using that y dc by (simp add: c_def [symmetric])
qed

lemma position_constants:
  "f64_of (3 / 10) = Fin (fin (f64_of (3 / 10))) \<and>
   MAX_POSITION_SIZE = Fin (fin MAX_POSITION_SIZE) \<and>
   0 \<le> fin (f64_of (3 / 10)) \<and>
   \<bar>round_to_f64 (fin (f64_of (3 / 10)))\<bar> \<le> 2 \<and>
   0 \<le> fin MAX_POSITION_SIZE \<and>
   0 \<le> round_to_f64 (1 - round_to_f64 (fin (f64_of (3 / 10)))) \<and>
   round_to_f64 (1 - round_to_f64 (fin (f64_of (3 / 10)))) \<le> 2 \<and>
   41 / 100 \<le> round_to_f64 (fin MAX_POSITION_SIZE * round_to_f64 (1 - round_to_f64 (fin (f64_of (3 / 10))))) \<and>
   round_to_f64 (fin MAX_POSITION_SIZE * round_to_f64 (1 - round_to_f64 (fin (f64_of (3 / 10))))) \<le> 2 \<and>
   round_to_f64 (fin MAX_POSITION_SIZE) \<le> 3 / 5 \<and>
   \<bar>round_to_f64 (fin MAX_POSITION_SIZE)\<bar> \<le> 2"
  by code_simp

lemma dynamic_max_position_bounds:
  assumes "v \<noteq> NaN"
  obtains p where "dynamic_max_position v = Fin p" "41 / 100 \<le> p" "p \<le> 3 / 5"
proof -
  obtain r where r: "volatility_ratio v = Fin r" "0 \<le> r" "r \<le> 1" using volatility_ratio_bounds [OF assms] .
  define d m where "d = fin (f64_of (3 / 10))" and "m = fin MAX_POSITION_SIZE"
  have d: "f64_of (3 / 10) = Fin d" "0 \<le> d" "\<bar>round_to_f64 d\<bar> \<le> 2"
    and m: "MAX_POSITION_SIZE = Fin m" "0 \<le> m" "round_to_f64 m \<le> 3 / 5" "\<bar>round_to_f64 m\<bar> \<le> 2"
    and c: "0 \<le> round_to_f64 (1 - round_to_f64 d)" "round_to_f64 (1 - round_to_f64 d) \<le> 2"
      "41 / 100 \<le> round_to_f64 (m * round_to_f64 (1 - round_to_f64 d))"
      "round_to_f64 (m * round_to_f64 (1 - round_to_f64 d)) \<le> 2"
    using position_constants unfolding d_def m_def by blast+
  have rd: "0 \<le> d * r" "d * r \<le> d" using r d(2) by (auto simp: mult_left_le)
  have z: "round_to_f64 0 = 0" by (simp add: round_to_f64_def)
  define x where "x = round_to_f64 (d * r)"
  have x: "f64_of (d * r) = Fin x" "0 \<le> x" "x \<le> round_to_f64 d"
    using f64_of_mono_between [OF rd _ d(3)] z by (simp_all add: x_def)
  define y where "y = round_to_f64 (1 - x)"
  have y: "f64_of (1 - x) = Fin y" "round_to_f64 (1 - round_to_f64 d) \<le> y" "y \<le> 1"
    using f64_of_mono_between [of "1 - round_to_f64 d" "1 - x" 1] x c volatility_constants(5) by (auto simp: y_def)
  have my: "m * round_to_f64 (1 - round_to_f64 d) \<le> m * y" "m * y \<le> m"
    using y m(2) by (simp_all add: mult_left_mono mult_left_le)
  have w: "f64_of (m * y) = Fin (round_to_f64 (m * y))" "41 / 100 \<le> round_to_f64 (m * y)" "round_to_f64 (m * y) \<le> 3 / 5"
    using f64_of_mono_between [OF my] m c by auto
  have "dynamic_max_position v = Fin (round_to_f64 (m * y))"
    unfolding dynamic_max_position_def r(1) d(1) m(1) f64_mul_def volatility_constants(4)
    by (simp add: x(1) f64_sub_def y(1) w(1))
  then show ?thesis using that w by simp
qed

lemma validate_weights_valid:
  assumes "validate_weights weights = (ws, invalid)"
  shows "\<forall>w \<in> set ws. f64_is_finite w \<and> f64_le (Fin 0) w" "\<not> invalid \<longrightarrow> ws = weights" "length ws = length weights"
  using assms by (auto simp: validate_weights_def Let_def f64_is_finite_def f64_le_def f64_eq_def list_ex_iff intro!: map_idI)

end
