(* ===== verification/Portfolio_Optimizer.thy ===== *)
theory Portfolio_Optimizer
  imports Portfolio_Stats
begin

text \<open>
  The optimisers of \<^verbatim>\<open>common/src/algorithm/portfolio.rs\<close>: the largest Sharpe ratio without and with a
  bound on the positions, risk parity without and with that bound, and their blend for a subset of
  the tokens. \<open>None\<close> is a panic. A loop with a counter takes its bound as an argument; the loop of
  \<^verbatim>\<open>maximize_sharpe_ratio\<close> has none and ends because every round drops a token.
\<close>

section \<open>Vectors\<close>

definition RISK_FREE_RATE :: f64 where "RISK_FREE_RATE = f64_of (5479 / 10 ^ 8)"

definition RIDGE_EPSILON :: f64 where "RIDGE_EPSILON = f64_of (1 / 10 ^ 6)"

definition equal_weights :: "nat \<Rightarrow> f64 list" where
  "equal_weights n = replicate n (f64_div (f64_of 1) (f64_of_nat n))"

text \<open>A vector of zeros in which some entries are set.\<close>

definition spread :: "f64 list \<Rightarrow> (nat \<times> f64) list \<Rightarrow> f64 list" where
  "spread w entries = foldl (\<lambda>w (i, x). w[i := x]) w entries"

definition normalize_weights :: "f64 list \<Rightarrow> f64 list" where
  "normalize_weights weights = (let s = f64_sum weights in
     if f64_less (Fin 0) s then map (\<lambda>w. f64_div w s) weights else weights)"

definition clamp_and_normalize :: "f64 list \<Rightarrow> f64 \<Rightarrow> f64 list option" where
  "clamp_and_normalize weights max_position =
     map_option normalize_weights (those (map (\<lambda>w. f64_clamp_checked w (Fin 0) max_position) weights))"

definition sub_matrix :: "matrix \<Rightarrow> nat list \<Rightarrow> matrix option" where
  "sub_matrix M idx = those (map (\<lambda>i. those (map (\<lambda>j. mat_at M i j) idx)) idx)"

definition extract_sub_portfolio :: "f64 list \<Rightarrow> matrix \<Rightarrow> nat list \<Rightarrow> (f64 list \<times> matrix) option" where
  "extract_sub_portfolio expected_returns covariance_matrix indices =
     Option.bind (those (map (get_opt expected_returns) indices)) (\<lambda>sub_returns.
     map_option (\<lambda>sub_cov. (sub_returns, sub_cov)) (sub_matrix covariance_matrix indices))"

section \<open>The largest Sharpe ratio\<close>

definition ridge :: "matrix \<Rightarrow> matrix" where
  "ridge M = from_fn (length M) (\<lambda>i j. if i = j then f64_add (M ! i ! j) RIDGE_EPSILON else M ! i ! j)"

definition solve_system :: "linalg \<Rightarrow> matrix \<Rightarrow> f64 list \<Rightarrow> f64 list option" where
  "solve_system L M rhs = (case la_cholesky L M of
     Some solve \<Rightarrow> Some (solve rhs)
   | None \<Rightarrow> (case la_lu L M rhs of
       Some z \<Rightarrow> Some z
     | None \<Rightarrow> map_option (\<lambda>solve. solve rhs) (la_cholesky L (ridge M))))"

fun min_entry :: "nat \<times> f64 \<Rightarrow> (nat \<times> f64) list \<Rightarrow> nat \<times> f64" where
  "min_entry best [] = best"
| "min_entry best (e # es) = min_entry (if f64_less (snd e) (snd best) then e else best) es"

definition all_returns_equal :: "f64 list \<Rightarrow> bool" where
  "all_returns_equal expected_returns = f64_less
     (f64_abs (f64_sub (foldl f64_max NegInf expected_returns) (foldl f64_min PosInf expected_returns)))
     (f64_of (1 / 10 ^ 12))"

definition sharpe_weights :: "nat \<Rightarrow> nat list \<Rightarrow> f64 list \<Rightarrow> f64 list" where
  "sharpe_weights n active z = (let sum_z = f64_sum z in
     if f64_le sum_z (Fin 0) then equal_weights n
     else spread (replicate n (Fin 0)) (zip active (map (\<lambda>x. f64_div x sum_z) z)))"

function sharpe_loop :: "linalg \<Rightarrow> matrix \<Rightarrow> f64 list \<Rightarrow> nat list \<Rightarrow> f64 list option" where
  "sharpe_loop L covariance_matrix excess_returns active =
     (let n = length excess_returns in
      if active = [] then Some (equal_weights n) else
      Option.bind (extract_sub_portfolio excess_returns covariance_matrix active) (\<lambda>(excess_sub, cov_sub).
      case solve_system L cov_sub excess_sub of
        None \<Rightarrow> Some (equal_weights n)
      | Some z \<Rightarrow> (case enumerate 0 z of
          [] \<Rightarrow> Some (sharpe_weights n active z)
        | e # es \<Rightarrow>
            (let idx = fst (min_entry e es) in
             if f64_less (snd (min_entry e es)) (Fin 0)
             then if idx < length active
                  then sharpe_loop L covariance_matrix excess_returns (take idx active @ drop (Suc idx) active)
                  else None
             else Some (sharpe_weights n active z)))))"
  by pat_completeness auto

termination
  by (relation "measure (\<lambda>(L, M, r, active). length active)") auto

declare sharpe_loop.simps [simp del]

definition maximize_sharpe_ratio :: "linalg \<Rightarrow> f64 list \<Rightarrow> matrix \<Rightarrow> f64 list option" where
  "maximize_sharpe_ratio L expected_returns covariance_matrix =
     (let n = length expected_returns in
      if n = 0 then Some [] else if n = 1 then Some [f64_of 1]
      else if all_returns_equal expected_returns then Some (equal_weights n)
      else sharpe_loop L covariance_matrix (map (\<lambda>r. f64_sub r RISK_FREE_RATE) expected_returns) [0..<n])"

section \<open>Bounded positions\<close>

datatype bound_state = Free | Lower | Upper

datatype 's round = Again 's | Done "f64 list"

definition effective_max :: "nat \<Rightarrow> f64 \<Rightarrow> f64" where
  "effective_max n max_position =
     (if f64_less (f64_mul (f64_of_nat n) max_position) (f64_of 1)
      then f64_div (f64_of 1) (f64_of_nat n) else max_position)"

definition TINY :: f64 where "TINY = f64_of (1 / 10 ^ 10)"

definition gradient :: "matrix \<Rightarrow> f64 list \<Rightarrow> f64 \<Rightarrow> f64 list \<Rightarrow> nat \<Rightarrow> f64 option" where
  "gradient M excess_returns gamma weights i =
     map_option (\<lambda>row. f64_sub (excess_returns ! i) (f64_mul gamma (f64_sum row)))
       (those (map (\<lambda>j. map_option (\<lambda>x. f64_mul x (weights ! j)) (mat_at M i j)) [0..<length excess_returns]))"

text \<open>The first bounded token whose gradient points inside.\<close>

fun find_release :: "(nat \<Rightarrow> f64 option) \<Rightarrow> (nat \<times> bound_state) list \<Rightarrow> nat option option" where
  "find_release grad [] = Some None"
| "find_release grad ((i, st) # rest) = (case st of
     Free \<Rightarrow> find_release grad rest
   | Lower \<Rightarrow> Option.bind (grad i) (\<lambda>g. if f64_less TINY g then Some (Some i) else find_release grad rest)
   | Upper \<Rightarrow> Option.bind (grad i) (\<lambda>g. if f64_less g (f64_neg TINY) then Some (Some i) else find_release grad rest))"

text \<open>The product of the covariances with the upper positions.\<close>

definition upper_effect :: "matrix \<Rightarrow> f64 \<Rightarrow> nat list \<Rightarrow> nat list \<Rightarrow> f64 list option" where
  "upper_effect M emax free upper = those (map (\<lambda>f.
     map_option f64_sum (those (map (\<lambda>u. map_option (\<lambda>x. f64_mul x emax) (mat_at M f u)) upper))) free)"

definition sharpe_violations :: "linalg \<Rightarrow> matrix \<Rightarrow> f64 list \<Rightarrow> f64 \<Rightarrow> bound_state list \<Rightarrow> nat list \<Rightarrow> nat list \<Rightarrow>
    f64 \<Rightarrow> f64 list \<Rightarrow> bound_state list round option" where
  "sharpe_violations L M excess_returns emax st free upper gamma w_free =
     (let n = length excess_returns;
          weights = spread (replicate n (Fin 0)) (zip free w_free @ map (\<lambda>u. (u, emax)) upper)
      in case find (\<lambda>(i, w). f64_less w (f64_neg TINY)) (zip free w_free) of
        Some (i, _) \<Rightarrow> Some (Again (st[i := Lower]))
      | None \<Rightarrow> (case find (\<lambda>(i, w). f64_less (f64_add emax TINY) w) (zip free w_free) of
          Some (i, _) \<Rightarrow> Some (Again (st[i := Upper]))
        | None \<Rightarrow> Option.bind (find_release (gradient M excess_returns gamma weights) (enumerate 0 st)) (\<lambda>released.
            case released of
              Some i \<Rightarrow> Some (Again (st[i := Free]))
            | None \<Rightarrow>
                if f64_le (f64_sum weights) (Fin 0) then Some (Done (equal_weights n))
                else map_option Done (clamp_and_normalize (normalize_weights weights) emax))))"

definition box_sharpe_round :: "linalg \<Rightarrow> matrix \<Rightarrow> f64 list \<Rightarrow> f64 \<Rightarrow> bound_state list \<Rightarrow> bound_state list round option" where
  "box_sharpe_round L M excess_returns emax st =
     (let n = length excess_returns;
          free = filter (\<lambda>i. st ! i = Free) [0..<n];
          upper = filter (\<lambda>i. st ! i = Upper) [0..<n]
      in if free = [] then
           Some (Done (if upper = [] then equal_weights n
             else normalize_weights (spread (replicate n (Fin 0)) (map (\<lambda>u. (u, emax)) upper))))
      else
      let budget_free = f64_sub (f64_of 1) (f64_sum (map (\<lambda>_. emax) upper))
      in if f64_le budget_free (Fin 0) then
           (let total = f64_mul (f64_of_nat (length upper)) emax
            in Some (Done (spread (replicate n (Fin 0)) (map (\<lambda>u. (u, f64_div emax total)) upper))))
      else
      Option.bind (extract_sub_portfolio excess_returns M free) (\<lambda>(excess_f, cov_ff).
      case solve_system L cov_ff excess_f of
        None \<Rightarrow> Some (Done (equal_weights n))
      | Some p \<Rightarrow>
          Option.bind (if upper = [] then Some (Some (replicate (length free) (Fin 0)))
            else map_option (solve_system L cov_ff) (upper_effect M emax free upper)) (\<lambda>solved.
          case solved of
            None \<Rightarrow> Some (Done (equal_weights n))
          | Some q \<Rightarrow>
              (let sum_p = f64_sum p; sum_q = f64_sum q in
               if f64_less (f64_abs sum_p) (f64_of (1 / 10 ^ 15)) then Some (Done (equal_weights n))
               else
               let gamma = f64_div (f64_add budget_free sum_q) sum_p;
                   w_free = map (\<lambda>i. f64_sub (f64_mul gamma (p ! i)) (q ! i)) [0..<length free]
               in sharpe_violations L M excess_returns emax st free upper gamma w_free))))"

fun rounds :: "('s \<Rightarrow> 's round option) \<Rightarrow> f64 list \<Rightarrow> nat \<Rightarrow> 's \<Rightarrow> f64 list option" where
  "rounds step otherwise 0 s = Some otherwise"
| "rounds step otherwise (Suc k) s = Option.bind (step s) (\<lambda>r. case r of
     Again s' \<Rightarrow> rounds step otherwise k s'
   | Done w \<Rightarrow> Some w)"

definition box_maximize_sharpe :: "linalg \<Rightarrow> f64 list \<Rightarrow> matrix \<Rightarrow> f64 \<Rightarrow> f64 list option" where
  "box_maximize_sharpe L expected_returns covariance_matrix max_position =
     (let n = length expected_returns; emax = effective_max n max_position in
      if n = 0 then Some [] else if n = 1 then Some [f64_of 1]
      else if f64_le (f64_of 1) emax then maximize_sharpe_ratio L expected_returns covariance_matrix
      else if all_returns_equal expected_returns then Some (equal_weights n)
      else rounds
        (box_sharpe_round L covariance_matrix (map (\<lambda>r. f64_sub r RISK_FREE_RATE) expected_returns) emax)
        (equal_weights n) (3 * n + 10) (replicate n Free))"

section \<open>Risk parity\<close>

definition MAX_RISK_PARITY_ITERATIONS :: nat where "MAX_RISK_PARITY_ITERATIONS = 50"

definition RISK_PARITY_CONVERGENCE_TOLERANCE :: f64 where
  "RISK_PARITY_CONVERGENCE_TOLERANCE = f64_of (1 / 10 ^ 6)"

definition PINNED_RC_RELEASE_FACTOR :: f64 where "PINNED_RC_RELEASE_FACTOR = f64_of (15 / 10)"

definition adjust_weight :: "f64 \<Rightarrow> f64 \<Rightarrow> f64 \<times> f64 \<Rightarrow> f64" where
  "adjust_weight portfolio_vol target = (\<lambda>(w, marginal).
     if f64_less (Fin 0) marginal then
       (let current = f64_div (f64_mul w marginal) portfolio_vol in
        if f64_less (Fin 0) current
        then f64_mul w (f64_clamp (f64_div target current) (f64_of (1 / 2)) (f64_of 2)) else w)
     else w)"

fun risk_parity_loop :: "linalg \<Rightarrow> matrix \<Rightarrow> (f64 list \<Rightarrow> f64 list) \<Rightarrow> nat \<Rightarrow> f64 list \<Rightarrow> f64 list option" where
  "risk_parity_loop L M normalise 0 w = Some w"
| "risk_parity_loop L M normalise (Suc k) w =
     Option.bind (variance_of L M w) (\<lambda>variance.
     if f64_le variance (Fin 0) then Some w else
     Option.bind (mat_vec L M w) (\<lambda>marginal_risk.
     let vol = f64_sqrt variance;
         target = f64_div vol (f64_of_nat (length w));
         w' = normalise (map (adjust_weight vol target) (zip w marginal_risk));
         max_change = foldl f64_max (Fin 0) (map (\<lambda>(a, b). f64_abs (f64_sub a b)) (zip w' w))
     in if f64_less max_change RISK_PARITY_CONVERGENCE_TOLERANCE then Some w'
        else risk_parity_loop L M normalise k w'))"

definition apply_risk_parity :: "linalg \<Rightarrow> f64 list \<Rightarrow> matrix \<Rightarrow> f64 list option" where
  "apply_risk_parity L weights covariance_matrix =
     (if weights = [] then Some []
      else risk_parity_loop L covariance_matrix normalize_weights MAX_RISK_PARITY_ITERATIONS weights)"

definition scale_to :: "f64 \<Rightarrow> f64 list \<Rightarrow> f64 list" where
  "scale_to budget w = (let s = f64_sum w in
     if f64_less (Fin 0) s then map (\<lambda>x. f64_mul x (f64_div budget s)) w else w)"

definition parity_release :: "linalg \<Rightarrow> matrix \<Rightarrow> f64 list \<Rightarrow> bool list \<Rightarrow> nat option option" where
  "parity_release L M current_w pinned =
     Option.bind (variance_of L M current_w) (\<lambda>pv.
     if f64_less (Fin 0) pv then
       map_option (\<lambda>mg.
         let pvol = f64_sqrt pv; target_rc = f64_div pvol (f64_of_nat (length current_w)) in
         find (\<lambda>i. pinned ! i \<and>
           f64_less (f64_mul target_rc PINNED_RC_RELEASE_FACTOR)
             (f64_div (f64_mul (current_w ! i) (mg ! i)) pvol)) [0..<length current_w]) (mat_vec L M current_w)
     else Some None)"

definition box_parity_round :: "linalg \<Rightarrow> matrix \<Rightarrow> f64 \<Rightarrow> bool list \<Rightarrow> bool list round option" where
  "box_parity_round L M emax pinned =
     (let n = length M;
          free = filter (\<lambda>i. \<not> pinned ! i) [0..<n];
          pinned_count = n - length free;
          s = f64_mul (f64_of_nat pinned_count) emax
      in if free = [] then Some (Done (replicate n (f64_div emax s)))
      else
      let budget_free = f64_sub (f64_of 1) s
      in if f64_le budget_free (Fin 0)
         then Some (Done (map (\<lambda>i. if pinned ! i then f64_div emax s else Fin 0) [0..<n]))
      else
      Option.bind (sub_matrix M free) (\<lambda>cov_sub.
      Option.bind (risk_parity_loop L cov_sub (scale_to budget_free) MAX_RISK_PARITY_ITERATIONS
          (replicate (length free) (f64_div budget_free (f64_of_nat (length free))))) (\<lambda>w_free.
      let exceeding = map fst (filter (\<lambda>(i, w). f64_less (f64_add emax TINY) w) (zip free w_free));
          fixed = zip free w_free @ map (\<lambda>i. (i, emax)) (filter (\<lambda>i. pinned ! i) [0..<n])
      in if exceeding \<noteq> [] then Some (Again (foldl (\<lambda>p i. p[i := True]) pinned exceeding))
         else Option.bind (parity_release L M (spread (replicate n (Fin 0)) fixed) pinned) (\<lambda>released.
           case released of
             Some i \<Rightarrow> Some (Again (pinned[i := False]))
           | None \<Rightarrow> map_option Done
               (clamp_and_normalize (normalize_weights (spread (equal_weights n) fixed)) emax)))))"

definition box_risk_parity :: "linalg \<Rightarrow> matrix \<Rightarrow> f64 \<Rightarrow> f64 list option" where
  "box_risk_parity L covariance_matrix max_position =
     (let n = length covariance_matrix; emax = effective_max n max_position in
      if n = 0 then Some [] else if n = 1 then Some [f64_of 1]
      else if f64_le (f64_of 1) emax then apply_risk_parity L (equal_weights n) covariance_matrix
      else rounds (box_parity_round L covariance_matrix emax) (equal_weights n) (2 * n) (replicate n False))"

section \<open>The blend\<close>

definition blend_and_expand :: "linalg \<Rightarrow> f64 list \<Rightarrow> matrix \<Rightarrow> f64 \<Rightarrow> f64 list \<Rightarrow> nat list \<Rightarrow> nat \<Rightarrow> f64 list option" where
  "blend_and_expand L sub_returns sub_cov max_position alphas subset_indices n_total =
     Option.bind (box_maximize_sharpe L sub_returns sub_cov max_position) (\<lambda>w_sharpe.
     Option.bind (box_risk_parity L sub_cov max_position) (\<lambda>w_rp.
     Option.bind (those (map (\<lambda>(i, ws, wr).
         map_option (\<lambda>a. f64_add (f64_mul a ws) (f64_mul (f64_sub (f64_of 1) a) wr))
           (Option.bind (get_opt subset_indices i) (get_opt alphas)))
         (enumerate 0 (zip w_sharpe w_rp)))) (\<lambda>blended.
     if length subset_indices \<le> length blended \<and> list_all (\<lambda>i. i < n_total) subset_indices
     then Some (spread (replicate n_total (Fin 0)) (zip subset_indices (normalize_weights blended)))
     else None)))"

end
