(* ===== verification/Portfolio_Shapes.thy ===== *)
theory Portfolio_Shapes
  imports Portfolio_Optimizer
begin

text \<open>
  The optimisers are total: on a square matrix of the right size and with a bound that is not
  negative they return, without a panic, one weight for each token.
\<close>

section \<open>Every optimiser returns a weight for each token\<close>

definition gives :: "nat \<Rightarrow> 'a list option \<Rightarrow> bool" where
  "gives n r \<longleftrightarrow> (case r of Some w \<Rightarrow> length w = n | None \<Rightarrow> False)"

lemma gives_Some [simp]: "gives n (Some w) \<longleftrightarrow> length w = n"
  by (simp add: gives_def)

lemma gives_cases: "gives n r \<Longrightarrow> (\<And>w. r = Some w \<Longrightarrow> length w = n \<Longrightarrow> P) \<Longrightarrow> P"
  by (cases r) (simp_all add: gives_def)

lemma gives_map: "gives n r \<Longrightarrow> (\<And>w. length w = n \<Longrightarrow> length (f w) = m) \<Longrightarrow> gives m (map_option f r)"
  by (cases r) (simp_all add: gives_def)

lemma gives_those: "(\<And>x. x \<in> set xs \<Longrightarrow> f x \<noteq> None) \<Longrightarrow> gives (length xs) (those (map f xs))"
  by (induction xs) (auto simp: gives_def split: option.splits)

lemma those_map_Some: "(\<And>x. x \<in> set xs \<Longrightarrow> f x = Some (g x)) \<Longrightarrow> those (map f xs) = Some (map g xs)"
  by (induction xs) auto

lemma length_spread [simp]: "length (spread w es) = length w"
  unfolding spread_def by (induction es arbitrary: w) (auto split: prod.split)

lemma length_equal_weights [simp]: "length (equal_weights n) = n"
  by (simp add: equal_weights_def)

lemma length_normalize_weights [simp]: "length (normalize_weights w) = length w"
  by (simp add: normalize_weights_def Let_def)

lemma length_scale_to [simp]: "length (scale_to b w) = length w"
  by (simp add: scale_to_def Let_def)

lemma gives_clamp: "f64_le (Fin 0) m \<Longrightarrow> length w = n \<Longrightarrow> gives n (clamp_and_normalize w m)"
  unfolding clamp_and_normalize_def
  by (rule gives_map [where n = n]) (auto intro!: gives_those simp: f64_clamp_checked_def)

lemma sub_matrix_square:
  assumes "square n M" "set idx \<subseteq> {..<n}"
  shows "sub_matrix M idx = Some (map (\<lambda>i. map (\<lambda>j. M ! i ! j) idx) idx)"
  unfolding sub_matrix_def using assms by (intro those_map_Some) (auto simp: subset_iff)

lemma square_sub_matrix: "square (length idx) (map (\<lambda>i. map (\<lambda>j. M ! i ! j) idx) idx)"
  by (auto simp: square_def)

lemma extract_square:
  assumes "square n M" "length r = n" "set idx \<subseteq> {..<n}"
  shows "extract_sub_portfolio r M idx = Some (map ((!) r) idx, map (\<lambda>i. map (\<lambda>j. M ! i ! j) idx) idx)"
proof -
  have "those (map (get_opt r) idx) = Some (map ((!) r) idx)"
    using assms by (intro those_map_Some) (auto simp: get_opt_def subset_iff)
  then show ?thesis using sub_matrix_square [OF assms(1,3)] by (simp add: extract_sub_portfolio_def)
qed

lemma square_ridge: "square n M \<Longrightarrow> square n (ridge M)"
  by (simp add: ridge_def square_length)

lemma linalg_lengths:
  assumes "linalg_spec L" "square n M" "length v = n"
  shows "la_cholesky L M = Some solve \<Longrightarrow> length (solve v) = n" "la_lu L M v = Some z \<Longrightarrow> length z = n"
  using assms(1) [unfolded linalg_spec_def, THEN conjunct2, THEN conjunct2, THEN conjunct1, rule_format, of n M v solve]
    assms(1) [unfolded linalg_spec_def, THEN conjunct2, THEN conjunct2, THEN conjunct2, THEN conjunct1, rule_format, of n M v z]
    assms(2,3) by simp_all

lemma length_solve_system:
  assumes "linalg_spec L" "square n M" "length v = n" "solve_system L M v = Some z"
  shows "length z = n"
proof (cases "la_cholesky L M")
  case (Some solve)
  then show ?thesis using linalg_lengths(1) [OF assms(1,2,3)] assms(4) by (simp add: solve_system_def)
next
  case c: None
  show ?thesis
  proof (cases "la_lu L M v")
    case (Some y)
    then show ?thesis using c linalg_lengths(2) [OF assms(1,2,3)] assms(4) by (simp add: solve_system_def)
  next
    case None
    then obtain solve where "la_cholesky L (ridge M) = Some solve" "solve v = z"
      using c assms(4) by (cases "la_cholesky L (ridge M)") (simp_all add: solve_system_def)
    then show ?thesis using linalg_lengths(1) [OF assms(1) square_ridge [OF assms(2)] assms(3)] by metis
  qed
qed

lemma min_entry_mem: "min_entry e es \<in> set (e # es)"
  by (induction e es rule: min_entry.induct) (auto split: if_splits)

lemma gives_sharpe_loop:
  assumes L: "linalg_spec L" and M: "square (length r) M"
  shows "set active \<subseteq> {..<length r} \<Longrightarrow> gives (length r) (sharpe_loop L M r active)"
proof (induction active rule: measure_induct_rule [where f = length])
  case (less active)
  note ex = extract_square [OF M refl less.prems]
  note len = length_solve_system [OF L square_sub_matrix [of active M], of "map ((!) r) active"]
  have fin: "length (sharpe_weights n as z) = n" for n as z by (simp add: sharpe_weights_def Let_def)
  show ?case
  proof (cases "solve_system L (map (\<lambda>i. map (\<lambda>j. M ! i ! j) active) active) (map ((!) r) active)")
    case None
    then show ?thesis by (subst sharpe_loop.simps) (simp add: ex Let_def)
  next
    case (Some z)
    then have z: "length z = length active" using len by simp
    show ?thesis
    proof (cases "enumerate 0 z")
      case Nil
      then show ?thesis by (subst sharpe_loop.simps) (simp add: ex Some Let_def fin)
    next
      case (Cons e es)
      define idx where "idx = fst (min_entry e es)"
      have idx: "idx < length active"
        using min_entry_mem [of e es] unfolding idx_def Cons [symmetric]
        by (auto simp: z in_set_enumerate_eq simp del: list.set)
      have "gives (length r) (sharpe_loop L M r (take idx active @ drop (Suc idx) active))"
        using idx less.prems by (intro less.IH) (auto dest: in_set_takeD in_set_dropD)
      then show ?thesis using idx
        by (subst sharpe_loop.simps) (simp add: ex Some Let_def fin Cons flip: idx_def)
    qed
  qed
qed

lemma gives_maximize_sharpe_ratio:
  assumes "linalg_spec L" "square n M" "length r = n"
  shows "gives n (maximize_sharpe_ratio L r M)"
  using gives_sharpe_loop [of L "map (\<lambda>x. f64_sub x RISK_FREE_RATE) r" M "[0..<n]"] assms
  by (auto simp: maximize_sharpe_ratio_def Let_def subset_iff)

subsection \<open>Rounds\<close>

definition round_ok :: "nat \<Rightarrow> 's list round option \<Rightarrow> bool" where
  "round_ok n r \<longleftrightarrow> (case r of None \<Rightarrow> False | Some (Again s) \<Rightarrow> length s = n | Some (Done w) \<Rightarrow> length w = n)"

lemma round_ok_simps [simp]:
  "round_ok n (Some (Again s)) \<longleftrightarrow> length s = n" "round_ok n (Some (Done w)) \<longleftrightarrow> length w = n" "\<not> round_ok n None"
  by (simp_all add: round_ok_def)

lemma round_ok_Done: "gives n r \<Longrightarrow> round_ok n (map_option Done r)"
  by (cases r) (simp_all add: gives_def)

lemma gives_rounds:
  assumes "\<And>s. length s = n \<Longrightarrow> round_ok n (step s)" "length w = n"
  shows "length s = n \<Longrightarrow> gives n (rounds step w k s)"
proof (induction k arbitrary: s)
  case (Suc k)
  from assms(1) [OF Suc.prems] Suc.IH show ?case
    by (cases "step s") (auto split: round.splits)
qed (simp add: assms)

lemma effective_max_nonneg:
  assumes "f64_le (Fin 0) m"
  shows "f64_le (Fin 0) (effective_max n m)"
proof -
  have one: "f64_of 1 = Fin 1" by (rule volatility_constants)
  have b0: "binade 0 = - 1" by code_simp
  have nonneg: "f64_le (Fin 0) (f64_of x)" if "0 \<le> x" for x
    using round_to_f64_mono [OF that] by (auto simp: f64_of_def Let_def f64_le_def f64_eq_def round_to_f64_def b0)
  have "f64_le (Fin 0) (f64_div (Fin 1) (f64_of_nat n))"
    using nonneg [of "of_nat n"] nonneg [of "1 / fin (f64_of (of_nat n))"]
    by (cases "f64_of_nat n") (auto simp: f64_div_def f64_of_nat_def inf_of_def f64_le_def f64_eq_def)
  then show ?thesis using assms by (simp add: effective_max_def one)
qed

lemma gives_gradient: "square n M \<Longrightarrow> length r = n \<Longrightarrow> i < n \<Longrightarrow> gradient M r g w i \<noteq> None"
  using those_map_Some [of "[0..<n]" "\<lambda>j. map_option (\<lambda>x. f64_mul x (w ! j)) (mat_at M i j)" "\<lambda>j. f64_mul (M ! i ! j) (w ! j)"]
  by (simp add: gradient_def)

lemma find_release_total: "list_all (\<lambda>(i, st). grad i \<noteq> None) sts \<Longrightarrow> find_release grad sts \<noteq> None"
  by (induction grad sts rule: find_release.induct) (auto split: bound_state.split)

lemma gives_upper_effect:
  assumes "square n M" "set free \<subseteq> {..<n}" "set upper \<subseteq> {..<n}"
  shows "gives (length free) (upper_effect M emax free upper)"
  unfolding upper_effect_def
proof (rule gives_those)
  fix f assume "f \<in> set free"
  then have "gives (length upper) (those (map (\<lambda>u. map_option (\<lambda>x. f64_mul x emax) (mat_at M f u)) upper))"
    using assms by (intro gives_those) (auto simp: subset_iff)
  then show "map_option f64_sum (those (map (\<lambda>u. map_option (\<lambda>x. f64_mul x emax) (mat_at M f u)) upper)) \<noteq> None"
    by (auto elim: gives_cases)
qed

lemma round_ok_violations:
  assumes "square n M" "length r = n" "f64_le (Fin 0) emax" "length st = n"
  shows "round_ok n (sharpe_violations L M r emax st free upper gamma w_free)"
proof -
  define weights where "weights = spread (replicate n (Fin 0)) (zip free w_free @ map (\<lambda>u. (u, emax)) upper)"
  have "find_release (gradient M r gamma weights) (enumerate 0 st) \<noteq> None"
    using assms gives_gradient [OF assms(1,2)] by (intro find_release_total) (auto simp: list_all_iff in_set_enumerate_eq)
  then obtain released where rel: "find_release (gradient M r gamma weights) (enumerate 0 st) = Some released" by auto
  have "gives n (clamp_and_normalize (normalize_weights weights) emax)"
    using assms(3) by (rule gives_clamp) (simp add: weights_def)
  note ok = round_ok_Done [OF this]
  show ?thesis
    unfolding sharpe_violations_def Let_def assms(2) weights_def [symmetric] rel
    using assms(4) ok by (auto split: option.splits)
qed

lemma round_ok_sharpe:
  assumes L: "linalg_spec L" and M: "square n M" and r: "length r = n" and e: "f64_le (Fin 0) emax" and st: "length st = n"
  shows "round_ok n (box_sharpe_round L M r emax st)"
proof -
  define free upper where "free = filter (\<lambda>i. st ! i = Free) [0..<n]" and "upper = filter (\<lambda>i. st ! i = Upper) [0..<n]"
  have sub: "set free \<subseteq> {..<n}" "set upper \<subseteq> {..<n}" by (auto simp: free_def upper_def)
  obtain v where v: "upper_effect M emax free upper = Some v"
    using gives_upper_effect [OF M sub] by (rule gives_cases)
  note viol = round_ok_violations [OF M r e st, of L free upper]
  show ?thesis
    unfolding box_sharpe_round_def Let_def r free_def [symmetric] upper_def [symmetric] extract_square [OF M r sub(1)] v
    using viol by (auto split: option.splits simp: pred_if)
qed

lemma gives_box_maximize_sharpe:
  assumes "linalg_spec L" "square n M" "length r = n" "f64_le (Fin 0) m"
  shows "gives n (box_maximize_sharpe L r M m)"
proof -
  have "gives n (rounds (box_sharpe_round L M (map (\<lambda>x. f64_sub x RISK_FREE_RATE) r) (effective_max n m))
      (equal_weights n) (3 * n + 10) (replicate n Free))"
    by (intro gives_rounds round_ok_sharpe assms effective_max_nonneg) (simp_all add: assms(3))
  then show ?thesis
    using gives_maximize_sharpe_ratio [OF assms(1,2,3)] assms(3)
    by (auto simp: box_maximize_sharpe_def Let_def)
qed

subsection \<open>Risk parity\<close>

lemma gives_risk_parity_loop:
  assumes "linalg_spec L" "square n M" "\<And>w. length (normalise w) = length w"
  shows "length w = n \<Longrightarrow> gives n (risk_parity_loop L M normalise k w)"
proof (induction k arbitrary: w)
  case (Suc k)
  define w' where "w' = normalise (map (adjust_weight (f64_sqrt (la_dot L w (la_mat_vec L M w)))
    (f64_div (f64_sqrt (la_dot L w (la_mat_vec L M w))) (f64_of_nat n))) (zip w (la_mat_vec L M w)))"
  have "length w' = n" using Suc.prems length_mat_vec [OF assms(1,2) Suc.prems] by (simp add: w'_def assms(3))
  with Suc.IH [OF this] Suc.prems show ?case using assms(2) by (simp add: Let_def flip: w'_def)
qed simp

lemma parity_release_total:
  assumes "square n M" "length w = n"
  shows "parity_release L M w pinned \<noteq> None"
  using assms by (simp add: parity_release_def)

lemma length_pin: "length (foldl (\<lambda>p i. p[i := True]) pinned is) = length pinned"
  by (induction "is" arbitrary: pinned) simp_all

lemma round_ok_parity:
  assumes L: "linalg_spec L" and M: "square n M" and e: "f64_le (Fin 0) emax" and p: "length pinned = n"
  shows "round_ok n (box_parity_round L M emax pinned)"
proof -
  define free where "free = filter (\<lambda>i. \<not> pinned ! i) [0..<n]"
  have sub: "set free \<subseteq> {..<n}" by (auto simp: free_def)
  define S where "S = map (\<lambda>i. map (\<lambda>j. M ! i ! j) free) free"
  have loop: "gives (length free) (risk_parity_loop L S (scale_to b) k (replicate (length free) x))" for b k x
    by (rule gives_risk_parity_loop [OF L]) (simp_all add: S_def square_sub_matrix)
  have ok: "round_ok n (Option.bind (parity_release L M (spread (replicate n (Fin 0)) fixed) pinned) (\<lambda>released.
      case released of Some i \<Rightarrow> Some (Again (pinned[i := False]))
      | None \<Rightarrow> map_option Done (clamp_and_normalize (normalize_weights (spread (equal_weights n) fixed)) emax)))" for fixed
  proof -
    have "gives n (clamp_and_normalize (normalize_weights (spread (equal_weights n) fixed)) emax)"
      using e by (rule gives_clamp) simp
    note d = round_ok_Done [OF this]
    have "parity_release L M (spread (replicate n (Fin 0)) fixed) pinned \<noteq> None"
      using M by (rule parity_release_total) simp
    then show ?thesis using d p by (auto split: option.splits)
  qed
  have n: "length M = n" using M by (rule square_length)
  have after: "round_ok n (Option.bind (risk_parity_loop L S (scale_to b) k (replicate (length free) x)) f)"
    if "\<And>w. round_ok n (f w)" for b k x f
    using loop [of b k x] that by (auto elim!: gives_cases)
  show ?thesis
    unfolding box_parity_round_def Let_def n free_def [symmetric] sub_matrix_square [OF M sub] S_def [symmetric]
    by (simp add: after ok p length_pin)
qed

lemma gives_box_risk_parity:
  assumes "linalg_spec L" "square n M" "f64_le (Fin 0) m"
  shows "gives n (box_risk_parity L M m)"
proof -
  have n: "length M = n" using assms(2) by (rule square_length)
  have "gives n (rounds (box_parity_round L M (effective_max n m)) (equal_weights n) (2 * n) (replicate n False))"
    by (intro gives_rounds round_ok_parity assms effective_max_nonneg) simp_all
  moreover have "gives n (apply_risk_parity L (equal_weights n) M)"
    using gives_risk_parity_loop [OF assms(1,2)] by (auto simp: apply_risk_parity_def equal_weights_def)
  ultimately show ?thesis by (auto simp: box_risk_parity_def Let_def n)
qed

subsection \<open>The blend\<close>

lemma spread_other: "i \<notin> fst ` set es \<Longrightarrow> spread w es ! i = w ! i"
  unfolding spread_def by (induction es arbitrary: w) auto

definition zero_outside :: "nat set \<Rightarrow> f64 list \<Rightarrow> bool" where
  "zero_outside S w \<longleftrightarrow> (\<forall>i < length w. i \<notin> S \<longrightarrow> w ! i = Fin 0)"

lemma zero_outside_spread: "fst ` set es \<subseteq> S \<Longrightarrow> zero_outside S (spread (replicate n (Fin 0)) es)"
  by (auto simp: zero_outside_def subset_iff intro!: trans [OF spread_other])

lemma zero_outside_normalize: "zero_outside S w \<Longrightarrow> zero_outside S (normalize_weights w)"
proof -
  have "f64_div (Fin 0) s = Fin 0" if "f64_less (Fin 0) s" for s
    using that by (cases s) (simp_all add: f64_div_def)
  then show "zero_outside S w \<Longrightarrow> zero_outside S (normalize_weights w)"
    by (auto simp: zero_outside_def normalize_weights_def Let_def)
qed

lemma blend_and_expand_ok:
  assumes "linalg_spec L" "square (length idx) S" "length r = length idx" "f64_le (Fin 0) m"
    "set idx \<subseteq> {..<n}" "set idx \<subseteq> {..<length alphas}"
  shows "gives n (blend_and_expand L r S m alphas idx n)"
    "blend_and_expand L r S m alphas idx n = Some w \<Longrightarrow> zero_outside (set idx) w"
proof -
  obtain ws where ws: "box_maximize_sharpe L r S m = Some ws" "length ws = length idx"
    using gives_box_maximize_sharpe [OF assms(1,2,3,4)] by (rule gives_cases)
  obtain wr where wr: "box_risk_parity L S m = Some wr" "length wr = length idx"
    using gives_box_risk_parity [OF assms(1,2,4)] by (rule gives_cases)
  have "gives (length (enumerate 0 (zip ws wr))) (those (map (\<lambda>(i, ws, wr).
      map_option (\<lambda>a. f64_add (f64_mul a ws) (f64_mul (f64_sub (f64_of 1) a) wr))
        (Option.bind (get_opt idx i) (get_opt alphas))) (enumerate 0 (zip ws wr))))"
    using assms(6) ws(2) wr(2)
    by (intro gives_those) (auto simp: in_set_enumerate_eq get_opt_def subset_iff)
  then obtain b where b: "those (map (\<lambda>(i, ws, wr).
      map_option (\<lambda>a. f64_add (f64_mul a ws) (f64_mul (f64_sub (f64_of 1) a) wr))
        (Option.bind (get_opt idx i) (get_opt alphas))) (enumerate 0 (zip ws wr))) = Some b" "length b = length idx"
    by (rule gives_cases) (simp add: ws(2) wr(2))
  have r: "blend_and_expand L r S m alphas idx n = Some (spread (replicate n (Fin 0)) (zip idx (normalize_weights b)))"
    using assms(5) by (auto simp: blend_and_expand_def ws wr b list_all_iff)
  show "gives n (blend_and_expand L r S m alphas idx n)" by (simp add: r)
  show "zero_outside (set idx) w" if "blend_and_expand L r S m alphas idx n = Some w"
    using that by (auto simp: r intro!: zero_outside_spread dest: set_zip_leftD)
qed

end
