(* ===== verification/Portfolio_Search.thy ===== *)
theory Portfolio_Search
  imports Portfolio_Shapes
begin

text \<open>
  The search of \<^verbatim>\<open>common/src/algorithm/portfolio.rs\<close> for the tokens to hold: the iterator over
  combinations, the cached blend of a subset, the removal of positions that are too small, the
  exhaustive search, and the three phases around it.
\<close>

section \<open>Combinations\<close>

record combinations =
  cb_indices :: "nat list"
  cb_n :: nat
  cb_k :: nat
  cb_first :: bool

definition combinations_new :: "nat \<Rightarrow> nat \<Rightarrow> combinations" where
  "combinations_new n k = \<lparr>cb_indices = [0..<k], cb_n = n, cb_k = k, cb_first = True\<rparr>"

text \<open>The loop that looks for the last position that can grow, and the one that fills the positions
  behind it.\<close>

fun last_growing :: "nat \<Rightarrow> nat \<Rightarrow> nat list \<Rightarrow> nat \<Rightarrow> nat option" where
  "last_growing n k indices 0 = None"
| "last_growing n k indices (Suc i) =
     (if indices ! i < n - k + i then Some i else last_growing n k indices i)"

definition grow :: "nat \<Rightarrow> nat list \<Rightarrow> nat \<Rightarrow> nat list" where
  "grow k indices i = foldl (\<lambda>xs j. xs[j := xs ! (j - 1) + 1]) (indices[i := indices ! i + 1]) [i + 1..<k]"

definition combinations_next :: "combinations \<Rightarrow> nat list option \<times> combinations" where
  "combinations_next c =
     (if cb_k c = 0 \<or> cb_k c > cb_n c then (None, c)
      else if cb_first c then (Some (cb_indices c), c\<lparr>cb_first := False\<rparr>)
      else case last_growing (cb_n c) (cb_k c) (cb_indices c) (cb_k c) of
          None \<Rightarrow> (None, c)
        | Some i \<Rightarrow> (let indices = grow (cb_k c) (cb_indices c) i in (Some indices, c\<lparr>cb_indices := indices\<rparr>)))"

text \<open>What a \<^verbatim>\<open>for\<close> loop over the iterator sees.\<close>

partial_function (option) collect_combinations :: "combinations \<Rightarrow> nat list list option" where
  "collect_combinations c = (case combinations_next c of
     (None, _) \<Rightarrow> Some []
   | (Some x, c') \<Rightarrow> Option.bind (collect_combinations c') (\<lambda>xs. Some (x # xs)))"

section \<open>Subsets\<close>

record subset_opt_params =
  so_expected_returns :: "f64 list"
  so_covariance_matrix :: matrix
  so_max_position :: f64
  so_alphas :: "f64 list"

type_synonym weight_cache = "nat list \<rightharpoonup> f64 list"

definition cached_blend_and_expand :: "linalg \<Rightarrow> weight_cache \<Rightarrow> subset_opt_params \<Rightarrow> nat list \<Rightarrow> nat \<Rightarrow>
    (f64 list \<times> weight_cache) option" where
  "cached_blend_and_expand L cache params subset_indices n_total = (case cache subset_indices of
     Some cached \<Rightarrow> Some (cached, cache)
   | None \<Rightarrow>
       Option.bind (extract_sub_portfolio (so_expected_returns params) (so_covariance_matrix params) subset_indices)
         (\<lambda>(sub_ret, sub_cov).
       map_option (\<lambda>weights. (weights, cache(subset_indices \<mapsto> weights)))
         (blend_and_expand L sub_ret sub_cov (so_max_position params) (so_alphas params) subset_indices n_total)))"

fun reoptimize_loop :: "linalg \<Rightarrow> subset_opt_params \<Rightarrow> f64 \<Rightarrow> nat \<Rightarrow> f64 list \<Rightarrow> nat list \<Rightarrow> weight_cache \<Rightarrow>
    (f64 list \<times> nat list \<times> weight_cache) option" where
  "reoptimize_loop L params min_position_size 0 weights current_indices cache = Some (weights, current_indices, cache)"
| "reoptimize_loop L params min_position_size (Suc k) weights current_indices cache =
     Option.bind (those (map (get_opt weights) current_indices)) (\<lambda>ws.
     let survivors = map fst (filter (\<lambda>(idx, w). f64_le min_position_size w) (zip current_indices ws)) in
     if length survivors = length current_indices \<or> survivors = [] then Some (weights, current_indices, cache)
     else Option.bind (cached_blend_and_expand L cache params survivors (length (so_expected_returns params)))
       (\<lambda>(weights', cache'). reoptimize_loop L params min_position_size k weights' survivors cache'))"

definition filter_and_reoptimize :: "linalg \<Rightarrow> subset_opt_params \<Rightarrow> f64 \<Rightarrow> f64 list \<Rightarrow> nat list \<Rightarrow> weight_cache \<Rightarrow>
    (f64 list \<times> nat list \<times> weight_cache) option" where
  "filter_and_reoptimize L params min_position_size weights current_indices cache =
     reoptimize_loop L params min_position_size (length current_indices) weights current_indices cache"

section \<open>The exhaustive search\<close>

text \<open>The score of the positive weights; a vector without one has none.\<close>

definition composite_score :: "linalg \<Rightarrow> f64 list \<Rightarrow> matrix \<Rightarrow> f64 list \<Rightarrow> f64 list \<Rightarrow> f64 option option" where
  "composite_score L expected_returns covariance_matrix alphas weights =
     (let active = filter (\<lambda>(i, w). f64_less (Fin 0) w) (enumerate 0 weights);
          active_w = map snd active; active_idx = map fst active
      in if active_w = [] then Some None
      else
      Option.bind (extract_sub_portfolio expected_returns covariance_matrix active_idx) (\<lambda>(ar, ac).
      Option.bind (calculate_portfolio_std L active_w ac) (\<lambda>port_std.
      Option.bind (risk_parity_divergence L active_w ac) (\<lambda>rp_div.
      map_option (\<lambda>as.
        let port_ret = calculate_portfolio_return active_w ar;
            sharpe = (if f64_less (Fin 0) port_std then f64_div (f64_sub port_ret RISK_FREE_RATE) port_std else Fin 0);
            rp_div_normalized = (if f64_less (Fin 0) port_std then f64_div rp_div (f64_mul port_std port_std) else Fin 0);
            effective_alpha = f64_div (f64_sum as) (f64_of_nat (length active_idx))
        in Some (f64_sub (f64_mul effective_alpha sharpe)
             (f64_mul (f64_sub (f64_of 1) effective_alpha) rp_div_normalized)))
        (those (map (get_opt alphas) active_idx))))))"

fun subset_search_loop :: "linalg \<Rightarrow> subset_opt_params \<Rightarrow> f64 \<Rightarrow> nat list \<Rightarrow> nat list list \<Rightarrow> f64 \<Rightarrow> f64 list \<Rightarrow>
    weight_cache \<Rightarrow> f64 list option" where
  "subset_search_loop L params min_position_size active_indices [] best_score best_weights cache = Some best_weights"
| "subset_search_loop L params min_position_size active_indices (combo # combos) best_score best_weights cache =
     Option.bind (those (map (get_opt active_indices) combo)) (\<lambda>subset_indices.
     Option.bind (cached_blend_and_expand L cache params subset_indices (length (so_expected_returns params)))
       (\<lambda>(blended, cache1).
     Option.bind (filter_and_reoptimize L params min_position_size blended subset_indices cache1)
       (\<lambda>(weights, _, cache2).
     Option.bind (composite_score L (so_expected_returns params) (so_covariance_matrix params) (so_alphas params) weights)
       (\<lambda>scored.
     case scored of
       None \<Rightarrow> subset_search_loop L params min_position_size active_indices combos best_score best_weights cache2
     | Some score \<Rightarrow>
         if f64_less best_score score
         then subset_search_loop L params min_position_size active_indices combos score weights cache2
         else subset_search_loop L params min_position_size active_indices combos best_score best_weights cache2))))"

definition exhaustive_optimize :: "linalg \<Rightarrow> nat list \<Rightarrow> f64 list \<Rightarrow> matrix \<Rightarrow> f64 \<Rightarrow> nat \<Rightarrow> f64 \<Rightarrow> f64 list \<Rightarrow>
    f64 list option" where
  "exhaustive_optimize L active_indices expected_returns covariance_matrix max_position max_holdings min_position_size alphas =
     (let n_total = length expected_returns; n_active = length active_indices;
          params = \<lparr>so_expected_returns = expected_returns, so_covariance_matrix = covariance_matrix,
            so_max_position = max_position, so_alphas = alphas\<rparr>
      in if n_active = 0 then Some (replicate n_total (Fin 0))
      else if n_active \<le> max_holdings then
        Option.bind (cached_blend_and_expand L Map.empty params active_indices n_total) (\<lambda>(weights, cache).
        map_option fst (filter_and_reoptimize L params min_position_size weights active_indices cache))
      else
        Option.bind (collect_combinations (combinations_new n_active max_holdings)) (\<lambda>combos.
        Option.bind (subset_search_loop L params min_position_size active_indices combos NegInf (replicate n_total (Fin 0)) Map.empty)
          (\<lambda>best_weights.
        if list_all (\<lambda>w. f64_eq w (Fin 0)) best_weights then
          (let k = min max_holdings n_active in
           if list_all (\<lambda>i. i < n_total) (take k active_indices)
           then Some (spread best_weights (map (\<lambda>i. (i, f64_div (f64_of 1) (f64_of_nat k))) (take k active_indices)))
           else None)
        else Some best_weights)))"

section \<open>Three phases\<close>

definition PRUNE_KEEP_PER :: nat where "PRUNE_KEEP_PER = 12"

definition MAX_PHASE3_CANDIDATES :: nat where "MAX_PHASE3_CANDIDATES = 15"

definition MAX_HOLDINGS :: nat where "MAX_HOLDINGS = 6"

definition MIN_POSITION_SIZE :: f64 where "MIN_POSITION_SIZE = f64_of (5 / 100)"

text \<open>\<open>rank\<close> is \<^verbatim>\<open>sort_by\<close> with the comparison that puts the larger weight first and calls everything
  equal to \<open>NaN\<close>; that is no total order, so the sort may panic.\<close>

definition blend_scores :: "f64 list \<Rightarrow> f64 list \<Rightarrow> f64 list \<Rightarrow> nat list \<Rightarrow> (nat \<times> f64) list option" where
  "blend_scores alphas w_sharpe w_rp indices = those (map (\<lambda>i.
     Option.bind (get_opt alphas i) (\<lambda>a. Option.bind (get_opt w_sharpe i) (\<lambda>ws. map_option (\<lambda>wr.
       (i, f64_add (f64_mul a ws) (f64_mul (f64_sub (f64_of 1) a) wr))) (get_opt w_rp i)))) indices)"

definition unified_optimize :: "linalg \<Rightarrow> ((nat \<times> f64) list \<Rightarrow> (nat \<times> f64) list option) \<Rightarrow> f64 list \<Rightarrow> matrix \<Rightarrow>
    f64 list \<Rightarrow> f64 \<Rightarrow> nat \<Rightarrow> f64 \<Rightarrow> f64 list \<Rightarrow> f64 list option" where
  "unified_optimize L rank expected_returns covariance_matrix liquidity_scores max_position max_holdings
      min_position_size alphas =
     (let n = length expected_returns in
      if n = 0 then Some [] else if n = 1 then Some [f64_of 1] else
      let adj_returns = adjust_returns_for_liquidity expected_returns liquidity_scores; keep = min PRUNE_KEEP_PER n in
      Option.bind (box_maximize_sharpe L adj_returns covariance_matrix max_position) (\<lambda>w_sharpe.
      Option.bind (box_risk_parity L covariance_matrix max_position) (\<lambda>w_rp.
      Option.bind (rank (enumerate 0 w_sharpe)) (\<lambda>sharpe_ranked.
      Option.bind (rank (enumerate 0 w_rp)) (\<lambda>rp_ranked.
      let active_set = set (map fst (take keep sharpe_ranked)) \<union> set (map fst (take keep rp_ranked));
          all_active = (if active_set = {} then [0..<n] else sorted_list_of_set active_set)
      in Option.bind
        (if length all_active > MAX_PHASE3_CANDIDATES \<and> length all_active > max_holdings
         then Option.bind (blend_scores alphas w_sharpe w_rp all_active) (\<lambda>scored.
           map_option (\<lambda>ranked. sort (map fst (take MAX_PHASE3_CANDIDATES ranked))) (rank scored))
         else Some all_active) (\<lambda>active_indices.
      map_option normalize_weights
        (exhaustive_optimize L active_indices adj_returns covariance_matrix max_position max_holdings
           min_position_size alphas)))))))"

end
