(* ===== verification/Portfolio_Combinations.thy ===== *)
theory Portfolio_Combinations
  imports Portfolio_Search
begin

text \<open>
  The iterator \<^verbatim>\<open>Combinations\<close> of \<^verbatim>\<open>portfolio.rs\<close> yields every choice of positions once, in
  lexicographic order, and then ends: it follows the recursive enumeration \<open>choose_from\<close>.
\<close>

section \<open>The reference\<close>

fun choose_from :: "nat \<Rightarrow> 'a list \<Rightarrow> 'a list list" where
  "choose_from 0 xs = [[]]"
| "choose_from (Suc k) [] = []"
| "choose_from (Suc k) (x # xs) = map ((#) x) (choose_from k xs) @ choose_from (Suc k) xs"

lemma choose_from_length: "c \<in> set (choose_from k xs) \<Longrightarrow> length c = k"
  by (induction k xs arbitrary: c rule: choose_from.induct) auto

lemma choose_from_subset: "c \<in> set (choose_from k xs) \<Longrightarrow> set c \<subseteq> set xs"
  by (induction k xs arbitrary: c rule: choose_from.induct) fastforce+

lemma length_choose_from: "length (choose_from k xs) = length xs choose k"
  by (induction k xs rule: choose_from.induct) auto

lemma set_choose_from: "set (choose_from k [lo..<n]) = {c. sorted_wrt (<) c \<and> set c \<subseteq> {lo..<n} \<and> length c = k}"
proof (induction "n - lo" arbitrary: lo k)
  case 0
  then show ?case by (cases k) (auto)
next
  case (Suc m)
  then have lo: "lo < n" and m: "m = n - Suc lo" by auto
  note IH = Suc.hyps(1) [OF m]
  show ?case
  proof (cases k)
    case (Suc k')
    have "set (choose_from k [lo..<n]) = (#) lo ` set (choose_from k' [Suc lo..<n]) \<union> set (choose_from k [Suc lo..<n])"
      using lo by (simp add: upt_conv_Cons Suc)
    also have "\<dots> = {c. sorted_wrt (<) c \<and> set c \<subseteq> {lo..<n} \<and> length c = k}" (is "?L = ?R")
    proof (rule set_eqI)
      fix c
      show "c \<in> ?L \<longleftrightarrow> c \<in> ?R"
      proof (cases c)
        case (Cons x c')
        have "sorted_wrt (<) c' \<and> (\<forall>y \<in> set c'. lo < y) \<and> set c' \<subseteq> {lo..<n} \<longleftrightarrow> sorted_wrt (<) c' \<and> set c' \<subseteq> {Suc lo..<n}"
          by (auto simp: subset_iff Suc_le_eq)
        then have eq: ?thesis if "x = lo" using that lo by (auto simp: IH Cons Suc subset_iff Suc_le_eq image_iff)
        have "lo < y" if "x \<noteq> lo" "lo \<le> x" "\<forall>z \<in> set c'. x < z" "y \<in> set c'" for y
          using that by fastforce
        then have ?thesis if "x \<noteq> lo" using that lo by (fastforce simp: IH Cons Suc Suc_le_eq image_iff)
        with eq show ?thesis by blast
      qed (simp add: IH Suc image_iff)
    qed
    finally show ?thesis .
  qed auto
qed

section \<open>The successor\<close>

fun successor :: "nat \<Rightarrow> nat list \<Rightarrow> nat list option" where
  "successor n [] = None"
| "successor n (x # xs) = (case successor n xs of
     Some ys \<Rightarrow> Some (x # ys)
   | None \<Rightarrow> if x + 1 + length xs < n then Some [x + 1..<x + 2 + length xs] else None)"

text \<open>Each element of a chain is followed by its successor, and the last has none.\<close>

fun chain :: "nat \<Rightarrow> nat list list \<Rightarrow> bool" where
  "chain n [] \<longleftrightarrow> False"
| "chain n [x] \<longleftrightarrow> successor n x = None"
| "chain n (x # y # zs) \<longleftrightarrow> successor n x = Some y \<and> chain n (y # zs)"

lemma chain_append:
  assumes "chain n xs" "chain n (y # ys)" "\<And>x. successor n x = None \<Longrightarrow> x \<in> set xs \<Longrightarrow> successor n (a # x) = Some y"
  shows "chain n (map ((#) a) xs @ y # ys)"
  using assms by (induction n xs rule: chain.induct) auto

lemma chain_map:
  assumes "chain n xs" "\<And>x. successor n x = None \<Longrightarrow> x \<in> set xs \<Longrightarrow> successor n (a # x) = None"
  shows "chain n (map ((#) a) xs)"
  using assms by (induction n xs rule: chain.induct) auto

lemma choose_from_chain:
  "lo + k \<le> n \<Longrightarrow> chain n (choose_from k [lo..<n]) \<and> hd (choose_from k [lo..<n]) = [lo..<lo + k]"
proof (induction "n - lo" arbitrary: lo k)
  case 0
  then have "k = 0" by simp
  then show ?case by simp
next
  case (Suc m)
  then have lo: "lo < n" and m: "m = n - Suc lo" by auto
  show ?case
  proof (cases k)
    case (Suc k')
    then have k': "Suc lo + k' \<le> n" using Suc.prems by simp
    note tails = Suc.hyps(1) [OF m k']
    have ne: "choose_from k' [Suc lo..<n] \<noteq> []" using tails by auto
    have eq: "choose_from k [lo..<n] = map ((#) lo) (choose_from k' [Suc lo..<n]) @ choose_from k [Suc lo..<n]"
      using lo by (simp add: upt_conv_Cons Suc)
    have hd: "hd (choose_from k [lo..<n]) = [lo..<lo + k]"
      unfolding eq using ne tails upt_conv_Cons [of lo "lo + Suc k'"] by (simp add: hd_append hd_map Suc del: upt_Suc)
    have "chain n (choose_from k [lo..<n])"
    proof (cases "Suc lo + k \<le> n")
      case True
      note rest = Suc.hyps(1) [OF m True]
      then obtain ys where ys: "choose_from k [Suc lo..<n] = [Suc lo..<Suc lo + k] # ys"
        by (cases "choose_from k [Suc lo..<n]") auto
      have "chain n (map ((#) lo) (choose_from k' [Suc lo..<n]) @ [Suc lo..<Suc lo + k] # ys)"
      proof (rule chain_append)
        fix x assume "successor n x = None" "x \<in> set (choose_from k' [Suc lo..<n])"
        then show "successor n (lo # x) = Some [Suc lo..<Suc lo + k]"
          using choose_from_length [of x k'] True by (simp add: Suc)
      qed (use tails rest ys in auto)
      then show ?thesis by (simp add: eq ys)
    next
      case False
      have none: "choose_from k [Suc lo..<n] = []"
        using length_choose_from [of k "[Suc lo..<n]"] False lo binomial_eq_0 [of "n - Suc lo" k] by auto
      have "chain n (map ((#) lo) (choose_from k' [Suc lo..<n]))"
      proof (rule chain_map)
        fix x assume "successor n x = None" "x \<in> set (choose_from k' [Suc lo..<n])"
        then show "successor n (lo # x) = None" using choose_from_length [of x k'] False by (simp add: Suc)
      qed (use tails in auto)
      then show ?thesis by (simp add: eq none)
    qed
    with hd show ?thesis by blast
  qed simp
qed

section \<open>The loops compute the successor\<close>

lemma last_growing_None: "last_growing n k zs m = None \<longleftrightarrow> (\<forall>j < m. \<not> zs ! j < n - k + j)"
  by (induction m) (auto simp: less_Suc_eq)

lemma last_growing_Some:
  "last_growing n k zs m = Some i \<Longrightarrow> i < m \<and> zs ! i < n - k + i \<and> (\<forall>j. i < j \<and> j < m \<longrightarrow> \<not> zs ! j < n - k + j)"
  by (induction m) (auto simp: less_Suc_eq split: if_splits)

lemma successor_stuck:
  assumes "length zs = k" "k \<le> n" "\<forall>j. i \<le> j \<and> j < k \<longrightarrow> \<not> zs ! j < n - k + j"
  shows "i \<le> k \<Longrightarrow> successor n (drop i zs) = None"
  using assms
proof (induction "k - i" arbitrary: i)
  case (Suc m)
  then have i: "i < k" by simp
  have "successor n (drop (Suc i) zs) = None" using Suc by (intro Suc.hyps(1)) auto
  moreover have "\<not> zs ! i < n - k + i" using Suc.prems i by auto
  then have "\<not> zs ! i + 1 + (k - Suc i) < n" using i Suc.prems by arith
  moreover have "drop i zs = zs ! i # drop (Suc i) zs" using i Suc.prems by (simp add: Cons_nth_drop_Suc)
  ultimately show ?case using i Suc.prems by simp
qed simp

lemma successor_grows:
  assumes "length zs = k" "k \<le> n" "i < k" "zs ! i < n - k + i" "\<forall>j. i < j \<and> j < k \<longrightarrow> \<not> zs ! j < n - k + j"
  shows "j \<le> i \<Longrightarrow> successor n (drop j zs) = Some (take (i - j) (drop j zs) @ [zs ! i + 1..<zs ! i + 1 + (k - i)])"
proof (induction "i - j" arbitrary: j)
  case 0
  then have j: "j = i" by simp
  have "successor n (drop (Suc i) zs) = None" using assms by (intro successor_stuck) auto
  moreover have "drop i zs = zs ! i # drop (Suc i) zs" using assms by (simp add: Cons_nth_drop_Suc)
  ultimately show ?case using assms by (simp add: j Suc_diff_Suc)
next
  case (Suc m)
  then have j: "j < i" by simp
  have "successor n (drop (Suc j) zs) = Some (take (i - Suc j) (drop (Suc j) zs) @ [zs ! i + 1..<zs ! i + 1 + (k - i)])"
    using Suc by (intro Suc.hyps(1)) auto
  moreover have "drop j zs = zs ! j # drop (Suc j) zs" using assms j by (simp add: Cons_nth_drop_Suc)
  ultimately show ?case using j by (simp add: Suc_diff_Suc take_Cons')
qed

lemma grow_eq:
  assumes "length zs = k" "i < k"
  shows "grow k zs i = take i zs @ [zs ! i + 1..<zs ! i + 1 + (k - i)]"
proof -
  define x f where "x = zs ! i + 1" and "f = (\<lambda>xs j. xs[j := xs ! (j - 1) + 1 :: nat])"
  have "foldl f (zs[i := x]) [i + 1..<i + 1 + m] = take i zs @ [x..<x + 1 + m] @ drop (i + 1 + m) zs" if "i + 1 + m \<le> k" for m
    using that
  proof (induction m)
    case 0
    then show ?case using assms by (simp add: upd_conv_take_nth_drop)
  next
    case (Suc m)
    define P where "P = take i zs @ [x..<x + 1 + m]"
    have P: "length P = i + 1 + m" using assms by (simp add: P_def)
    have last: "P ! (i + m) = x + m" using assms by (simp add: P_def nth_append del: upt_Suc)
    have "drop (i + 1 + m) zs = zs ! (i + 1 + m) # drop (i + 1 + Suc m) zs"
      using Suc.prems assms by (simp add: Cons_nth_drop_Suc)
    with Suc have "foldl f (zs[i := x]) [i + 1..<i + 1 + m] = P @ zs ! (i + 1 + m) # drop (i + 1 + Suc m) zs"
      by (simp add: P_def del: upt_Suc)
    moreover have "[i + 1..<i + 1 + Suc m] = [i + 1..<i + 1 + m] @ [i + 1 + m]" by simp
    moreover have "f (P @ zs ! (i + 1 + m) # drop (i + 1 + Suc m) zs) (i + 1 + m) = P @ (x + m + 1) # drop (i + 1 + Suc m) zs"
      using last P list_update_length [of P "zs ! (i + 1 + m)" "drop (i + 1 + Suc m) zs" "x + m + 1"] by (simp add: f_def nth_append)
    ultimately have "foldl f (zs[i := x]) [i + 1..<i + 1 + Suc m] = P @ (x + m + 1) # drop (i + 1 + Suc m) zs"
      by (simp only: foldl_append foldl_Cons foldl_Nil)
    then show ?case by (simp add: P_def)
  qed
  moreover have "i + 1 + (k - Suc i) = k" "x + 1 + (k - Suc i) = x + (k - i)" using assms by simp_all
  ultimately have "foldl f (zs[i := x]) [i + 1..<k] = take i zs @ [x..<x + (k - i)] @ drop k zs" by (metis order_refl)
  then show ?thesis using assms by (simp add: grow_def f_def x_def)
qed

lemma next_successor:
  assumes "length zs = k" "0 < k" "k \<le> n"
  shows "combinations_next \<lparr>cb_indices = zs, cb_n = n, cb_k = k, cb_first = False\<rparr> = (case successor n zs of
    None \<Rightarrow> (None, \<lparr>cb_indices = zs, cb_n = n, cb_k = k, cb_first = False\<rparr>)
  | Some ys \<Rightarrow> (Some ys, \<lparr>cb_indices = ys, cb_n = n, cb_k = k, cb_first = False\<rparr>))"
proof (cases "last_growing n k zs k")
  case None
  then have "successor n zs = None"
    using successor_stuck [OF assms(1,3), of 0] by (simp add: last_growing_None)
  then show ?thesis using None assms by (simp add: combinations_next_def)
next
  case (Some i)
  note i = last_growing_Some [OF Some]
  have "successor n zs = Some (take i zs @ [zs ! i + 1..<zs ! i + 1 + (k - i)])"
    using successor_grows [OF assms(1,3), of i 0] i by simp
  moreover have "grow k zs i = take i zs @ [zs ! i + 1..<zs ! i + 1 + (k - i)]"
    using grow_eq [OF assms(1)] i by blast
  ultimately show ?thesis using Some assms by (simp add: combinations_next_def Let_def)
qed

lemma collect_chain:
  assumes "0 < k" "k \<le> n"
  shows "chain n (zs # rest) \<Longrightarrow> \<forall>x \<in> set (zs # rest). length x = k \<Longrightarrow>
    collect_combinations \<lparr>cb_indices = zs, cb_n = n, cb_k = k, cb_first = False\<rparr> = Some rest"
proof (induction rest arbitrary: zs)
  case Nil
  then show ?case using next_successor [OF _ assms, of zs] by (subst collect_combinations.simps) simp
next
  case (Cons y rest)
  then have "collect_combinations \<lparr>cb_indices = y, cb_n = n, cb_k = k, cb_first = False\<rparr> = Some rest" by simp
  then show ?case using Cons.prems next_successor [OF _ assms, of zs] by (subst collect_combinations.simps) simp
qed

lemma distinct_choose_from: "distinct xs \<Longrightarrow> distinct (choose_from k xs)"
proof (induction k xs rule: choose_from.induct)
  case (3 k x xs)
  have N: "x \<notin> set c" if "c \<in> set (choose_from (Suc k) xs)" for c
    using choose_from_subset [OF that] 3 by auto
  with 3 show ?case by (auto simp: distinct_map dest: N)
qed auto

lemma collect_combinations_eq:
  "collect_combinations (combinations_new n k) = Some (if k = 0 then [] else choose_from k [0..<n])"
proof (cases "0 < k \<and> k \<le> n")
  case True
  then obtain rest where cs: "choose_from k [0..<n] = [0..<k] # rest" "chain n ([0..<k] # rest)"
    using choose_from_chain [of 0 k n] by (cases "choose_from k [0..<n]") auto
  have "\<forall>x \<in> set ([0..<k] # rest). length x = k" using choose_from_length unfolding cs(1) [symmetric] by blast
  from collect_chain [OF _ _ cs(2) this] True
  show ?thesis by (subst collect_combinations.simps) (simp add: combinations_next_def combinations_new_def cs(1))
next
  case False
  moreover have "choose_from k [0..<n] = []" if "n < k"
    using length_choose_from [of k "[0..<n]"] that by (simp add: binomial_eq_0)
  ultimately show ?thesis
    by (subst collect_combinations.simps) (auto simp: combinations_next_def combinations_new_def)
qed

text \<open>
  C36. A loop over the iterator of combinations ends, and it sees exactly the strictly increasing
  lists of \<open>k\<close> positions below \<open>n\<close>, each once and in the order of the recursive enumeration; without
  positions to choose, or with more of them than there are, it sees none.
\<close>

theorem combinations_complete:
  "\<exists>cs. collect_combinations (combinations_new n k) = Some cs \<and>
     cs = (if k = 0 then [] else choose_from k [0..<n]) \<and> distinct cs \<and> length cs = (if k = 0 then 0 else n choose k) \<and>
     set cs = (if k = 0 then {} else {c. sorted_wrt (<) c \<and> set c \<subseteq> {0..<n} \<and> length c = k})"
  using collect_combinations_eq [of n k] distinct_choose_from [of "[0..<n]" k] length_choose_from [of k "[0..<n]"]
    set_choose_from [of k 0 n] by auto

end
