(* ===== verification/Portfolio_Selection.thy ===== *)
theory Portfolio_Selection
  imports Portfolio_Combinations "HOL-Library.Multiset"
begin

text \<open>
  What the search of \<^verbatim>\<open>portfolio.rs\<close> returns: the cache changes nothing, the search finds a subset of
  the largest score, and the result never holds more tokens than allowed.
\<close>

section \<open>Without the cache\<close>

definition subset_weights :: "linalg \<Rightarrow> subset_opt_params \<Rightarrow> nat list \<Rightarrow> f64 list option" where
  "subset_weights L p idx =
     Option.bind (extract_sub_portfolio (so_expected_returns p) (so_covariance_matrix p) idx) (\<lambda>(r, C).
     blend_and_expand L r C (so_max_position p) (so_alphas p) idx (length (so_expected_returns p)))"

fun plain_reoptimize :: "linalg \<Rightarrow> subset_opt_params \<Rightarrow> f64 \<Rightarrow> nat \<Rightarrow> f64 list \<Rightarrow> nat list \<Rightarrow> f64 list option" where
  "plain_reoptimize L p min_size 0 w idx = Some w"
| "plain_reoptimize L p min_size (Suc k) w idx =
     Option.bind (those (map (get_opt w) idx)) (\<lambda>ws.
     let survivors = map fst (filter (\<lambda>(i, x). f64_le min_size x) (zip idx ws)) in
     if length survivors = length idx \<or> survivors = [] then Some w
     else Option.bind (subset_weights L p survivors) (\<lambda>w'. plain_reoptimize L p min_size k w' survivors))"

text \<open>The weights the search considers for a subset.\<close>

definition candidate :: "linalg \<Rightarrow> subset_opt_params \<Rightarrow> f64 \<Rightarrow> nat list \<Rightarrow> f64 list option" where
  "candidate L p min_size idx = Option.bind (subset_weights L p idx) (\<lambda>w. plain_reoptimize L p min_size (length idx) w idx)"

definition cache_sound :: "linalg \<Rightarrow> subset_opt_params \<Rightarrow> weight_cache \<Rightarrow> bool" where
  "cache_sound L p cache \<longleftrightarrow> (\<forall>idx w. cache idx = Some w \<longrightarrow> subset_weights L p idx = Some w)"

lemma cache_sound_empty [simp]: "cache_sound L p Map.empty"
  by (simp add: cache_sound_def)

lemma cached_cases:
  assumes "cache_sound L p cache"
  obtains "subset_weights L p idx = None" "cached_blend_and_expand L cache p idx (length (so_expected_returns p)) = None"
  | w cache' where "subset_weights L p idx = Some w" "cache_sound L p cache'"
    "cached_blend_and_expand L cache p idx (length (so_expected_returns p)) = Some (w, cache')"
proof (cases "cache idx")
  case (Some w)
  then show ?thesis using assms that(2) [of w cache] by (simp add: cached_blend_and_expand_def cache_sound_def)
next
  case None
  have eq: "cached_blend_and_expand L cache p idx (length (so_expected_returns p)) =
      map_option (\<lambda>w. (w, cache(idx \<mapsto> w))) (subset_weights L p idx)"
    using None by (cases "extract_sub_portfolio (so_expected_returns p) (so_covariance_matrix p) idx")
      (auto simp: cached_blend_and_expand_def subset_weights_def)
  show ?thesis
  proof (cases "subset_weights L p idx")
    case None
    then show ?thesis using that(1) by (simp add: eq)
  next
    case (Some w)
    then have "cache_sound L p (cache(idx \<mapsto> w))" using assms by (simp add: cache_sound_def)
    then show ?thesis using that(2) Some by (simp add: eq)
  qed
qed

lemma reoptimize_cases:
  assumes "cache_sound L p cache"
  obtains "plain_reoptimize L p m k w idx = None" "reoptimize_loop L p m k w idx cache = None"
  | w' idx' cache' where "plain_reoptimize L p m k w idx = Some w'" "cache_sound L p cache'"
    "reoptimize_loop L p m k w idx cache = Some (w', idx', cache')"
proof -
  have "(plain_reoptimize L p m k w idx = None \<and> reoptimize_loop L p m k w idx cache = None) \<or>
    (\<exists>w' idx' cache'. plain_reoptimize L p m k w idx = Some w' \<and> cache_sound L p cache' \<and>
      reoptimize_loop L p m k w idx cache = Some (w', idx', cache'))"
    using assms
  proof (induction k arbitrary: w idx cache)
    case (Suc k)
    show ?case
    proof (cases "those (map (get_opt w) idx)")
      case (Some ws)
      define sv where "sv = map fst (filter (\<lambda>(i, x). f64_le m x) (zip idx ws))"
      show ?thesis
      proof (cases rule: cached_cases [OF Suc.prems, of sv])
        case (2 w' cache')
        from Suc.IH [OF 2(2), of w' sv] show ?thesis using Suc.prems 2 by (auto simp: Some Let_def simp flip: sv_def)
      qed (use Suc.prems in \<open>auto simp: Some Let_def simp flip: sv_def\<close>)
    qed simp
  qed simp
  then show ?thesis using that by blast
qed

section \<open>Subsets never panic\<close>

definition params_ok :: "linalg \<Rightarrow> subset_opt_params \<Rightarrow> bool" where
  "params_ok L p \<longleftrightarrow> linalg_spec L \<and> square (length (so_expected_returns p)) (so_covariance_matrix p) \<and>
     length (so_alphas p) = length (so_expected_returns p) \<and> f64_le (Fin 0) (so_max_position p)"

lemma subset_weights_ok:
  assumes "params_ok L p" "set idx \<subseteq> {..<length (so_expected_returns p)}"
  obtains w where "subset_weights L p idx = Some w" "length w = length (so_expected_returns p)" "zero_outside (set idx) w"
proof -
  define r C where "r = map ((!) (so_expected_returns p)) idx" and "C = map (\<lambda>i. map (\<lambda>j. so_covariance_matrix p ! i ! j) idx) idx"
  have e: "extract_sub_portfolio (so_expected_returns p) (so_covariance_matrix p) idx = Some (r, C)"
    using extract_square [OF _ refl assms(2)] assms(1) by (simp add: params_ok_def r_def C_def)
  note b = blend_and_expand_ok [of L idx C r "so_max_position p" "length (so_expected_returns p)" "so_alphas p"]
  have "gives (length (so_expected_returns p)) (subset_weights L p idx)"
    using b(1) assms square_sub_matrix [of idx "so_covariance_matrix p"]
    by (simp add: subset_weights_def e params_ok_def r_def C_def)
  then obtain w where w: "subset_weights L p idx = Some w" "length w = length (so_expected_returns p)" by (rule gives_cases)
  moreover have "zero_outside (set idx) w"
    using b(2) [of w] w(1) assms square_sub_matrix [of idx "so_covariance_matrix p"]
    by (simp add: subset_weights_def e params_ok_def r_def C_def)
  ultimately show ?thesis using that by blast
qed

lemma zero_outside_mono: "zero_outside S w \<Longrightarrow> S \<subseteq> T \<Longrightarrow> zero_outside T w"
  by (auto simp: zero_outside_def)

lemma plain_reoptimize_ok:
  assumes "params_ok L p" "set idx \<subseteq> {..<length (so_expected_returns p)}"
    "length w = length (so_expected_returns p)" "zero_outside (set idx) w"
  shows "\<exists>w'. plain_reoptimize L p m k w idx = Some w' \<and> length w' = length (so_expected_returns p) \<and> zero_outside (set idx) w'"
  using assms
proof (induction k arbitrary: w idx)
  case (Suc k)
  have "those (map (get_opt w) idx) = Some (map ((!) w) idx)"
    using Suc.prems by (intro those_map_Some) (auto simp: get_opt_def subset_iff)
  moreover define sv where "sv = map fst (filter (\<lambda>(i, x). f64_le m x) (zip idx (map ((!) w) idx)))"
  have sv: "set sv \<subseteq> set idx" by (auto simp: sv_def dest: set_zip_leftD)
  then have svn: "set sv \<subseteq> {..<length (so_expected_returns p)}" using Suc.prems by auto
  obtain w1 where w1: "subset_weights L p sv = Some w1" "length w1 = length (so_expected_returns p)" "zero_outside (set sv) w1"
    using subset_weights_ok [OF Suc.prems(1) svn] .
  from Suc.IH [OF Suc.prems(1) svn w1(2,3)] obtain w' where w': "plain_reoptimize L p m k w1 sv = Some w'"
    "length w' = length (so_expected_returns p)" "zero_outside (set sv) w'" by blast
  ultimately show ?case using Suc.prems w1 w' zero_outside_mono [OF w'(3) sv]
    by (auto simp: Let_def simp flip: sv_def)
qed simp

lemma candidate_ok:
  assumes "params_ok L p" "set idx \<subseteq> {..<length (so_expected_returns p)}"
  obtains w where "candidate L p m idx = Some w" "length w = length (so_expected_returns p)" "zero_outside (set idx) w"
proof -
  obtain w where w: "subset_weights L p idx = Some w" "length w = length (so_expected_returns p)" "zero_outside (set idx) w"
    using subset_weights_ok [OF assms] .
  from plain_reoptimize_ok [OF assms w(2,3), of m "length idx"] show ?thesis
    using that by (auto simp: candidate_def w(1))
qed

definition score :: "linalg \<Rightarrow> subset_opt_params \<Rightarrow> f64 list \<Rightarrow> f64 option option" where
  "score L p w = composite_score L (so_expected_returns p) (so_covariance_matrix p) (so_alphas p) w"

lemma score_ok:
  assumes "params_ok L p" "length w = length (so_expected_returns p)"
  shows "score L p w \<noteq> None" "score L p w = Some (Some s) \<Longrightarrow> \<exists>i < length w. f64_less (Fin 0) (w ! i)"
proof -
  define act where "act = filter (\<lambda>(i, x). f64_less (Fin 0) x) (enumerate 0 w)"
  define idx where "idx = map fst act"
  have idx: "set idx \<subseteq> {..<length (so_expected_returns p)}"
    using assms(2) by (auto simp: idx_def act_def in_set_enumerate_eq)
  have M: "square (length (so_expected_returns p)) (so_covariance_matrix p)" "length (so_alphas p) = length (so_expected_returns p)"
    using assms(1) by (simp_all add: params_ok_def)
  have C: "square (length act) (map (\<lambda>i. map (\<lambda>j. so_covariance_matrix p ! i ! j) idx) idx)"
    using square_sub_matrix [of idx] by (simp add: idx_def)
  obtain d where d: "risk_parity_divergence L (map snd act) (map (\<lambda>i. map (\<lambda>j. so_covariance_matrix p ! i ! j) idx) idx) = Some d"
    using risk_parity_divergence_square [OF C, of "map snd act" L] by auto
  have a: "those (map (get_opt (so_alphas p)) idx) = Some (map ((!) (so_alphas p)) idx)"
    using idx M(2) by (intro those_map_Some) (auto simp: get_opt_def subset_iff)
  show "score L p w \<noteq> None"
    using extract_square [OF M(1) refl idx] calculate_portfolio_std_square [OF C] d a
    by (simp add: score_def composite_score_def Let_def flip: act_def idx_def)
  show "\<exists>i < length w. f64_less (Fin 0) (w ! i)" if "score L p w = Some (Some s)"
  proof -
    have "act \<noteq> []" using that by (auto simp: score_def composite_score_def Let_def act_def)
    then obtain i x where "(i, x) \<in> set act" by (cases act) auto
    then show ?thesis by (auto simp: act_def in_set_enumerate_eq)
  qed
qed

section \<open>The best subset\<close>

lemma f64_less_trans: "f64_less a b \<Longrightarrow> f64_less b c \<Longrightarrow> f64_less a c"
  by (cases a; cases b; cases c) auto

lemma f64_less_irrefl [simp]: "\<not> f64_less a a"
  by (cases a) auto

text \<open>What the loop over the combinations keeps.\<close>

definition best_so_far :: "linalg \<Rightarrow> subset_opt_params \<Rightarrow> f64 \<Rightarrow> nat list list \<Rightarrow> f64 \<Rightarrow> f64 list \<Rightarrow> bool" where
  "best_so_far L p m subsets s w \<longleftrightarrow>
     (\<forall>idx \<in> set subsets. \<forall>w' s'. candidate L p m idx = Some w' \<and> score L p w' = Some (Some s') \<longrightarrow> \<not> f64_less s s') \<and>
     (s = NegInf \<and> w = replicate (length (so_expected_returns p)) (Fin 0) \<or>
      f64_less NegInf s \<and> (\<exists>idx \<in> set subsets. candidate L p m idx = Some w \<and> score L p w = Some (Some s)))"

lemma best_so_far_step:
  assumes "best_so_far L p m done_sets s w" "candidate L p m idx = Some w'" "score L p w' = Some sc"
  shows "case sc of
     Some s' \<Rightarrow> if f64_less s s' then best_so_far L p m (done_sets @ [idx]) s' w' else best_so_far L p m (done_sets @ [idx]) s w
   | None \<Rightarrow> best_so_far L p m (done_sets @ [idx]) s w"
proof (cases sc)
  case None
  then show ?thesis using assms by (auto simp: best_so_far_def)
next
  case (Some s')
  show ?thesis
  proof (cases "f64_less s s'")
    case True
    have "\<not> f64_less s' t" if "\<not> f64_less s t" for t using that f64_less_trans [OF True] by blast
    moreover have "f64_less NegInf s'" using True by (cases s'; cases s) auto
    ultimately have "best_so_far L p m (done_sets @ [idx]) s' w'"
      using assms Some unfolding best_so_far_def by (simp add: ball_Un) blast
    then show ?thesis using True by (simp add: Some)
  next
    case False
    then have "best_so_far L p m (done_sets @ [idx]) s w"
      using assms Some unfolding best_so_far_def by (simp add: ball_Un bex_Un) blast
    then show ?thesis using False by (simp add: Some)
  qed
qed

lemma search_loop_best:
  assumes p: "params_ok L p" and act: "set active \<subseteq> {..<length (so_expected_returns p)}"
  shows "cache_sound L p cache \<Longrightarrow> best_so_far L p m done_sets s w \<Longrightarrow>
    list_all (\<lambda>c. set c \<subseteq> {..<length active}) combos \<Longrightarrow>
    \<exists>s' w'. subset_search_loop L p m active combos s w cache = Some w' \<and>
      best_so_far L p m (done_sets @ map (map ((!) active)) combos) s' w'"
proof (induction combos arbitrary: s w cache done_sets)
  case (Cons c combos)
  define idx where "idx = map ((!) active) c"
  have c: "set c \<subseteq> {..<length active}" using Cons.prems by simp
  have sub: "those (map (get_opt active) c) = Some idx"
    unfolding idx_def using c by (intro those_map_Some) (auto simp: get_opt_def subset_iff)
  have "set idx \<subseteq> set active" using c by (auto simp: idx_def subset_iff)
  then have idx: "set idx \<subseteq> {..<length (so_expected_returns p)}" using act by blast
  obtain w' where w': "candidate L p m idx = Some w'" "length w' = length (so_expected_returns p)"
    using candidate_ok [OF p idx] by metis
  obtain b cache1 where b: "subset_weights L p idx = Some b" "cache_sound L p cache1"
    "cached_blend_and_expand L cache p idx (length (so_expected_returns p)) = Some (b, cache1)"
    using w'(1) by (cases rule: cached_cases [OF Cons.prems(1), of idx]) (auto simp: candidate_def)
  have plain: "plain_reoptimize L p m (length idx) b idx = Some w'" using w'(1) b(1) by (simp add: candidate_def)
  obtain i2 cache2 where r: "cache_sound L p cache2" "reoptimize_loop L p m (length idx) b idx cache1 = Some (w', i2, cache2)"
    by (cases rule: reoptimize_cases [OF b(2), of m "length idx" b idx]) (auto simp: plain)
  obtain sc where sc: "score L p w' = Some sc" using score_ok(1) [OF p w'(2)] by auto
  note step = best_so_far_step [OF Cons.prems(2) w'(1) sc]
  have rest: "list_all (\<lambda>c. set c \<subseteq> {..<length active}) combos" using Cons.prems by simp
  show ?case
    using step Cons.IH [OF r(1) _ rest, of "done_sets @ [idx]"] sc
    by (cases sc) (auto simp: sub b(3) filter_and_reoptimize_def r(2) score_def idx_def [symmetric] split: if_splits)
qed auto

abbreviation search_params :: "f64 list \<Rightarrow> matrix \<Rightarrow> f64 \<Rightarrow> f64 list \<Rightarrow> subset_opt_params" where
  "search_params r M max_position alphas \<equiv>
     \<lparr>so_expected_returns = r, so_covariance_matrix = M, so_max_position = max_position, so_alphas = alphas\<rparr>"

abbreviation holdings :: "f64 list \<Rightarrow> nat" where
  "holdings w \<equiv> length (filter (\<lambda>x. x \<noteq> Fin 0) w)"

lemma holdings_le: "zero_outside S w \<Longrightarrow> finite S \<Longrightarrow> card S \<le> h \<Longrightarrow> holdings w \<le> h"
proof -
  assume a: "zero_outside S w" "finite S" "card S \<le> h"
  have "{i. i < length w \<and> w ! i \<noteq> Fin 0} \<subseteq> S" using a(1) by (auto simp: zero_outside_def)
  then show ?thesis using a card_mono [of S "{i. i < length w \<and> w ! i \<noteq> Fin 0}"] by (simp add: length_filter_conv_card)
qed

lemma card_set_le: "length xs \<le> h \<Longrightarrow> card (set xs) \<le> h"
  using card_length [of xs] by linarith

definition first_positions :: "nat \<Rightarrow> nat \<Rightarrow> nat list \<Rightarrow> f64 list" where
  "first_positions n k active =
     spread (replicate n (Fin 0)) (map (\<lambda>i. (i, f64_div (f64_of 1) (f64_of_nat k))) (take k active))"

definition index_subsets :: "nat \<Rightarrow> nat list \<Rightarrow> nat list set" where
  "index_subsets h active =
     {map ((!) active) c | c. sorted_wrt (<) c \<and> set c \<subseteq> {0..<length active} \<and> length c = h}"

lemma search_result:
  assumes p: "params_ok L (search_params r M max_position alphas)" and act: "set active \<subseteq> {..<length r}"
    and h: "0 < h" "h < length active"
  shows "\<exists>s w. (s = NegInf \<and> exhaustive_optimize L active r M max_position h m alphas = Some (first_positions (length r) h active) \<or>
      f64_less NegInf s \<and> exhaustive_optimize L active r M max_position h m alphas = Some w \<and>
      (\<exists>idx \<in> index_subsets h active. candidate L (search_params r M max_position alphas) m idx = Some w) \<and>
      score L (search_params r M max_position alphas) w = Some (Some s)) \<and>
    (\<forall>idx \<in> index_subsets h active. \<forall>w' s'. candidate L (search_params r M max_position alphas) m idx = Some w' \<and>
       score L (search_params r M max_position alphas) w' = Some (Some s') \<longrightarrow> \<not> f64_less s s')"
proof -
  let ?p = "search_params r M max_position alphas"
  define cs where "cs = choose_from h [0..<length active]"
  have col: "collect_combinations (combinations_new (length active) h) = Some cs"
    using h by (simp add: collect_combinations_eq cs_def)
  have sets: "set (map (map ((!) active)) cs) = index_subsets h active"
    by (auto simp: index_subsets_def cs_def set_choose_from image_iff)
  have "list_all (\<lambda>c. set c \<subseteq> {..<length active}) cs"
    by (auto simp: list_all_iff cs_def set_choose_from subset_iff)
  then obtain s w where s: "subset_search_loop L ?p m active cs NegInf (replicate (length r) (Fin 0)) Map.empty = Some w"
    and b: "best_so_far L ?p m (map (map ((!) active)) cs) s w"
    using search_loop_best [OF p, of active Map.empty m "[]" NegInf "replicate (length r) (Fin 0)" cs] act
    by (auto simp: best_so_far_def)
  have ne: "active \<noteq> []" using h by auto
  have ex: "exhaustive_optimize L active r M max_position h m alphas =
      (if list_all (\<lambda>w. f64_eq w (Fin 0)) w then
         if list_all (\<lambda>i. i < length r) (take h active)
         then Some (spread w (map (\<lambda>i. (i, f64_div (f64_of 1) (f64_of_nat h))) (take h active))) else None
       else Some w)"
    using h ne by (simp add: exhaustive_optimize_def Let_def col s)
  have inr: "list_all (\<lambda>i. i < length r) (take h active)" using act by (auto simp: list_all_iff dest: in_set_takeD)
  from b [unfolded best_so_far_def sets] show ?thesis
  proof (elim conjE disjE)
    assume *: "s = NegInf" "w = replicate (length (so_expected_returns ?p)) (Fin 0)"
    then have "exhaustive_optimize L active r M max_position h m alphas = Some (first_positions (length r) h active)"
      using ex inr by (simp add: first_positions_def list_all_iff f64_eq_def)
    then show ?thesis using * b [unfolded best_so_far_def sets] by blast
  next
    assume *: "f64_less NegInf s" "\<exists>idx \<in> index_subsets h active. candidate L ?p m idx = Some w \<and> score L ?p w = Some (Some s)"
    then obtain idx where idx: "idx \<in> index_subsets h active" "candidate L ?p m idx = Some w" "score L ?p w = Some (Some s)" by blast
    have "set idx \<subseteq> set active" using idx(1) by (auto simp: index_subsets_def subset_iff)
    then have "length w = length r" using candidate_ok [OF p, of idx m] act idx(2) by auto
    then obtain i where "i < length w" "f64_less (Fin 0) (w ! i)" using score_ok(2) [OF p _ idx(3)] by auto
    then have "\<not> list_all (\<lambda>w. f64_eq w (Fin 0)) w" by (auto simp: list_all_length f64_eq_def)
    then have "exhaustive_optimize L active r M max_position h m alphas = Some w" by (simp add: ex)
    then show ?thesis using * idx b [unfolded best_so_far_def sets] by blast
  qed
qed

lemma index_subsets_active: "idx \<in> index_subsets h active \<Longrightarrow> set idx \<subseteq> set active \<and> length idx = h"
  by (auto simp: index_subsets_def subset_iff)

lemma exhaustive_optimize_ok:
  assumes p: "params_ok L (search_params r M max_position alphas)" and act: "set active \<subseteq> {..<length r}"
  shows "\<exists>w. exhaustive_optimize L active r M max_position h m alphas = Some w \<and> length w = length r \<and> holdings w \<le> h"
proof -
  let ?p = "search_params r M max_position alphas"
  consider "active = []" | "active \<noteq> []" "length active \<le> h" | "h = 0" "active \<noteq> []" | "0 < h" "h < length active" by fastforce
  then show ?thesis
  proof cases
    case 1
    then show ?thesis by (simp add: exhaustive_optimize_def Let_def filter_empty_conv)
  next
    case 2
    obtain w where w: "candidate L ?p m active = Some w" "length w = length r" "zero_outside (set active) w"
      using candidate_ok [OF p, of active m] act by auto
    obtain b cache1 where b: "subset_weights L ?p active = Some b" "cache_sound L ?p cache1"
      "cached_blend_and_expand L Map.empty ?p active (length r) = Some (b, cache1)"
      using w(1) by (cases rule: cached_cases [OF cache_sound_empty, of L ?p active]) (auto simp: candidate_def)
    have plain: "plain_reoptimize L ?p m (length active) b active = Some w" using w(1) b(1) by (simp add: candidate_def)
    have "map_option fst (filter_and_reoptimize L ?p m b active cache1) = Some w"
      by (cases rule: reoptimize_cases [OF b(2), of m "length active" b active]) (auto simp: plain filter_and_reoptimize_def)
    then have "exhaustive_optimize L active r M max_position h m alphas = Some w"
      using 2 b(3) by (simp add: exhaustive_optimize_def Let_def)
    then show ?thesis using w holdings_le [OF w(3) _ card_set_le] 2 by simp
  next
    case 3
    then show ?thesis by (simp add: exhaustive_optimize_def Let_def collect_combinations_eq list_all_iff f64_eq_def spread_def filter_empty_conv)
  next
    case 4
    have first: "length (first_positions (length r) h active) = length r" "holdings (first_positions (length r) h active) \<le> h"
      using zero_outside_spread [of "map (\<lambda>i. (i, f64_div (f64_of 1) (f64_of_nat h))) (take h active)" "set (take h active)" "length r"]
        holdings_le [OF _ _ card_set_le [of "take h active"]] by (force simp: first_positions_def)+
    from search_result [OF p act 4, of m] show ?thesis
    proof (elim exE conjE disjE bexE)
      fix s w idx assume *: "exhaustive_optimize L active r M max_position h m alphas = Some w"
        "idx \<in> index_subsets h active" "candidate L ?p m idx = Some w"
      note idx = index_subsets_active [OF *(2)]
      have "set idx \<subseteq> {..<length (so_expected_returns ?p)}" using idx act by auto
      then have "length w = length r" "zero_outside (set idx) w" using candidate_ok [OF p, of idx m] *(3) by auto
      then show ?thesis using * holdings_le [OF _ _ card_set_le] idx by auto
    qed (use first in blast)
  qed
qed

definition sort_returns :: "((nat \<times> f64) list \<Rightarrow> (nat \<times> f64) list option) \<Rightarrow> bool" where
  "sort_returns rank \<longleftrightarrow> (\<forall>xs. \<exists>ys. rank xs = Some ys \<and> mset ys = mset xs)"

lemma ranked_indices:
  assumes "sort_returns rank"
  obtains ys where "rank xs = Some ys" "\<And>k. set (map fst (take k ys)) \<subseteq> fst ` set xs"
proof -
  from assms obtain ys where ys: "rank xs = Some ys" "mset ys = mset xs" unfolding sort_returns_def by blast
  have "set ys = set xs" using mset_eq_setD [OF ys(2)] .
  then have "set (map fst (take k ys)) \<subseteq> fst ` set xs" for k by (auto dest: in_set_takeD)
  then show ?thesis using ys that by blast
qed

lemma unified_optimize_ok:
  assumes L: "linalg_spec L" and rank: "sort_returns rank" and M: "square (length r) M"
    and len: "length liq = length r" "length alphas = length r" and pos: "f64_le (Fin 0) max_position" and h: "0 < h"
  shows "\<exists>w. unified_optimize L rank r M liq max_position h m alphas = Some w \<and> length w = length r \<and> holdings w \<le> h"
proof -
  define n adj where "n = length r" and "adj = adjust_returns_for_liquidity r liq"
  have adj: "length adj = n" using len by (simp add: adj_def adjust_returns_for_liquidity_def n_def)
  obtain ws where ws: "box_maximize_sharpe L adj M max_position = Some ws" "length ws = n"
    using gives_box_maximize_sharpe [OF L _ adj pos] M by (auto simp: n_def elim: gives_cases)
  obtain wr where wr: "box_risk_parity L M max_position = Some wr" "length wr = n"
    using gives_box_risk_parity [OF L M pos] by (auto simp: n_def elim: gives_cases)
  obtain ys where ys: "rank (enumerate 0 ws) = Some ys" "\<And>k. set (map fst (take k ys)) \<subseteq> fst ` set (enumerate 0 ws)"
    using ranked_indices [OF rank, of "enumerate 0 ws"] by blast
  obtain zs where zs: "rank (enumerate 0 wr) = Some zs" "\<And>k. set (map fst (take k zs)) \<subseteq> fst ` set (enumerate 0 wr)"
    using ranked_indices [OF rank, of "enumerate 0 wr"] by blast
  define A where "A = set (map fst (take (min PRUNE_KEEP_PER n) ys)) \<union> set (map fst (take (min PRUNE_KEEP_PER n) zs))"
  define all where "all = (if A = {} then [0..<n] else sorted_list_of_set A)"
  have A: "A \<subseteq> {..<n}" "finite A"
    unfolding A_def using ys(2) zs(2) ws(2) wr(2) by (fastforce simp: in_set_enumerate_eq)+
  have all: "set all \<subseteq> {..<n}" using A by (auto simp: all_def)
  have "blend_scores alphas ws wr all = Some (map (\<lambda>i. (i, f64_add (f64_mul (alphas ! i) (ws ! i))
      (f64_mul (f64_sub (f64_of 1) (alphas ! i)) (wr ! i)))) all)"
    unfolding blend_scores_def using all len ws wr
    by (intro those_map_Some) (auto simp: get_opt_def subset_iff n_def)
  then obtain sc where sc: "blend_scores alphas ws wr all = Some sc" "fst ` set sc = set all" by (force simp: image_iff)
  obtain us where us: "rank sc = Some us" "\<And>k. set (map fst (take k us)) \<subseteq> fst ` set sc"
    using ranked_indices [OF rank, of sc] by blast
  have act: "\<exists>active. (if length all > MAX_PHASE3_CANDIDATES \<and> length all > h
         then Option.bind (blend_scores alphas ws wr all) (\<lambda>scored.
           map_option (\<lambda>ranked. sort (map fst (take MAX_PHASE3_CANDIDATES ranked))) (rank scored))
         else Some all) = Some active \<and> set active \<subseteq> {..<n}"
    using us sc all by (auto simp: subset_iff)
  then obtain active where active: "(if length all > MAX_PHASE3_CANDIDATES \<and> length all > h
         then Option.bind (blend_scores alphas ws wr all) (\<lambda>scored.
           map_option (\<lambda>ranked. sort (map fst (take MAX_PHASE3_CANDIDATES ranked))) (rank scored))
         else Some all) = Some active" "set active \<subseteq> {..<n}" by blast
  have "params_ok L (search_params adj M max_position alphas)"
    using L M len pos adj by (simp add: params_ok_def n_def)
  from exhaustive_optimize_ok [OF this, of active h m] active(2) adj
  obtain w where w: "exhaustive_optimize L active adj M max_position h m alphas = Some w" "length w = n" "holdings w \<le> h" by auto
  have norm: "holdings (normalize_weights w) \<le> h"
  proof -
    have "zero_outside {i. i < length w \<and> w ! i \<noteq> Fin 0} (normalize_weights w)"
      by (rule zero_outside_normalize) (auto simp: zero_outside_def)
    then show ?thesis using w(3) by (intro holdings_le) (auto simp: length_filter_conv_card)
  qed
  consider "n = 0" | "n = 1" | "n > 1" by linarith
  then show ?thesis
  proof cases
    case 3
    then have "unified_optimize L rank r M liq max_position h m alphas = Some (normalize_weights w)"
      unfolding unified_optimize_def Let_def n_def [symmetric] adj_def [symmetric] ws(1) wr(1) ys(1) zs(1)
        Option.bind.bind_lunit A_def [symmetric] all_def [symmetric] active(1) w(1)
      by simp
    then show ?thesis using w norm by (simp add: n_def)
  qed (use h in \<open>auto simp: unified_optimize_def Let_def n_def\<close>)
qed

section \<open>The search is exhaustive\<close>

text \<open>
  C37. With more candidates than positions, the search returns without a panic. Its result is the
  candidate of some choice of exactly \<open>h\<close> of the active tokens, computed without any cache, and no
  choice of \<open>h\<close> active tokens has a candidate with a larger score. Only when no choice has a score
  above minus infinity the result is an equal share of the first \<open>h\<close> tokens.
\<close>

theorem exhaustive_search_optimal:
  assumes "linalg_spec L" "square (length r) M" "length alphas = length r" "f64_le (Fin 0) max_position"
    and "set active \<subseteq> {..<length r}" "0 < h" "h < length active"
  shows "\<exists>s w. exhaustive_optimize L active r M max_position h m alphas = Some w \<and>
    (s = NegInf \<and> w = first_positions (length r) h active \<or>
     f64_less NegInf s \<and> score L (search_params r M max_position alphas) w = Some (Some s) \<and>
     (\<exists>idx \<in> index_subsets h active. candidate L (search_params r M max_position alphas) m idx = Some w)) \<and>
    (\<forall>idx \<in> index_subsets h active. \<forall>w' s'. candidate L (search_params r M max_position alphas) m idx = Some w' \<and>
       score L (search_params r M max_position alphas) w' = Some (Some s') \<longrightarrow> \<not> f64_less s s')"
proof -
  have "params_ok L (search_params r M max_position alphas)" using assms by (simp add: params_ok_def)
  from search_result [OF this assms(5-7), of m] show ?thesis by blast
qed

text \<open>An instance of the parameters: the products are the plain sums.\<close>

definition plain_linalg :: linalg where
  "plain_linalg = \<lparr>
     la_eigen = (\<lambda>M. (map (\<lambda>i. M ! i ! i) [0..<length M], from_fn (length M) (\<lambda>i j. if i = j then Fin 1 else Fin 0))),
     la_mul = (\<lambda>M N. from_fn (length M) (\<lambda>i j. f64_sum (map (\<lambda>k. f64_mul (M ! i ! k) (N ! k ! j)) [0..<length M]))),
     la_cholesky = (\<lambda>M. None),
     la_lu = (\<lambda>M v. Some (map (\<lambda>i. f64_div (v ! i) (M ! i ! i)) [0..<length M])),
     la_mat_vec = (\<lambda>M v. map (\<lambda>row. f64_sum (map (\<lambda>(a, b). f64_mul a b) (zip row v))) M),
     la_dot = (\<lambda>v w. f64_sum (map (\<lambda>(a, b). f64_mul a b) (zip v w)))\<rparr>"

lemma plain_linalg_spec: "linalg_spec plain_linalg"
  by (auto simp: linalg_spec_def plain_linalg_def square_length)

theorem exhaustive_search_optimal_witness:
  "\<exists>w. exhaustive_optimize plain_linalg [0, 1] [Fin 0, Fin 1] (zeros 2) (Fin 1) 1 (Fin 0) [Fin 1, Fin 1] = Some w"
proof -
  have "square (length [Fin 0, Fin 1]) (zeros 2)" using square_zeros [of 2] by (simp add: numeral_2_eq_2)
  moreover have "set [0, 1] \<subseteq> {..<length [Fin 0, Fin 1]}" by auto
  ultimately show ?thesis
    using exhaustive_search_optimal [OF plain_linalg_spec, of "[Fin 0, Fin 1]" "zeros 2" "[Fin 1, Fin 1]" "Fin 1" "[0, 1]" 1 "Fin 0"]
    by (fastforce simp: f64_le_def)
qed

end
