(* ===== verification/Portfolio.thy ===== *)
theory Portfolio
  imports Portfolio_Selection Execution
begin

text \<open>
  \<^verbatim>\<open>execute_portfolio_optimization\<close> of \<^verbatim>\<open>common/src/algorithm/portfolio.rs\<close>: from the market data to the
  target weights, the action that rebalances to them, and the measures of the report. The two
  readings of the clock are arguments. The function has no error; \<open>None\<close> is a panic.
\<close>

section \<open>Operations\<close>

record portfolio_weights =
  pw_weights :: "(token_out_account, rat) btree_map"
  pw_timestamp :: int
  pw_expected_return :: f64
  pw_expected_volatility :: f64
  pw_sharpe_ratio :: f64

record portfolio_metrics =
  pm_sortino_ratio :: f64
  pm_max_drawdown :: f64
  pm_calmar_ratio :: f64
  pm_turnover_rate :: f64

record portfolio_execution_report =
  pr_actions :: "trading_action list"
  pr_optimal_weights :: portfolio_weights
  pr_rebalance_needed :: bool
  pr_expected_metrics :: portfolio_metrics
  pr_timestamp :: int

definition calculate_current_weights :: "bigdecimal \<Rightarrow> conversions \<Rightarrow> token_data list \<Rightarrow> wallet_info \<Rightarrow> f64 list" where
  "calculate_current_weights B V tokens w = map (\<lambda>token.
     case map_of (wi_holdings w) (td_symbol token) of
       None \<Rightarrow> Fin 0
     | Some holding \<Rightarrow>
         if nv_is_zero (wi_total_value w) then Fin 0
         else to_f64_or_zero V (nv_ratio B (ta_div_rate B holding (td_current_rate token)) (wi_total_value w))) tokens"

definition positive_targets :: "conversions \<Rightarrow> token_data list \<Rightarrow> f64 list \<Rightarrow> (token_out_account, rat) btree_map" where
  "positive_targets V tokens weights = btree_collect (map (\<lambda>(token, weight). (td_symbol token, weight_from_f64 V weight))
     (filter (\<lambda>(_, weight). f64_less (Fin 0) weight) (zip tokens weights)))"

definition generate_rebalance_actions :: "conversions \<Rightarrow> token_data list \<Rightarrow> f64 list \<Rightarrow> trading_action list option" where
  "generate_rebalance_actions V tokens target_weights =
     (if length target_weights < length tokens then None else
      let target_map = positive_targets V tokens target_weights in
      Some (if target_map = [] then [] else [Rebalance target_map]))"

definition PREDICTION_ALPHA_FLOOR :: f64 where "PREDICTION_ALPHA_FLOOR = f64_of (1 / 2)"

definition token_alpha :: "f64 \<Rightarrow> f64 option \<Rightarrow> f64" where
  "token_alpha alpha_vol confidence = (case confidence of
     Some c \<Rightarrow> f64_clamp (f64_add PREDICTION_ALPHA_FLOOR (f64_mul (f64_sub alpha_vol PREDICTION_ALPHA_FLOOR) c))
       PREDICTION_ALPHA_FLOOR (f64_of (9 / 10))
   | None \<Rightarrow> f64_max (f64_mul alpha_vol (f64_of (1 / 2))) PREDICTION_ALPHA_FLOOR)"

definition select_tokens :: "portfolio_data \<Rightarrow> token_data list" where
  "select_tokens data = filter (\<lambda>t. map_of (pd_historical_prices data) (td_symbol t) \<noteq> None)
     (hard_filter_tokens (pd_tokens data))"

definition select_histories :: "portfolio_data \<Rightarrow> token_data list \<Rightarrow> price_history list" where
  "select_histories data tokens = concat (map (\<lambda>t.
     case map_of (pd_historical_prices data) (td_symbol t) of Some h \<Rightarrow> [h] | None \<Rightarrow> []) tokens)"

definition portfolio_daily_returns :: "f64 list \<Rightarrow> f64 list list \<Rightarrow> f64 list" where
  "portfolio_daily_returns weights daily_returns =
     (let min_return_len = (if daily_returns = [] then 0 else Min (set (map length daily_returns))) in
      if min_return_len > 0 \<and> weights \<noteq> [] then
        map (\<lambda>day. f64_sum (map (\<lambda>(w, returns). f64_mul w (returns ! (length returns - min_return_len + day)))
          (zip weights daily_returns))) [0..<min_return_len]
      else [])"

definition cumulative_values :: "f64 list \<Rightarrow> f64 list" where
  "cumulative_values rs = foldl (\<lambda>vals r. vals @ [f64_mul (last vals) (f64_add (f64_of 1) r)]) [f64_of 1] rs"

definition backtest :: "f64 list \<Rightarrow> f64 \<Rightarrow> portfolio_metrics" where
  "backtest returns turnover =
     (let max_drawdown = calculate_max_drawdown (cumulative_values returns);
          mean = (if returns = [] then Fin 0 else mean_of returns)
      in \<lparr>pm_sortino_ratio = calculate_sortino_ratio returns RISK_FREE_RATE,
          pm_max_drawdown = max_drawdown,
          pm_calmar_ratio = (if f64_less (Fin 0) max_drawdown then f64_div mean max_drawdown else Fin 0),
          pm_turnover_rate = turnover\<rparr>)"

definition empty_report :: "int \<Rightarrow> int \<Rightarrow> portfolio_execution_report" where
  "empty_report now1 now2 = \<lparr>pr_actions = [Hold],
     pr_optimal_weights = \<lparr>pw_weights = [], pw_timestamp = now1, pw_expected_return = Fin 0,
       pw_expected_volatility = Fin 0, pw_sharpe_ratio = Fin 0\<rparr>,
     pr_rebalance_needed = False,
     pr_expected_metrics = \<lparr>pm_sortino_ratio = Fin 0, pm_max_drawdown = Fin 0, pm_calmar_ratio = Fin 0, pm_turnover_rate = Fin 0\<rparr>,
     pr_timestamp = now2\<rparr>"

definition execute_portfolio_optimization :: "bigdecimal \<Rightarrow> conversions \<Rightarrow> linalg \<Rightarrow>
    ((nat \<times> f64) list \<Rightarrow> (nat \<times> f64) list option) \<Rightarrow> wallet_info \<Rightarrow> portfolio_data \<Rightarrow> f64 \<Rightarrow> int \<Rightarrow> int \<Rightarrow>
    portfolio_execution_report option" where
  "execute_portfolio_optimization B V L rank w data rebalance_threshold now1 now2 =
     (if hard_filter_tokens (pd_tokens data) = [] then Some (empty_report now1 now2) else
      let selected = select_tokens data;
          predictions = filter (\<lambda>(symbol, _). list_ex (\<lambda>t. td_symbol t = symbol) selected) (pd_predictions data);
          expected_returns = calculate_expected_returns B V selected predictions;
          daily_returns = calculate_daily_returns V (select_histories data selected);
          covariance = calculate_covariance_matrix L daily_returns;
          avg_volatility = calculate_market_volatility daily_returns;
          max_position = dynamic_max_position avg_volatility;
          alpha_vol = volatility_blend_alpha avg_volatility;
          alphas = map (\<lambda>t. token_alpha alpha_vol (map_of (pd_prediction_confidences data) (td_symbol t))) selected;
          liquidity_scores = map (\<lambda>t. case td_liquidity_score t of Some s \<Rightarrow> s | None \<Rightarrow> Fin 0) selected;
          current_weights = calculate_current_weights B V selected w
      in Option.bind (unified_optimize L rank expected_returns covariance liquidity_scores max_position MAX_HOLDINGS
          MIN_POSITION_SIZE alphas) (\<lambda>optimal_weights.
      let rebalance_needed = needs_rebalancing current_weights optimal_weights rebalance_threshold in
      Option.bind (if rebalance_needed then generate_rebalance_actions V selected optimal_weights else Some [Hold]) (\<lambda>actions.
      map_option (\<lambda>portfolio_vol.
        let portfolio_return = calculate_portfolio_return optimal_weights expected_returns;
            sharpe_ratio = (if f64_less (Fin 0) portfolio_vol
              then f64_div (f64_sub portfolio_return RISK_FREE_RATE) portfolio_vol else Fin 0)
        in \<lparr>pr_actions = actions,
            pr_optimal_weights = \<lparr>pw_weights = positive_targets V selected optimal_weights, pw_timestamp = now1,
              pw_expected_return = portfolio_return, pw_expected_volatility = portfolio_vol, pw_sharpe_ratio = sharpe_ratio\<rparr>,
            pr_rebalance_needed = rebalance_needed,
            pr_expected_metrics = backtest (portfolio_daily_returns optimal_weights daily_returns)
              (calculate_turnover_rate current_weights optimal_weights),
            pr_timestamp = now2\<rparr>) (calculate_portfolio_std L optimal_weights covariance))))"

section \<open>The report\<close>

lemma length_btree_insert: "length (btree_insert k v m) \<le> Suc (length m)"
  by (induction k v m rule: btree_insert.induct) auto

lemma btree_collect_bounds:
  "length (btree_collect kvs) \<le> length kvs" "set (btree_collect kvs) \<subseteq> set kvs"
proof -
  have "length (fold (\<lambda>(k, v). btree_insert k v) kvs m) \<le> length kvs + length m" for m :: "('a \<times> 'b) list"
  proof (induction kvs arbitrary: m)
    case (Cons kv kvs)
    show ?case using Cons [of "btree_insert (fst kv) (snd kv) m"] length_btree_insert [of "fst kv" "snd kv" m]
      by (cases kv) auto
  qed simp
  from this [of "[]"] show "length (btree_collect kvs) \<le> length kvs" by (simp add: btree_collect_def)
  have ins: "set (btree_insert k v m) \<subseteq> insert (k, v) (set m)" for k and v :: 'b and m :: "('a \<times> 'b) list"
    by (induction k v m rule: btree_insert.induct) auto
  have "set (fold (\<lambda>(k, v). btree_insert k v) kvs m) \<subseteq> set kvs \<union> set m" for m :: "('a \<times> 'b) list"
  proof (induction kvs arbitrary: m)
    case (Cons kv kvs)
    show ?case using Cons [of "btree_insert (fst kv) (snd kv) m"] ins [of "fst kv" "snd kv" m]
      by (cases kv) auto
  qed simp
  from this [of "[]"] show "set (btree_collect kvs) \<subseteq> set kvs" by (simp add: btree_collect_def)
qed

lemma length_filter_zip: "length (filter (\<lambda>(a, w). P w) (zip xs ws)) \<le> length (filter P ws)"
proof (induction xs ws rule: list_induct2')
  case (4 x xs w ws)
  then show ?case by simp
qed auto

lemma positive_targets_bounds:
  "length (positive_targets V tokens w) \<le> holdings w"
  "conversions_spec V \<Longrightarrow> (t, x) \<in> set (positive_targets V tokens w) \<Longrightarrow> t \<in> td_symbol ` set tokens \<and> 0 \<le> x"
proof -
  have "length (filter (f64_less (Fin 0)) w) \<le> holdings w"
    by (induction w) auto
  then show "length (positive_targets V tokens w) \<le> holdings w"
    using length_filter_zip [of "f64_less (Fin 0)" tokens w]
      btree_collect_bounds(1) [of "map (\<lambda>(token, weight). (td_symbol token, weight_from_f64 V weight))
        (filter (\<lambda>(_, weight). f64_less (Fin 0) weight) (zip tokens w))"]
    by (simp add: positive_targets_def)
  assume V: "conversions_spec V" and tx: "(t, x) \<in> set (positive_targets V tokens w)"
  have pos: "0 \<le> weight_from_f64 V y" if "f64_less (Fin 0) y" for y
    using V that unfolding conversions_spec_def weight_from_f64_def
    by (cases y) (auto split: option.splits, (metis less_imp_le option.inject)+)
  show "t \<in> td_symbol ` set tokens \<and> 0 \<le> x"
    using subsetD [OF btree_collect_bounds(2) tx [unfolded positive_targets_def]]
    by (auto simp: pos dest: set_zip_leftD)
qed

lemma select_histories_tokens:
  assumes "\<forall>(k, h) \<in> set (pd_historical_prices data). hist_token h = k" "\<forall>t \<in> set ts. map_of (pd_historical_prices data) (td_symbol t) \<noteq> None"
  shows "map hist_token (select_histories data ts) = map td_symbol ts"
  using assms(2)
proof (induction ts)
  case (Cons t ts)
  then obtain h where h: "map_of (pd_historical_prices data) (td_symbol t) = Some h" by auto
  then have "hist_token h = td_symbol t" using assms(1) map_of_SomeD by fastforce
  with h Cons show ?case by (simp add: select_histories_def)
qed (simp add: select_histories_def)

lemma select_tokens_facts:
  "set (select_tokens data) \<subseteq> set (hard_filter_tokens (pd_tokens data))"
  "\<forall>t \<in> set (select_tokens data). map_of (pd_historical_prices data) (td_symbol t) \<noteq> None"
  "distinct (map td_symbol (pd_tokens data)) \<Longrightarrow> distinct (map td_symbol (select_tokens data))"
  by (auto simp: select_tokens_def hard_filter_tokens_def distinct_map_filter)

text \<open>The returns the volatility of the portfolio is computed from.\<close>

definition selected_returns :: "conversions \<Rightarrow> portfolio_data \<Rightarrow> f64 list list" where
  "selected_returns V data = calculate_daily_returns V (select_histories data (select_tokens data))"

lemma length_selected_returns:
  assumes "distinct (map td_symbol (pd_tokens data))" "\<forall>(k, h) \<in> set (pd_historical_prices data). hist_token h = k"
  shows "length (selected_returns V data) = length (select_tokens data)"
proof -
  have m: "map hist_token (select_histories data (select_tokens data)) = map td_symbol (select_tokens data)"
    by (rule select_histories_tokens [OF assms(2) select_tokens_facts(2)])
  then have "first_of_each {} (select_histories data (select_tokens data)) = select_histories data (select_tokens data)"
    using select_tokens_facts(3) [OF assms(1)] by (intro first_of_each_distinct) auto
  then show ?thesis using map_eq_imp_length_eq [OF m] by (simp add: selected_returns_def calculate_daily_returns_def)
qed


text \<open>An instance: a sort by insertion, and one token with an empty history.\<close>

fun insert_by_weight :: "nat \<times> f64 \<Rightarrow> (nat \<times> f64) list \<Rightarrow> (nat \<times> f64) list" where
  "insert_by_weight x [] = [x]"
| "insert_by_weight x (y # ys) = (if f64_less (snd x) (snd y) then y # insert_by_weight x ys else x # y # ys)"

definition rank_by_insertion :: "(nat \<times> f64) list \<Rightarrow> (nat \<times> f64) list option" where
  "rank_by_insertion xs = Some (foldr insert_by_weight xs [])"

lemma rank_by_insertion_returns: "sort_returns rank_by_insertion"
proof -
  have ins: "mset (insert_by_weight x ys) = add_mset x (mset ys)" for x ys
    by (induction x ys rule: insert_by_weight.induct) auto
  have "mset (foldr insert_by_weight xs []) = mset xs" for xs by (induction xs) (auto simp: ins)
  then show ?thesis by (simp add: sort_returns_def rank_by_insertion_def)
qed

definition sample_symbol :: token_out_account where
  "sample_symbol = TokenOutAccount (TokenAccount ''a.near'')"

definition sample_market :: portfolio_data where
  "sample_market = \<lparr>
     pd_tokens = [\<lparr>td_symbol = sample_symbol, td_current_rate = rate_wnear, td_historical_volatility = Fin 0,
       td_liquidity_score = Some (Fin 1), td_market_cap = None\<rparr>],
     pd_predictions = [],
     pd_historical_prices = [(sample_symbol, \<lparr>hist_token = sample_symbol, hist_quote_token = as_in sample_symbol, hist_prices = []\<rparr>)],
     pd_prediction_confidences = []\<rparr>"


section \<open>Limits\<close>

lemma floor_constants:
  "PREDICTION_ALPHA_FLOOR = Fin (1 / 2) \<and> f64_of (1 / 2) = Fin (1 / 2) \<and> f64_of (9 / 10) = Fin (fin (f64_of (9 / 10))) \<and>
   1 / 2 \<le> fin (f64_of (9 / 10)) \<and> \<bar>round_to_f64 (fin (f64_of (9 / 10)) * (1 / 2))\<bar> \<le> 1 / 2 \<and>
   0 < round_to_f64 (69 / 100 - 1 / 2) \<and> \<bar>round_to_f64 (69 / 100 - 1 / 2)\<bar> \<le> 2 \<and>
   \<bar>round_to_f64 (fin (f64_of (9 / 10)) - 1 / 2)\<bar> \<le> 2 \<and> \<bar>round_to_f64 (69 / 100 * (1 / 2))\<bar> \<le> 2"
  by code_simp

lemma token_alpha_bounds:
  assumes "69 / 100 \<le> a" "a \<le> fin (f64_of (9 / 10))"
  shows "token_alpha (Fin a) None = Fin (1 / 2)"
    "c \<noteq> NaN \<Longrightarrow> \<exists>b. token_alpha (Fin a) (Some c) = Fin b \<and> 1 / 2 \<le> b \<and> b \<le> fin (f64_of (9 / 10))"
proof -
  define t where "t = fin (f64_of (9 / 10))"
  have k: "PREDICTION_ALPHA_FLOOR = Fin (1 / 2)" "f64_of (1 / 2) = Fin (1 / 2)" "f64_of (9 / 10) = Fin t" "1 / 2 \<le> t"
    "\<bar>round_to_f64 (t * (1 / 2))\<bar> \<le> 1 / 2" "0 < round_to_f64 (69 / 100 - 1 / 2)" "\<bar>round_to_f64 (69 / 100 - 1 / 2)\<bar> \<le> 2"
    "\<bar>round_to_f64 (t - 1 / 2)\<bar> \<le> 2" "\<bar>round_to_f64 (69 / 100 * (1 / 2))\<bar> \<le> 2"
    using floor_constants unfolding t_def by blast+
  have t2: "\<bar>round_to_f64 (t * (1 / 2))\<bar> \<le> 2" using k(5) by linarith
  have a: "69 / 100 \<le> a" "a \<le> t" using assms by (simp_all add: t_def)
  have ah: "69 / 100 * (1 / 2) \<le> a * (1 / 2)" "a * (1 / 2) \<le> t * (1 / 2)" using a by simp_all
  note half = f64_of_mono_between [OF ah k(9) t2]
  have "f64_mul (Fin a) (f64_of (1 / 2)) = Fin (round_to_f64 (a * (1 / 2)))"
    unfolding k(2) f64_mul_def by (simp only: prod.case f64.case half(1))
  moreover have "round_to_f64 (a * (1 / 2)) \<le> 1 / 2" using half(3) k(5) by linarith
  ultimately show "token_alpha (Fin a) None = Fin (1 / 2)"
    by (simp add: token_alpha_def k(1) f64_max_def)
  assume c: "c \<noteq> NaN"
  have am: "69 / 100 - 1 / 2 \<le> a - 1 / 2" "a - 1 / 2 \<le> t - 1 / 2" using a by simp_all
  note sub = f64_of_mono_between [OF am k(7,8)]
  define x where "x = round_to_f64 (a - 1 / 2)"
  have x: "f64_sub (Fin a) (Fin (1 / 2)) = Fin x" "0 < x" using sub k(6) by (simp_all add: f64_sub_def x_def)
  have "f64_add (Fin (1 / 2)) (f64_mul (Fin x) c) \<noteq> NaN"
  proof -
    have "f64_mul (Fin x) c \<noteq> NaN" using c x(2) by (cases c) (simp_all add: f64_mul_def inf_of_def)
    then show ?thesis by (cases "f64_mul (Fin x) c") simp_all
  qed
  from f64_clamp_between [OF k(4) this]
  show "\<exists>b. token_alpha (Fin a) (Some c) = Fin b \<and> 1 / 2 \<le> b \<and> b \<le> fin (f64_of (9 / 10))"
    unfolding token_alpha_def option.case k(1) x(1) k(3) f64.sel by metis
qed



end
