(* ===== verification/Float_Config.thy ===== *)
theory Float_Config
  imports Config Float64
begin

text \<open>
  The accessors of \<^verbatim>\<open>common/src/config/typed.rs\<close> at type \<^verbatim>\<open>f64\<close>, with the grammar of
  \<^verbatim>\<open>str::parse\<close> at that type: an optional sign, then an infinity, \<open>NaN\<close>, or decimal digits with an
  optional point and an optional exponent.
\<close>

definition is_digit_char :: "char \<Rightarrow> bool" where
  "is_digit_char ch \<longleftrightarrow> digit_value ch \<noteq> None"

definition digits_value :: "string \<Rightarrow> nat" where
  "digits_value ds = (case parse_digits 0 ds of Some n \<Rightarrow> n | None \<Rightarrow> 0)"

definition split_sign :: "string \<Rightarrow> bool \<times> string" where
  "split_sign s = (case s of
     ch # t \<Rightarrow> if ch = CHR ''-'' then (True, t) else if ch = CHR ''+'' then (False, t) else (False, s)
   | [] \<Rightarrow> (False, s))"

definition parse_exponent :: "string \<Rightarrow> int option" where
  "parse_exponent s = (case s of
     [] \<Rightarrow> Some 0
   | ch # t \<Rightarrow>
       if to_lower ch = CHR ''e'' then
         (case split_sign t of (neg, ds) \<Rightarrow>
            map_option (\<lambda>n. if neg then - int n else int n) (parse_nat ds))
       else None)"

definition scale10 :: "int \<Rightarrow> rat" where
  "scale10 e = (if 0 \<le> e then 10 ^ nat e else 1 / 10 ^ nat (- e))"

definition parse_number :: "string \<Rightarrow> rat option" where
  "parse_number s =
     (let whole = takeWhile is_digit_char s; rest = dropWhile is_digit_char s;
          (frac, rest') = (case rest of
             ch # t \<Rightarrow> if ch = CHR ''.'' then (takeWhile is_digit_char t, dropWhile is_digit_char t) else ([], rest)
           | [] \<Rightarrow> ([], rest))
      in if whole = [] \<and> frac = [] then None
         else map_option (\<lambda>e. of_nat (digits_value (whole @ frac)) * scale10 (e - int (length frac)))
           (parse_exponent rest'))"

definition parse_f64 :: "string \<Rightarrow> f64 option" where
  "parse_f64 s =
     (let (neg, t) = split_sign s; l = map to_lower t;
          magnitude = (if l = ''inf'' \<or> l = ''infinity'' then Some PosInf
            else if l = ''nan'' then Some NaN else map_option f64_of (parse_number t))
      in map_option (\<lambda>x. if neg then f64_neg x else x) magnitude)"

definition resolve_f64 :: "config_error + string \<Rightarrow> f64 \<Rightarrow> f64" where
  "resolve_f64 = resolve_with parse_f64"

definition trade_min_token_confidence :: "config_stores \<Rightarrow> f64" where
  "trade_min_token_confidence st = resolve_f64 (config_get st ''TRADE_MIN_TOKEN_CONFIDENCE'') (f64_of (3 / 10))"

definition portfolio_rebalance_threshold :: "config_stores \<Rightarrow> f64" where
  "portfolio_rebalance_threshold st = resolve_f64 (config_get st ''PORTFOLIO_REBALANCE_THRESHOLD'') (f64_of (1 / 10))"

definition liquidity_volume_weight :: "config_stores \<Rightarrow> f64" where
  "liquidity_volume_weight st = resolve_f64 (config_get st ''LIQUIDITY_VOLUME_WEIGHT'') (f64_of (6 / 10))"

definition liquidity_pool_weight :: "config_stores \<Rightarrow> f64" where
  "liquidity_pool_weight st = resolve_f64 (config_get st ''LIQUIDITY_POOL_WEIGHT'') (f64_of (4 / 10))"

definition liquidity_error_default_score :: "config_stores \<Rightarrow> f64" where
  "liquidity_error_default_score st = resolve_f64 (config_get st ''LIQUIDITY_ERROR_DEFAULT_SCORE'') (f64_of (3 / 10))"

definition prediction_mape_excellent :: "config_stores \<Rightarrow> f64" where
  "prediction_mape_excellent st = resolve_f64 (config_get st ''PREDICTION_MAPE_EXCELLENT'') (f64_of 3)"

definition prediction_mape_poor :: "config_stores \<Rightarrow> f64" where
  "prediction_mape_poor st = resolve_f64 (config_get st ''PREDICTION_MAPE_POOR'') (f64_of 15)"

lemma parse_f64_examples:
  "parse_f64 ''0.5'' = Some (Fin (1 / 2))" "parse_f64 ''-2e2'' = Some (Fin (- 200))" "parse_f64 ''.25'' = Some (Fin (1 / 4))"
  "parse_f64 ''-Infinity'' = Some NegInf" "parse_f64 ''1.'' = Some (Fin 1)" "parse_f64 ''.'' = None" "parse_f64 '''' = None"
  by code_simp+

end
