(* ===== verification/Prediction_Store.thy ===== *)
theory Prediction_Store
  imports Database Float64 Units
begin

text \<open>
  \<^verbatim>\<open>persistence/src/prediction_record.rs\<close>: the predictions that were made and, once their target time
  is past, how far off they were. Times are microseconds since the epoch.
\<close>

section \<open>Operations\<close>

record db_prediction_record =
  pred_id :: "32 word"
  pred_token :: string
  pred_quote_token :: string
  pred_predicted_price :: rat
  pred_data_cutoff_time :: int
  pred_target_time :: int
  pred_actual_price :: "rat option"
  pred_mape :: "f64 option"
  pred_absolute_error :: "rat option"
  pred_evaluated_at :: "int option"
  pred_created_at :: int

record new_prediction_record =
  npr_token :: string
  npr_quote_token :: string
  npr_predicted_price :: rat
  npr_data_cutoff_time :: int
  npr_target_time :: int

type_synonym 'w prediction_table = "('w, db_prediction_record, new_prediction_record) table"

definition prediction_batch_insert :: "'w prediction_table \<Rightarrow> new_prediction_record list \<Rightarrow> ('w, unit) db" where
  "prediction_batch_insert T records =
     (if records = [] then db_return () else db_bind (db_call (t_insert T records)) (\<lambda>_. db_return ()))"

definition get_pending_evaluations_as_of :: "'w prediction_table \<Rightarrow> int \<Rightarrow> ('w, db_prediction_record list) db" where
  "get_pending_evaluations_as_of T as_of =
     db_load T (\<lambda>r. pred_evaluated_at r = None \<and> pred_target_time r \<le> as_of) (asc pred_target_time)"

definition get_pending_evaluations :: "'w prediction_table \<Rightarrow> ('w \<Rightarrow> int) \<Rightarrow> ('w, db_prediction_record list) db" where
  "get_pending_evaluations T clock w = get_pending_evaluations_as_of T (clock w) w"

definition delete_by_target_time_range :: "'w prediction_table \<Rightarrow> int \<Rightarrow> int \<Rightarrow> ('w, nat) db" where
  "delete_by_target_time_range T start end' =
     (if start > end' then db_fail (Msg ''invalid range: start > end'' [])
      else db_call (t_delete T (\<lambda>r. start \<le> pred_target_time r \<and> pred_target_time r \<le> end')))"

definition update_evaluation :: "'w prediction_table \<Rightarrow> ('w \<Rightarrow> int) \<Rightarrow> 32 word \<Rightarrow> rat \<Rightarrow> f64 \<Rightarrow> rat \<Rightarrow> ('w, unit) db" where
  "update_evaluation T clock rid actual_price mape absolute_error w =
     (let now = clock w in
      db_bind (db_call (t_update T (\<lambda>r. pred_id r = rid)
        (\<lambda>r. r\<lparr>pred_actual_price := Some actual_price, pred_mape := Some mape,
             pred_absolute_error := Some absolute_error, pred_evaluated_at := Some now\<rparr>))) (\<lambda>_. db_return ()) w)"

text \<open>\<^verbatim>\<open>LIMIT\<close>; a negative number is an error of the database.\<close>

definition db_limit :: "int \<Rightarrow> ('w, 'r list) db \<Rightarrow> ('w, 'r list) db" where
  "db_limit limit m =
     (if limit < 0 then db_fail (Db_Error ''LIMIT must not be negative'')
      else db_bind m (\<lambda>rows. db_return (take (nat limit) rows)))"

definition evaluated_time :: "db_prediction_record \<Rightarrow> int" where
  "evaluated_time r = (case pred_evaluated_at r of Some t \<Rightarrow> t | None \<Rightarrow> 0)"

definition get_recent_evaluated :: "'w prediction_table \<Rightarrow> int \<Rightarrow> ('w, db_prediction_record list) db" where
  "get_recent_evaluated T limit =
     db_limit limit (db_load T (\<lambda>r. pred_evaluated_at r \<noteq> None) (desc evaluated_time))"

definition out_to_string :: "token_out_account \<Rightarrow> string" where
  "out_to_string t = as_account_id (out_inner t)"

definition get_recent_evaluated_for_tokens :: "'w prediction_table \<Rightarrow> int \<Rightarrow> token_out_account list \<Rightarrow>
    ('w, db_prediction_record list) db" where
  "get_recent_evaluated_for_tokens T limit tokens =
     (if tokens = [] then db_return []
      else db_limit limit (db_load T (\<lambda>r. pred_evaluated_at r \<noteq> None \<and> pred_token r \<in> set (map out_to_string tokens))
        (desc pred_target_time)))"

definition get_previous_evaluated :: "'w prediction_table \<Rightarrow> token_account \<Rightarrow> int \<Rightarrow> ('w, db_prediction_record option) db" where
  "get_previous_evaluated T token before_target_time =
     db_first T (\<lambda>r. pred_token r = as_account_id token \<and> pred_evaluated_at r \<noteq> None \<and> pred_target_time r < before_target_time)
       (desc pred_target_time)"

definition is_fresh :: "int \<Rightarrow> db_prediction_record \<Rightarrow> bool" where
  "is_fresh as_of r \<longleftrightarrow> pred_created_at r \<le> as_of \<and> as_of < pred_target_time r"

definition get_latest_fresh_predictions :: "'w prediction_table \<Rightarrow> token_out_account list \<Rightarrow> int \<Rightarrow>
    ('w, db_prediction_record list) db" where
  "get_latest_fresh_predictions T tokens as_of =
     (if tokens = [] then db_return []
      else db_bind (db_load T (\<lambda>r. pred_token r \<in> set (map out_to_string tokens) \<and> is_fresh as_of r)
          (then_by (asc pred_token) (then_by (desc pred_target_time)
            (then_by (desc pred_data_cutoff_time) (desc (\<lambda>r. sint (pred_id r)))))))
        (\<lambda>rows. db_return (distinct_on pred_token rows)))"

definition earliest_fresh_visible_in :: "'w prediction_table \<Rightarrow> int \<Rightarrow> int \<Rightarrow> ('w, int option) db" where
  "earliest_fresh_visible_in T since until =
     (if since \<ge> until then db_return None
      else db_bind (db_load T (\<lambda>r. since \<le> pred_created_at r \<and> pred_created_at r < until \<and> pred_created_at r < pred_target_time r)
          unordered)
        (\<lambda>rows. db_return (if rows = [] then None else Some (Min (set (map pred_created_at rows))))))"

definition PREDICTION_MIN_RETENTION_DAYS :: u32 where "PREDICTION_MIN_RETENTION_DAYS = 7"

definition delete_old_records :: "'w prediction_table \<Rightarrow> ('w \<Rightarrow> int) \<Rightarrow> u32 \<Rightarrow> u32 \<Rightarrow> ('w, nat \<times> nat) db" where
  "delete_old_records T clock retention_days unevaluated_retention_days w =
     (if retention_days = 0 \<and> unevaluated_retention_days = 0 then db_return (0, 0) w
      else let effective_retention = max retention_days PREDICTION_MIN_RETENTION_DAYS;
               effective_unevaluated = max unevaluated_retention_days PREDICTION_MIN_RETENTION_DAYS;
               now = clock w;
               evaluated_cutoff = now - days_us effective_retention;
               unevaluated_cutoff = now - days_us effective_unevaluated
           in db_bind (db_call (t_delete T (\<lambda>r. pred_evaluated_at r \<noteq> None \<and> evaluated_time r < evaluated_cutoff))) (\<lambda>evaluated_deleted.
              db_bind (db_call (t_delete T (\<lambda>r. pred_evaluated_at r = None \<and> pred_target_time r < unevaluated_cutoff)))
                (\<lambda>unevaluated_deleted. db_return (evaluated_deleted, unevaluated_deleted))) w)"

section \<open>Fresh predictions\<close>

text \<open>
  C40. Asking for the fresh predictions of some tokens at a time changes no row and returns at most one
  row for each of them: a row that was created by that time for a target still ahead of it, with the
  latest target among all such rows of the token. A token is missing only if it has no such
  row, so a simulation of a past day never sees a prediction made later.
\<close>

theorem fresh_predictions_are_latest:
  assumes T: "table_spec T rows holds" and run: "get_latest_fresh_predictions T tokens as_of w = (Inr rs, w')"
  shows "rows w' = rows w \<and> distinct (map pred_token rs) \<and>
    (\<forall>r \<in> set rs. r \<in> set (rows w) \<and> pred_token r \<in> out_to_string ` set tokens \<and>
       pred_created_at r \<le> as_of \<and> as_of < pred_target_time r \<and>
       (\<forall>q \<in> set (rows w). pred_token q = pred_token r \<and> pred_created_at q \<le> as_of \<and> as_of < pred_target_time q \<longrightarrow>
          pred_target_time q \<le> pred_target_time r)) \<and>
    (\<forall>t \<in> set tokens. out_to_string t \<notin> pred_token ` set rs \<longrightarrow>
       (\<forall>q \<in> set (rows w). pred_token q = out_to_string t \<longrightarrow> \<not> (pred_created_at q \<le> as_of \<and> as_of < pred_target_time q)))"
proof (cases "tokens = []")
  case True
  then show ?thesis using run by (simp add: get_latest_fresh_predictions_def)
next
  case False
  define P le where "P = (\<lambda>r :: db_prediction_record. pred_token r \<in> set (map out_to_string tokens) \<and> is_fresh as_of r)"
    and "le = then_by (asc (pred_token :: db_prediction_record \<Rightarrow> string)) (then_by (desc pred_target_time)
            (then_by (desc pred_data_cutoff_time) (desc (\<lambda>r. sint (pred_id r)))))"
  have q: "query_order le" unfolding le_def by (intro orderings)
  from run False obtain xs where xs: "db_load T P le w = (Inr xs, w')" and rs: "rs = distinct_on pred_token xs"
    by (auto simp: get_latest_fresh_predictions_def db_bind_Inr_iff P_def le_def)
  note load = db_load_InrD [OF T xs]
  have set: "set xs = {r \<in> set (rows w). P r}" using load(2) by (metis set_filter set_mset_mset)
  have refl: "\<forall>x. le x x" using q by (auto simp: query_order_def)
  have latest: "pred_target_time y \<le> pred_target_time x" if "x \<in> set rs" "y \<in> set xs" "pred_token y = pred_token x" for x y
  proof -
    have "le x y" using distinct_on_first [OF load(3) [OF q] refl, of x pred_token y] that by (simp add: rs)
    then show ?thesis using that(3) by (auto simp: le_def then_by_def asc_def desc_def)
  qed
  have sub: "set rs \<subseteq> set xs" and keys: "pred_token ` set rs = pred_token ` set xs"
    using distinct_on_keys(2,3) [of pred_token xs] by (simp_all add: rs)
  have mem: "y \<in> set xs" if "y \<in> set (rows w)" "pred_token y = out_to_string t" "t \<in> set tokens"
    "pred_created_at y \<le> as_of" "as_of < pred_target_time y" for y t
    using that by (auto simp: set P_def is_fresh_def)
  have ok: "r \<in> set (rows w) \<and> pred_token r \<in> out_to_string ` set tokens \<and> pred_created_at r \<le> as_of \<and> as_of < pred_target_time r"
    if "r \<in> set rs" for r
    using that sub set by (auto simp: P_def is_fresh_def)
  show ?thesis
  proof (intro conjI ballI impI)
    show "distinct (map pred_token rs)" unfolding rs by (rule distinct_on_keys(1))
    fix r y assume r: "r \<in> set rs" and y: "y \<in> set (rows w)"
      "pred_token y = pred_token r \<and> pred_created_at y \<le> as_of \<and> as_of < pred_target_time y"
    from ok [OF r] obtain t where "t \<in> set tokens" "pred_token r = out_to_string t" by auto
    then show "pred_target_time y \<le> pred_target_time r" using latest [OF r] mem y by metis
  next
    fix t y assume "t \<in> set tokens" "out_to_string t \<notin> pred_token ` set rs" "y \<in> set (rows w)" "pred_token y = out_to_string t"
    then show "\<not> (pred_created_at y \<le> as_of \<and> as_of < pred_target_time y)"
      using mem unfolding keys by (metis imageI)
  qed (use ok load(1) in auto)
qed

definition sample_prediction_row :: "nat \<Rightarrow> new_prediction_record \<Rightarrow> db_prediction_record" where
  "sample_prediction_row i n = \<lparr>pred_id = of_nat i, pred_token = npr_token n, pred_quote_token = npr_quote_token n,
     pred_predicted_price = npr_predicted_price n, pred_data_cutoff_time = npr_data_cutoff_time n,
     pred_target_time = npr_target_time n, pred_actual_price = None, pred_mape = None, pred_absolute_error = None,
     pred_evaluated_at = None, pred_created_at = 0\<rparr>"

theorem fresh_predictions_are_latest_witness:
  "\<exists>rs. get_latest_fresh_predictions (list_table sample_prediction_row) [TokenOutAccount (TokenAccount ''a'')] 5
      [sample_prediction_row 1 \<lparr>npr_token = ''a'', npr_quote_token = ''q'', npr_predicted_price = 1,
         npr_data_cutoff_time = 0, npr_target_time = 9\<rparr>] =
      (Inr rs, [sample_prediction_row 1 \<lparr>npr_token = ''a'', npr_quote_token = ''q'', npr_predicted_price = 1,
         npr_data_cutoff_time = 0, npr_target_time = 9\<rparr>]) \<and> distinct (map pred_token rs)"
proof -
  define n where "n = \<lparr>npr_token = ''a'', npr_quote_token = ''q'', npr_predicted_price = 1,
    npr_data_cutoff_time = 0, npr_target_time = 9\<rparr>"
  have spec: "table_spec (list_table sample_prediction_row) (\<lambda>w. w) (\<lambda>n r. pred_token r = npr_token n)"
    by (rule list_table_spec) (simp add: sample_prediction_row_def)
  have "get_latest_fresh_predictions (list_table sample_prediction_row) [TokenOutAccount (TokenAccount ''a'')] 5 [sample_prediction_row 1 n] =
      (Inr [sample_prediction_row 1 n], [sample_prediction_row 1 n])"
    by (simp add: get_latest_fresh_predictions_def db_load_def db_call_def db_bind_def list_table_def sort_by_def
        sample_prediction_row_def n_def out_to_string_def is_fresh_def)
  with fresh_predictions_are_latest [OF spec this] show ?thesis by (auto simp: n_def)
qed

section \<open>Retention\<close>

text \<open>Cleaning up keeps every record whose time is within the minimal retention period.\<close>

lemma delete_old_records_keeps_recent:
  assumes T: "table_spec T rows holds" and run: "delete_old_records T clock days udays w = (r, w')"
    and x: "clock w - days_us PREDICTION_MIN_RETENTION_DAYS \<le>
      (case pred_evaluated_at x of Some t \<Rightarrow> t | None \<Rightarrow> pred_target_time x)"
  shows "count (mset (rows w')) x = count (mset (rows w)) x"
proof -
  define P1 P2 where "P1 = (\<lambda>r :: db_prediction_record. pred_evaluated_at r \<noteq> None \<and> evaluated_time r < clock w - days_us (max days PREDICTION_MIN_RETENTION_DAYS))"
    and "P2 = (\<lambda>r :: db_prediction_record. pred_evaluated_at r = None \<and> pred_target_time r < clock w - days_us (max udays PREDICTION_MIN_RETENTION_DAYS))"
  have ge: "days_us PREDICTION_MIN_RETENTION_DAYS \<le> days_us (max d PREDICTION_MIN_RETENTION_DAYS)" for d
    by (rule days_us_mono) simp
  have nP: "\<not> P1 x" "\<not> P2 x"
    using x ge [of days] ge [of udays] by (auto simp: P1_def P2_def evaluated_time_def split: option.splits)
  have del: "count (mset (rows w2)) x = count (mset (rows w1)) x" if d: "db_call (t_delete T P) w1 = (q, w2)" and nx: "\<not> P x" for P w1 q w2
  proof -
    obtain q' where q: "t_delete T P w1 = (q', w2)" using d by (auto simp: db_call_def split: prod.splits sum.splits)
    from t_deleteD [OF T q] show ?thesis using nx by (cases q') (auto simp: mset_filter)
  qed
  show ?thesis
  proof (cases "days = 0 \<and> udays = 0")
    case True
    then show ?thesis using run by (simp add: delete_old_records_def)
  next
    case False
    obtain q1 w1 where q1: "db_call (t_delete T P1) w = (q1, w1)" by (cases "db_call (t_delete T P1) w")
    obtain q2 w2 where q2: "db_call (t_delete T P2) w1 = (q2, w2)" by (cases "db_call (t_delete T P2) w1")
    have "w' = w1 \<or> w' = w2"
      using run [unfolded delete_old_records_def if_not_P [OF False] Let_def, folded P1_def P2_def] q1 q2
      by (cases q1; cases q2) (auto simp: db_bind_def)
    then show ?thesis using del [OF q1 nP(1)] del [OF q2 nP(2)] by auto
  qed
qed

end
