(* ===== verification/Spec2Isabelle.thy ===== *)
theory Spec2Isabelle
  imports Prelude Ordered_Map Decimal Dex Storage_Planner Effects Deposit Config Storage Units Balances
    Small_Near Search Swap Token_Graph Path_Search Database Pool_Store Preview Traces Arbitrage Rate_Store
    Matching Float64 Slippage Trade_Store Token_Cache Trade_Swap Trade_Harvest Execution Rebalance_Swaps
    Execution_Traces Period_Traces Float_Math Portfolio_Stats Portfolio_Optimizer Portfolio_Shapes Portfolio_Search
    Portfolio_Combinations Portfolio_Selection Portfolio Float_Config Prediction_Store
begin

text \<open>
  A verification library for the trading program under \<^verbatim>\<open>src/crates\<close>.
\<close>

end
